(* ===== verification/Prelude.thy ===== *)
theory Prelude
  imports Main "HOL-Library.Word"
begin

text \<open>
  Shared vocabulary of the development.

  \<^item> machine integers of the driver (\<open>uint32\<close>, \<open>uint64\<close>, \<open>size_t\<close>, ...) are words, and
    addresses are natural numbers with 0 for the null pointer;
  \<^item> a Haiku \<open>status_t\<close> is a sum: \<open>Inl\<close> an error code, \<open>Inr\<close> the value a call hands back;
  \<^item> the macro \<open>CHECK_RET\<close>, which every driver file defines, is the bind of that sum, with and
    without a state that is passed along;
  \<^item> the named collections the component theories add their facts to, and the facts on lists
    and words that several of them use.
\<close>

section \<open>Types\<close>

type_synonym u8 = "8 word"
type_synonym u16 = "16 word"
type_synonym u32 = "32 word"
type_synonym u64 = "64 word"
type_synonym ptr = nat

abbreviation (input) nullptr :: ptr where "nullptr \<equiv> 0"

text \<open>Error codes of Haiku's \<open>Errors.h\<close> that the sources name; every other negative code an
  operating system call may return is \<open>OTHER_ERROR\<close>. On Haiku \<open>EINVAL\<close> is \<open>B_BAD_VALUE\<close>.\<close>

datatype error =
    B_ERROR
  | B_NO_MEMORY
  | B_IO_ERROR
  | B_BAD_VALUE
  | B_NO_INIT
  | B_DEV_INVALID_IOCTL
  | ENODEV
  | ENOENT
  | ENOSYS
  | OTHER_ERROR int

abbreviation (input) EINVAL :: error where "EINVAL \<equiv> B_BAD_VALUE"

type_synonym 'a status = "error + 'a"

abbreviation (input) B_OK :: "unit status" where "B_OK \<equiv> Inr ()"

section \<open>CHECK_RET\<close>

definition CHECK_RET :: "'a status \<Rightarrow> ('a \<Rightarrow> 'b status) \<Rightarrow> 'b status" where
  "CHECK_RET err k = (case err of Inl e \<Rightarrow> Inl e | Inr v \<Rightarrow> k v)"

text \<open>The same macro in a function that works on a state: an early return keeps the state
  reached so far.\<close>

definition CHECK_RET_st ::
    "'a status \<times> 's \<Rightarrow> ('a \<Rightarrow> 's \<Rightarrow> 'b status \<times> 's) \<Rightarrow> 'b status \<times> 's" where
  "CHECK_RET_st r k = (case r of (Inl e, s) \<Rightarrow> (Inl e, s) | (Inr v, s) \<Rightarrow> k v s)"

named_theorems check_ret

lemma CHECK_RET_simps [simp, check_ret]:
  "CHECK_RET (Inl e) k = Inl e"
  "CHECK_RET (Inr v) k = k v"
  by (simp_all add: CHECK_RET_def)

lemma CHECK_RET_st_simps [simp, check_ret]:
  "CHECK_RET_st (Inl e, s) k = (Inl e, s)"
  "CHECK_RET_st (Inr v, s) k = k v s"
  by (simp_all add: CHECK_RET_st_def)

lemma CHECK_RET_Inr_iff:
  "CHECK_RET err k = Inr w \<longleftrightarrow> (\<exists>v. err = Inr v \<and> k v = Inr w)"
  by (cases err) simp_all

lemma CHECK_RET_st_Inr_iff:
  "CHECK_RET_st r k = (Inr w, t) \<longleftrightarrow> (\<exists>v s. r = (Inr v, s) \<and> k v s = (Inr w, t))"
  by (cases r; cases "fst r") auto

section \<open>Lists\<close>

text \<open>The non-null entries of an array of pointers.\<close>

definition live :: "ptr list \<Rightarrow> ptr list" where
  "live xs = filter (\<lambda>p. p \<noteq> nullptr) xs"

lemma live_simps [simp]:
  "live [] = []"
  "live (x # xs) = (if x = nullptr then live xs else x # live xs)"
  "live (xs @ ys) = live xs @ live ys"
  by (simp_all add: live_def)

lemma set_live: "set (live xs) = set xs - {nullptr}"
  by (auto simp: live_def)

lemma concat_update:
  "i < length xss \<Longrightarrow>
     concat (xss[i := ys]) = concat (take i xss) @ ys @ concat (drop (Suc i) xss)"
  by (simp add: upd_conv_take_nth_drop)

lemma concat_split:
  "i < length xss \<Longrightarrow>
     concat xss = concat (take i xss) @ xss ! i @ concat (drop (Suc i) xss)"
  using concat_update [of i xss "xss ! i"] by simp

lemma less_4_cases: "i < 4 \<Longrightarrow> i = 0 \<or> i = 1 \<or> i = 2 \<or> i = (3 :: nat)"
  by arith

section \<open>Words\<close>

lemma unat_of_nat_lt: "n < 2 ^ LENGTH('a) \<Longrightarrow> unat (of_nat n :: 'a::len word) = n"
  by (simp add: unat_of_nat take_bit_nat_eq_self)

lemma unat_two_power: "k < LENGTH('a) \<Longrightarrow> unat (2 ^ k :: 'a::len word) = 2 ^ k"
  using unat_of_nat_lt [of "2 ^ k", where 'a = 'a] by simp

end
