(* ===== verification/Steps.thy ===== *)
theory Steps
  imports Prelude
begin

text \<open>
  Step relations. Every component that runs under threads, interrupts or messages is an \<open>inductive\<close> step
  relation with its reachable states. The locales state once what all of them have in common: how an
  invariant is shown, how runs extend, and how a relation whose state can be read as the state of another
  one inherits the invariants of that one.
\<close>

section \<open>Reachable states\<close>

locale transition_system =
  fixes initial :: "'s \<Rightarrow> bool"
    and step :: "'s \<Rightarrow> 's \<Rightarrow> bool"
    and reach :: "'s \<Rightarrow> bool"
  assumes reach_initial: "initial s \<Longrightarrow> reach s"
    and reach_step: "reach s \<Longrightarrow> step s t \<Longrightarrow> reach t"
    and reach_least: "reach s \<Longrightarrow> (\<And>s. initial s \<Longrightarrow> I s) \<Longrightarrow>
      (\<And>s t. reach s \<Longrightarrow> I s \<Longrightarrow> step s t \<Longrightarrow> I t) \<Longrightarrow> I s"
begin

lemma reach_run: "step\<^sup>*\<^sup>* s t \<Longrightarrow> reach s \<Longrightarrow> reach t"
  by (induction rule: rtranclp_induct) (auto intro: reach_step)

lemma reach_iff_run: "reach t \<longleftrightarrow> (\<exists>s. initial s \<and> step\<^sup>*\<^sup>* s t)"
proof
  show "reach t \<Longrightarrow> \<exists>s. initial s \<and> step\<^sup>*\<^sup>* s t"
    by (erule reach_least) (auto intro: rtranclp.rtrancl_into_rtrancl)
qed (auto intro: reach_run reach_initial)

end

section \<open>Invariants\<close>

locale invariant_system = transition_system +
  fixes inv :: "'a \<Rightarrow> bool"
  assumes inv_initial: "initial s \<Longrightarrow> inv s"
    and inv_step: "reach s \<Longrightarrow> inv s \<Longrightarrow> step s t \<Longrightarrow> inv t"
begin

lemma inv_reach: "reach s \<Longrightarrow> inv s"
  by (erule reach_least) (auto intro: inv_initial inv_step)

end

text \<open>What every step keeps, whatever the state it starts from.\<close>

locale preserved =
  fixes step :: "'s \<Rightarrow> 's \<Rightarrow> bool" and inv :: "'s \<Rightarrow> bool"
  assumes preserves: "inv s \<Longrightarrow> step s t \<Longrightarrow> inv t"
begin

lemma inv_run: "step\<^sup>*\<^sup>* s t \<Longrightarrow> inv s \<Longrightarrow> inv t"
  by (induction rule: rtranclp_induct) (auto intro: preserves)

end

sublocale preserved \<subseteq> invariant_system inv step "\<lambda>t. \<exists>s. inv s \<and> step\<^sup>*\<^sup>* s t" inv
proof
  fix s I
  assume run: "\<exists>s0. inv s0 \<and> step\<^sup>*\<^sup>* s0 s" and first: "\<And>s. inv s \<Longrightarrow> I s"
    and next_one: "\<And>s t. \<exists>s0. inv s0 \<and> step\<^sup>*\<^sup>* s0 s \<Longrightarrow> I s \<Longrightarrow> step s t \<Longrightarrow> I t"
  from run obtain s0 where "step\<^sup>*\<^sup>* s0 s" "inv s0" by blast
  then show "I s" by (induction rule: rtranclp_induct) (blast intro: first next_one)+
qed (auto intro: preserves rtranclp.rtrancl_into_rtrancl)

section \<open>Simulation\<close>

text \<open>The concrete relation does one step of the abstract one, or none that the abstract state shows.\<close>

locale simulation =
  concrete: transition_system initial step reach +
  abstract: transition_system initial' step' reach'
  for initial :: "'c \<Rightarrow> bool" and step reach and initial' :: "'a \<Rightarrow> bool" and step' reach' +
  fixes abs :: "'c \<Rightarrow> 'a"
  assumes abs_initial: "initial s \<Longrightarrow> initial' (abs s)"
    and abs_step: "reach s \<Longrightarrow> step s t \<Longrightarrow> abs t = abs s \<or> step' (abs s) (abs t)"
begin

lemma abs_reach: "reach s \<Longrightarrow> reach' (abs s)"
proof (erule concrete.reach_least)
  fix s t
  assume "reach s" "reach' (abs s)" "step s t"
  then show "reach' (abs t)" using abs_step abstract.reach_step by metis
qed (auto intro: abstract.reach_initial abs_initial)

end

text \<open>An invariant of the abstract relation is one of the concrete relation.\<close>

locale simulates_invariant =
  simulation initial step reach initial' step' reach' abs +
  invariant_system initial' step' reach' inv
  for initial :: "'c \<Rightarrow> bool" and step reach and initial' :: "'a \<Rightarrow> bool" and step' reach' abs inv

sublocale simulates_invariant \<subseteq> concrete: invariant_system initial step reach "\<lambda>s. inv (abs s)"
proof
  show "inv (abs s)" if "initial s" for s
    using that by (intro inv_initial abs_initial)
  show "inv (abs t)" if "reach s" "inv (abs s)" "step s t" for s t
    using inv_reach abs_reach concrete.reach_step that by metis
qed

end
