(* ===== verification/IntrSafePool.thy ===== *)
theory IntrSafePool
  imports Steps "HOL-Library.Multiset"
begin

text \<open>
  \<open>nvidia_gsp/nvidia/IntrSafePool.{h,cpp}\<close>: the allocator the resource manager uses while
  interrupts are disabled, and its two clients \<open>os_alloc_mem\<close> and \<open>os_free_mem\<close> of
  \<open>os-haiku.cpp\<close>. Four groups hold prepared blocks of 16, 32, 64 and 128 bytes; freed blocks
  wait in a reclaim group until interrupts are enabled again.

  First the methods on one group, then \<open>Alloc\<close> and \<open>Free\<close> as they run under the spinlock, then
  the threads: \<open>Maintain\<close> and \<open>ReclaimAll\<close> give the spinlock up around \<open>free\<close> and
  \<open>calloc\<close>, so they are cut into the atomic pieces between two releases of the lock, and every
  interleaving of any number of threads is a run of the step relation \<open>pool_step\<close>.
\<close>

section \<open>State\<close>

definition kGroupCount :: nat where "kGroupCount = 4"
definition kGroupMaxItemCount :: nat where "kGroupMaxItemCount = 16"
definition kReclaimMaxItemCount :: nat where "kReclaimMaxItemCount = 4096"
definition kMinSizePow2 :: nat where "kMinSizePow2 = 4"
definition kMinSize :: u64 where "kMinSize = push_bit kMinSizePow2 1"

lemmas pool_consts =
  kGroupCount_def kGroupMaxItemCount_def kReclaimMaxItemCount_def kMinSizePow2_def

lemma kMinSize_eq: "kMinSize = 16"
  by (simp add: kMinSize_def kMinSizePow2_def)

text \<open>\<open>items\<close> is the fixed array of the C++ template, null pointers included.\<close>

record group =
  grp_count :: nat
  grp_items :: "ptr list"

record pool =
  fGroups :: "group list"
  fReclaimGroup :: group
  fLevel :: int

definition init_group :: "nat \<Rightarrow> group" where
  "init_group n = \<lparr>grp_count = 0, grp_items = replicate n nullptr\<rparr>"

definition init_pool :: pool where
  "init_pool =
     \<lparr>fGroups = replicate kGroupCount (init_group kGroupMaxItemCount),
      fReclaimGroup = init_group kReclaimMaxItemCount,
      fLevel = 0\<rparr>"

section \<open>Methods of a group\<close>

text \<open>\<open>Group::Alloc\<close>: the last item, or null when the group is empty.\<close>

definition group_alloc :: "group \<Rightarrow> ptr \<times> group" where
  "group_alloc g =
     (if grp_count g = 0 then (nullptr, g)
      else let c = grp_count g - 1
           in (grp_items g ! c, g\<lparr>grp_count := c, grp_items := (grp_items g)[c := nullptr]\<rparr>))"

text \<open>The store \<open>items[count] = ptr; count++\<close> that \<open>Group::Free\<close> and \<open>Maintain\<close> do.\<close>

definition group_push :: "group \<Rightarrow> ptr \<Rightarrow> group" where
  "group_push g p = g\<lparr>grp_items := (grp_items g)[grp_count g := p], grp_count := Suc (grp_count g)\<rparr>"

text \<open>\<open>Group::Free\<close> panics on a full group.\<close>

definition group_free :: "nat \<Rightarrow> group \<Rightarrow> ptr \<Rightarrow> group option" where
  "group_free maxItemCount g p =
     (if grp_count g \<ge> maxItemCount then None else Some (group_push g p))"

text \<open>A group is well formed when its array has the declared length, the count is within it
  and the slots from \<open>count\<close> on are null. Its contents are the slots below the count.\<close>

definition group_wf :: "nat \<Rightarrow> group \<Rightarrow> bool" where
  "group_wf n g \<longleftrightarrow> length (grp_items g) = n \<and> grp_count g \<le> n \<and>
     (\<forall>k. grp_count g \<le> k \<longrightarrow> k < n \<longrightarrow> grp_items g ! k = nullptr)"

definition group_contents :: "group \<Rightarrow> ptr list" where
  "group_contents g = take (grp_count g) (grp_items g)"

lemma init_group_wf: "group_wf n (init_group n)"
  by (simp add: group_wf_def init_group_def)

lemma init_group_contents [simp]: "group_contents (init_group n) = []"
  by (simp add: group_contents_def init_group_def)

lemma group_push_wf: "group_wf n g \<Longrightarrow> grp_count g < n \<Longrightarrow> group_wf n (group_push g p)"
  by (auto simp: group_wf_def group_push_def nth_list_update)

lemma group_push_contents:
  "group_wf n g \<Longrightarrow> grp_count g < n \<Longrightarrow> group_contents (group_push g p) = group_contents g @ [p]"
  by (simp add: group_wf_def group_contents_def group_push_def take_Suc_conv_app_nth)

lemma group_push_count [simp]: "grp_count (group_push g p) = Suc (grp_count g)"
  by (simp add: group_push_def)

lemma group_alloc_empty: "grp_count g = 0 \<Longrightarrow> group_alloc g = (nullptr, g)"
  by (simp add: group_alloc_def)

lemma group_alloc_wf: "group_wf n g \<Longrightarrow> group_wf n (snd (group_alloc g))"
  by (auto simp: group_wf_def group_alloc_def Let_def nth_list_update)

text \<open>The group is a stack: \<open>Alloc\<close> takes the item the last store put there.\<close>

lemma group_alloc_contents:
  assumes "group_wf n g" and "0 < grp_count g"
  shows "group_contents g = group_contents (snd (group_alloc g)) @ [fst (group_alloc g)]"
    and "grp_count (snd (group_alloc g)) = grp_count g - 1"
proof -
  from assms(2) obtain c where c: "grp_count g = Suc c" by (cases "grp_count g") auto
  with assms(1) have len: "c < length (grp_items g)" by (simp add: group_wf_def)
  with c show "group_contents g = group_contents (snd (group_alloc g)) @ [fst (group_alloc g)]"
    by (simp add: group_contents_def group_alloc_def take_Suc_conv_app_nth)
  from c show "grp_count (snd (group_alloc g)) = grp_count g - 1"
    by (simp add: group_alloc_def)
qed

text \<open>So whatever the count, the non-null pointers are split between result and rest.\<close>

lemma group_alloc_live:
  assumes "group_wf n g"
  shows "live (group_contents g) = live (group_contents (snd (group_alloc g))) @ live [fst (group_alloc g)]"
proof (cases "grp_count g = 0")
  case True
  then show ?thesis by (simp add: group_alloc_empty)
next
  case False
  with group_alloc_contents(1) [OF assms] have
    "group_contents g = group_contents (snd (group_alloc g)) @ [fst (group_alloc g)]" by simp
  then have "live (group_contents g) = live (group_contents (snd (group_alloc g)) @ [fst (group_alloc g)])"
    by (rule arg_cong)
  then show ?thesis by simp
qed

section \<open>Alloc and Free under the spinlock\<close>

text \<open>The loop that picks the first group whose blocks are large enough. \<open>groupSize\<close> is a
  \<open>size_t\<close> and \<open>n\<close> a \<open>uint32\<close>; both wrap around, and the loop need not end.\<close>

partial_function (option) alloc_class :: "u64 \<Rightarrow> u32 \<Rightarrow> u64 \<Rightarrow> u32 option" where
  "alloc_class sz n groupSize =
     (if groupSize < sz then alloc_class sz (n + 1) (groupSize * 2) else Some n)"

text \<open>The scan \<open>for (i = n; i < kGroupCount; i++)\<close> over the groups.\<close>

function alloc_scan :: "group list \<Rightarrow> nat \<Rightarrow> ptr \<times> group list" where
  "alloc_scan gs i =
     (if i < kGroupCount then
        let (p, g) = group_alloc (gs ! i)
        in if p \<noteq> nullptr then (p, gs[i := g]) else alloc_scan (gs[i := g]) (i + 1)
      else (nullptr, gs))"
  by pat_completeness auto
termination
  by (relation "measure (\<lambda>(gs, i). kGroupCount - i)") auto

declare alloc_scan.simps [simp del]

text \<open>How a call ends: with a pointer, in \<open>panic\<close>, or never.\<close>

datatype alloc_outcome = Returned ptr | Panicked | Diverges

definition pool_alloc :: "pool \<Rightarrow> u64 \<Rightarrow> alloc_outcome \<times> pool" where
  "pool_alloc pl sz =
     (let pl1 = pl\<lparr>fLevel := fLevel pl + 1\<rparr>
      in case alloc_class sz 0 kMinSize of
           None \<Rightarrow> (Diverges, pl1)
         | Some n \<Rightarrow>
             (let (p, gs) = alloc_scan (fGroups pl1) (unat n);
                  pl2 = pl1\<lparr>fGroups := gs, fLevel := fLevel pl1 - 1\<rparr>
              in (if p \<noteq> nullptr then Returned p else Panicked, pl2)))"

definition pool_free :: "pool \<Rightarrow> ptr \<Rightarrow> pool option" where
  "pool_free pl p =
     (let pl1 = pl\<lparr>fLevel := fLevel pl + 1\<rparr>
      in map_option (\<lambda>g. pl1\<lparr>fReclaimGroup := g, fLevel := fLevel pl1 - 1\<rparr>)
           (group_free kReclaimMaxItemCount (fReclaimGroup pl1) p))"

section \<open>os_alloc_mem and os_free_mem\<close>

text \<open>
  With interrupts enabled the two functions use the kernel heap, otherwise the pool. The
  result of \<open>calloc\<close> is an argument: null, or a block that is not in use.
\<close>

datatype os_status = NV_OK | NV_ERR_NO_MEMORY

definition os_alloc_mem :: "bool \<Rightarrow> ptr \<Rightarrow> pool \<Rightarrow> u64 \<Rightarrow> (os_status \<times> alloc_outcome) \<times> pool" where
  "os_alloc_mem interrupts calloc_result pl sz =
     (let (r, pl') = (if interrupts then (Returned calloc_result, pl) else pool_alloc pl sz)
      in ((case r of Returned p \<Rightarrow> if p \<noteq> nullptr then NV_OK else NV_ERR_NO_MEMORY
           | _ \<Rightarrow> NV_ERR_NO_MEMORY, r), pl'))"

datatype free_outcome = HeapFree ptr | PoolFree pool | FreePanicked

definition os_free_mem :: "bool \<Rightarrow> pool \<Rightarrow> ptr \<Rightarrow> free_outcome" where
  "os_free_mem interrupts pl address =
     (if interrupts then HeapFree address
      else case pool_free pl address of None \<Rightarrow> FreePanicked | Some pl' \<Rightarrow> PoolFree pl')"

section \<open>Maintain and ReclaimAll, one locked piece at a time\<close>

text \<open>
  Where a thread stands between two critical sections. \<open>Maintain\<close> has popped a block of the
  reclaim group and is about to \<open>free\<close> it (\<open>MFree\<close>), wants the lock back (\<open>MRelock\<close>), is about
  to \<open>calloc\<close> a block for group \<open>i\<close> (\<open>MCalloc\<close>), or has it and wants the lock back
  (\<open>MStore\<close>). \<open>ReclaimAll\<close> has popped a block of its \<open>k\<close>-th group (0 the reclaim group,
  \<open>i + 1\<close> the group \<open>fGroups[i]\<close>) or wants the lock back.
\<close>

datatype pc = Idle | MFree ptr | MRelock | MCalloc nat | MStore nat ptr | RFree nat ptr | RRelock nat

text \<open>\<open>size\<close> in \<open>Maintain\<close>, doubled once per group.\<close>

primrec maintain_size :: "nat \<Rightarrow> u64" where
  "maintain_size 0 = kMinSize"
| "maintain_size (Suc i) = maintain_size i * 2"

text \<open>The refill loops of \<open>Maintain\<close> from group \<open>i\<close>, up to the next \<open>release_spinlock\<close>.\<close>

function maintain_refill :: "pool \<Rightarrow> nat \<Rightarrow> pool \<times> pc" where
  "maintain_refill pl i =
     (if i < kGroupCount then
        if grp_count (fGroups pl ! i) < kGroupMaxItemCount then (pl, MCalloc i)
        else maintain_refill pl (i + 1)
      else (pl\<lparr>fLevel := fLevel pl - 1\<rparr>, Idle))"
  by pat_completeness auto
termination
  by (relation "measure (\<lambda>(pl, i). kGroupCount - i)") auto

declare maintain_refill.simps [simp del]

text \<open>\<open>fReclaimGroup.ReclaimAll\<close> inside \<open>Maintain\<close>; \<open>None\<close> is its \<open>panic\<close>.\<close>

definition maintain_reclaim :: "pool \<Rightarrow> (pool \<times> pc) option" where
  "maintain_reclaim pl =
     (let g = fReclaimGroup pl
      in if grp_count g > 0 then
           if grp_count g > kReclaimMaxItemCount then None
           else let (p, g') = group_alloc g in Some (pl\<lparr>fReclaimGroup := g'\<rparr>, MFree p)
         else Some (maintain_refill pl 0))"

text \<open>The entry of \<open>Maintain\<close>: another call in progress makes it return at once.\<close>

definition maintain_enter :: "pool \<Rightarrow> (pool \<times> pc) option" where
  "maintain_enter pl =
     (let oldLevel = fLevel pl; pl1 = pl\<lparr>fLevel := oldLevel + 1\<rparr>
      in if oldLevel > 0 then Some (pl1\<lparr>fLevel := fLevel pl1 - 1\<rparr>, Idle)
         else maintain_reclaim pl1)"

text \<open>After \<open>calloc\<close>: the store, and on with the loops.\<close>

definition maintain_store :: "pool \<Rightarrow> nat \<Rightarrow> ptr \<Rightarrow> pool \<times> pc" where
  "maintain_store pl i p =
     maintain_refill (pl\<lparr>fGroups := (fGroups pl)[i := group_push (fGroups pl ! i) p]\<rparr>) i"

text \<open>The destructor's \<open>ReclaimAll\<close>, from its \<open>k\<close>-th group on.\<close>

function reclaim_all :: "pool \<Rightarrow> nat \<Rightarrow> (pool \<times> pc) option" where
  "reclaim_all pl k =
     (if k = 0 then
        (let g = fReclaimGroup pl
         in if grp_count g > 0 then
              if grp_count g > kReclaimMaxItemCount then None
              else let (p, g') = group_alloc g in Some (pl\<lparr>fReclaimGroup := g'\<rparr>, RFree 0 p)
            else reclaim_all pl 1)
      else if k \<le> kGroupCount then
        (let g = fGroups pl ! (k - 1)
         in if grp_count g > 0 then
              if grp_count g > kGroupMaxItemCount then None
              else let (p, g') = group_alloc g
                   in Some (pl\<lparr>fGroups := (fGroups pl)[k - 1 := g']\<rparr>, RFree k p)
            else reclaim_all pl (k + 1))
      else Some (pl, Idle))"
  by pat_completeness auto
termination
  by (relation "measure (\<lambda>(pl, k). Suc kGroupCount - k)") (auto simp: kGroupCount_def)

declare reclaim_all.simps [simp del]

section \<open>The system of threads\<close>

text \<open>
  \<open>heap\<close> gives the size of every block of the kernel heap that is in use, \<open>held\<close> the blocks the
  resource manager has been given and not returned, \<open>halted\<close> says that a \<open>panic\<close> or an endless
  loop under the lock was reached.
\<close>

record sys =
  pool_of :: pool
  heap :: "ptr \<Rightarrow> nat option"
  held :: "ptr set"
  pcs :: "nat \<Rightarrow> pc"
  halted :: bool

definition init_sys :: sys where
  "init_sys = \<lparr>pool_of = init_pool, heap = (\<lambda>_. None), held = {}, pcs = (\<lambda>_. Idle), halted = False\<rparr>"

definition fresh_or_null :: "sys \<Rightarrow> ptr \<Rightarrow> bool" where
  "fresh_or_null s p \<longleftrightarrow> p = nullptr \<or> heap s p = None"

definition heap_alloc :: "(ptr \<Rightarrow> nat option) \<Rightarrow> ptr \<Rightarrow> nat \<Rightarrow> (ptr \<Rightarrow> nat option)" where
  "heap_alloc h p n = (if p = nullptr then h else h(p \<mapsto> n))"

inductive pool_step :: "sys \<Rightarrow> sys \<Rightarrow> bool" where
  alloc: "\<not> halted s \<Longrightarrow> pool_alloc (pool_of s) sz = (Returned p, pl) \<Longrightarrow>
    pool_step s (s\<lparr>pool_of := pl, held := insert p (held s)\<rparr>)"
| alloc_stops: "\<not> halted s \<Longrightarrow> pool_alloc (pool_of s) sz = (r, pl) \<Longrightarrow> r \<in> {Panicked, Diverges} \<Longrightarrow>
    pool_step s (s\<lparr>pool_of := pl, halted := True\<rparr>)"
| free: "\<not> halted s \<Longrightarrow> p \<in> held s \<or> p = nullptr \<Longrightarrow> pool_free (pool_of s) p = Some pl \<Longrightarrow>
    pool_step s (s\<lparr>pool_of := pl, held := held s - {p}\<rparr>)"
| free_panics: "\<not> halted s \<Longrightarrow> pool_free (pool_of s) p = None \<Longrightarrow>
    pool_step s (s\<lparr>halted := True\<rparr>)"
| heap_calloc: "\<not> halted s \<Longrightarrow> fresh_or_null s p \<Longrightarrow> p \<noteq> nullptr \<Longrightarrow>
    pool_step s (s\<lparr>heap := heap_alloc (heap s) p n, held := insert p (held s)\<rparr>)"
| heap_free: "\<not> halted s \<Longrightarrow> p \<in> held s \<Longrightarrow>
    pool_step s (s\<lparr>heap := (heap s)(p := None), held := held s - {p}\<rparr>)"
| m_enter: "\<not> halted s \<Longrightarrow> pcs s t = Idle \<Longrightarrow> maintain_enter (pool_of s) = Some (pl, c) \<Longrightarrow>
    pool_step s (s\<lparr>pool_of := pl, pcs := (pcs s)(t := c)\<rparr>)"
| m_free: "\<not> halted s \<Longrightarrow> pcs s t = MFree p \<Longrightarrow>
    pool_step s (s\<lparr>heap := (heap s)(p := None), pcs := (pcs s)(t := MRelock)\<rparr>)"
| m_relock: "\<not> halted s \<Longrightarrow> pcs s t = MRelock \<Longrightarrow> maintain_reclaim (pool_of s) = Some (pl, c) \<Longrightarrow>
    pool_step s (s\<lparr>pool_of := pl, pcs := (pcs s)(t := c)\<rparr>)"
| m_calloc: "\<not> halted s \<Longrightarrow> pcs s t = MCalloc i \<Longrightarrow> fresh_or_null s p \<Longrightarrow>
    pool_step s (s\<lparr>heap := heap_alloc (heap s) p (unat (maintain_size i)),
                   pcs := (pcs s)(t := MStore i p)\<rparr>)"
| m_store: "\<not> halted s \<Longrightarrow> pcs s t = MStore i p \<Longrightarrow> maintain_store (pool_of s) i p = (pl, c) \<Longrightarrow>
    pool_step s (s\<lparr>pool_of := pl, pcs := (pcs s)(t := c)\<rparr>)"
| r_enter: "\<not> halted s \<Longrightarrow> pcs s t = Idle \<Longrightarrow> reclaim_all (pool_of s) 0 = Some (pl, c) \<Longrightarrow>
    pool_step s (s\<lparr>pool_of := pl, pcs := (pcs s)(t := c)\<rparr>)"
| r_free: "\<not> halted s \<Longrightarrow> pcs s t = RFree k p \<Longrightarrow>
    pool_step s (s\<lparr>heap := (heap s)(p := None), pcs := (pcs s)(t := RRelock k)\<rparr>)"
| r_relock: "\<not> halted s \<Longrightarrow> pcs s t = RRelock k \<Longrightarrow> reclaim_all (pool_of s) k = Some (pl, c) \<Longrightarrow>
    pool_step s (s\<lparr>pool_of := pl, pcs := (pcs s)(t := c)\<rparr>)"

inductive reachable :: "sys \<Rightarrow> bool" where
  start: "reachable init_sys"
| step: "reachable s \<Longrightarrow> pool_step s t \<Longrightarrow> reachable t"

end
