(* ===== verification/PoolAlloc.thy ===== *)
theory PoolAlloc
  imports IntrSafePool
begin

text \<open>
  The sequential side of the interrupt-safe pool: the pointers it holds, the scan of
  \<open>Alloc\<close> over the groups and the loop that computes the size class.
\<close>

section \<open>Pointers of the pool, counted\<close>

definition grp_live :: "group \<Rightarrow> ptr list" where
  "grp_live g = live (group_contents g)"

definition all_live :: "group list \<Rightarrow> ptr list" where
  "all_live gs = concat (map grp_live gs)"

definition pool_ptrs :: "pool \<Rightarrow> ptr list" where
  "pool_ptrs pl = all_live (fGroups pl) @ grp_live (fReclaimGroup pl)"

definition groups_wf :: "group list \<Rightarrow> bool" where
  "groups_wf gs \<longleftrightarrow> length gs = kGroupCount \<and>
     (\<forall>i < kGroupCount. group_wf kGroupMaxItemCount (gs ! i))"

lemma groups_wfD [dest]:
  "groups_wf gs \<Longrightarrow> length gs = kGroupCount"
  "groups_wf gs \<Longrightarrow> i < kGroupCount \<Longrightarrow> group_wf kGroupMaxItemCount (gs ! i)"
  by (simp_all add: groups_wf_def)

lemma mset_distinct_split:
  assumes "mset xs = mset ys + mset zs" and "distinct xs"
  shows "distinct ys" and "distinct zs" and "set ys \<inter> set zs = {}" and "set xs = set ys \<union> set zs"
proof -
  from assms(1) have m: "mset xs = mset (ys @ zs)" by simp
  then have "distinct (ys @ zs)" using assms(2) mset_eq_imp_distinct_iff by blast
  then show "distinct ys" "distinct zs" "set ys \<inter> set zs = {}" by auto
  from mset_eq_setD [OF m] show "set xs = set ys \<union> set zs" by simp
qed

lemma mset_distinct_join:
  assumes "mset xs = mset ys + mset zs" and "distinct ys" "distinct zs" "set ys \<inter> set zs = {}"
  shows "distinct xs" and "set xs = set ys \<union> set zs"
proof -
  from assms(1) have m: "mset xs = mset (ys @ zs)" by simp
  moreover from assms(2-) have "distinct (ys @ zs)" by simp
  ultimately show "distinct xs" using mset_eq_imp_distinct_iff by blast
  from mset_eq_setD [OF m] show "set xs = set ys \<union> set zs" by simp
qed

lemma grp_live_not_null: "nullptr \<notin> set (grp_live g)"
  by (simp add: grp_live_def set_live)

lemma grp_live_init [simp]: "grp_live (init_group n) = []"
  by (simp add: grp_live_def)

lemma grp_live_push:
  "group_wf n g \<Longrightarrow> grp_count g < n \<Longrightarrow> grp_live (group_push g p) = grp_live g @ live [p]"
  by (simp add: grp_live_def group_push_contents)

lemma grp_live_alloc:
  "group_wf n g \<Longrightarrow> grp_live g = grp_live (snd (group_alloc g)) @ live [fst (group_alloc g)]"
  unfolding grp_live_def by (rule group_alloc_live)

lemma grp_live_alloc_mset:
  "group_wf n g \<Longrightarrow> mset (grp_live g) = mset (grp_live (snd (group_alloc g))) + mset (live [fst (group_alloc g)])"
  by (subst grp_live_alloc) simp_all

lemma all_live_update:
  assumes "i < length gs"
  shows "mset (all_live (gs[i := g])) + mset (grp_live (gs ! i)) = mset (all_live gs) + mset (grp_live g)"
proof -
  have "all_live gs = all_live (take i gs @ gs ! i # drop (Suc i) gs)"
    using id_take_nth_drop [OF assms] by simp
  moreover have "gs[i := g] = take i gs @ g # drop (Suc i) gs"
    by (rule upd_conv_take_nth_drop [OF assms])
  ultimately show ?thesis by (simp add: all_live_def)
qed

lemma set_all_live: "p \<in> set (all_live gs) \<longleftrightarrow> (\<exists>i < length gs. p \<in> set (grp_live (gs ! i)))"
  by (force simp: all_live_def in_set_conv_nth)

lemma groups_wf_update:
  "groups_wf gs \<Longrightarrow> i < kGroupCount \<Longrightarrow> group_wf kGroupMaxItemCount g \<Longrightarrow> groups_wf (gs[i := g])"
  by (auto simp: groups_wf_def nth_list_update)

lemma mset_swap_out: "a + l = g + l' \<Longrightarrow> l = l' + p \<Longrightarrow> g = a + (p :: 'a multiset)"
  by (metis add.assoc add.commute add_right_cancel)

lemma mset_swap_in: "a + l = g + l' \<Longrightarrow> l' = l + p \<Longrightarrow> a = g + (p :: 'a multiset)"
  by (metis add.assoc add.commute add_right_cancel)

lemma all_live_alloc:
  assumes "groups_wf gs" and "i < kGroupCount"
  shows "mset (all_live gs) =
         mset (all_live (gs[i := snd (group_alloc (gs ! i))])) + mset (live [fst (group_alloc (gs ! i))])"
    (is "_ = mset (all_live ?gs) + mset ?p")
proof -
  from assms have wf: "group_wf kGroupMaxItemCount (gs ! i)" and len: "i < length gs" by auto
  show ?thesis by (rule mset_swap_out [OF all_live_update [OF len] grp_live_alloc_mset [OF wf]])
qed

lemma all_live_push:
  assumes "groups_wf gs" and "i < kGroupCount" and "grp_count (gs ! i) < kGroupMaxItemCount"
  shows "mset (all_live (gs[i := group_push (gs ! i) p])) = mset (all_live gs) + mset (live [p])"
    (is "mset (all_live ?gs) = _")
proof -
  from assms have wf: "group_wf kGroupMaxItemCount (gs ! i)" and len: "i < length gs" by auto
  have "mset (grp_live (group_push (gs ! i) p)) = mset (grp_live (gs ! i)) + mset (live [p])"
    by (simp only: grp_live_push [OF wf assms(3)] mset_append)
  then show ?thesis by (rule mset_swap_in [OF all_live_update [OF len]])
qed

section \<open>The scan of Alloc\<close>

text \<open>What one \<open>group.Alloc()\<close> inside the array does, and then the whole scan.\<close>

definition scan_post :: "group list \<Rightarrow> nat \<Rightarrow> ptr \<Rightarrow> group list \<Rightarrow> bool" where
  "scan_post gs i p gs' \<longleftrightarrow>
     groups_wf gs' \<and>
     mset (all_live gs) = mset (all_live gs') + mset (live [p]) \<and>
     (\<forall>j < kGroupCount. set (grp_live (gs' ! j)) \<subseteq> set (grp_live (gs ! j))) \<and>
     (\<forall>j < kGroupCount. grp_count (gs' ! j) \<le> grp_count (gs ! j)) \<and>
     (p \<noteq> nullptr \<longrightarrow> (\<exists>j. i \<le> j \<and> j < kGroupCount \<and> p \<in> set (grp_live (gs ! j))))"

lemma scan_post_one:
  assumes wf: "groups_wf gs" and i: "i < kGroupCount"
  shows "scan_post gs i (fst (group_alloc (gs ! i))) (gs[i := snd (group_alloc (gs ! i))])"
proof -
  let ?p = "fst (group_alloc (gs ! i))" and ?g = "snd (group_alloc (gs ! i))"
  from wf i have g: "group_wf kGroupMaxItemCount (gs ! i)" and len: "i < length gs" by auto
  have l: "grp_live (gs ! i) = grp_live ?g @ live [?p]" by (rule grp_live_alloc [OF g])
  have "groups_wf (gs[i := ?g])" by (rule groups_wf_update [OF wf i group_alloc_wf [OF g]])
  moreover have "\<forall>j < kGroupCount. set (grp_live (gs[i := ?g] ! j)) \<subseteq> set (grp_live (gs ! j))"
    using l len by (auto simp: nth_list_update)
  moreover have "?p \<noteq> nullptr \<longrightarrow> ?p \<in> set (grp_live (gs ! i))" using l by simp
  moreover have "\<forall>j < kGroupCount. grp_count (gs[i := ?g] ! j) \<le> grp_count (gs ! j)"
    using len by (auto simp: nth_list_update group_alloc_def Let_def)
  ultimately show ?thesis
    using all_live_alloc [OF wf i] i unfolding scan_post_def by blast
qed

lemma scan_post_trans:
  assumes "scan_post gs i nullptr gs1" and "scan_post gs1 (i + 1) p gs2"
  shows "scan_post gs i p gs2"
  unfolding scan_post_def
proof (intro conjI)
  show "groups_wf gs2" using assms(2) by (simp add: scan_post_def)
  show "mset (all_live gs) = mset (all_live gs2) + mset (live [p])"
    using assms by (simp only: scan_post_def) simp
  show "\<forall>j < kGroupCount. set (grp_live (gs2 ! j)) \<subseteq> set (grp_live (gs ! j))"
    using assms unfolding scan_post_def by (meson subset_trans)
  show "\<forall>j < kGroupCount. grp_count (gs2 ! j) \<le> grp_count (gs ! j)"
    using assms unfolding scan_post_def by (meson le_trans)
  show "p \<noteq> nullptr \<longrightarrow> (\<exists>j. i \<le> j \<and> j < kGroupCount \<and> p \<in> set (grp_live (gs ! j)))"
    using assms unfolding scan_post_def by (meson add_leD1 subsetD)
qed

lemma alloc_scan_end: "\<not> i < kGroupCount \<Longrightarrow> alloc_scan gs i = (nullptr, gs)"
  by (subst alloc_scan.simps) simp

lemma alloc_scan_hit:
  "i < kGroupCount \<Longrightarrow> fst (group_alloc (gs ! i)) \<noteq> nullptr \<Longrightarrow>
     alloc_scan gs i = (fst (group_alloc (gs ! i)), gs[i := snd (group_alloc (gs ! i))])"
  by (subst alloc_scan.simps) (simp add: case_prod_beta)

lemma alloc_scan_next:
  "i < kGroupCount \<Longrightarrow> fst (group_alloc (gs ! i)) = nullptr \<Longrightarrow>
     alloc_scan gs i = alloc_scan (gs[i := snd (group_alloc (gs ! i))]) (i + 1)"
  by (subst alloc_scan.simps) (simp add: case_prod_beta)

lemma scan_post_none: "groups_wf gs \<Longrightarrow> scan_post gs i nullptr gs"
  by (simp add: scan_post_def)

lemma alloc_scan_correct: "groups_wf gs \<Longrightarrow> scan_post gs i (fst (alloc_scan gs i)) (snd (alloc_scan gs i))"
proof (induction gs i rule: alloc_scan.induct)
  case (1 gs i)
  let ?p = "fst (group_alloc (gs ! i))" and ?gs = "gs[i := snd (group_alloc (gs ! i))]"
  show ?case
  proof (cases "i < kGroupCount")
    case True
    have one: "scan_post gs i ?p ?gs" by (rule scan_post_one [OF "1.prems" True])
    show ?thesis
    proof (cases "?p = nullptr")
      case null: True
      from one have "groups_wf ?gs" by (simp only: scan_post_def)
      then have "scan_post ?gs (i + 1) (fst (alloc_scan ?gs (i + 1))) (snd (alloc_scan ?gs (i + 1)))"
        by (intro "1.IH" [OF True refl prod.collapse]) (use null in simp_all)
      with one show ?thesis unfolding alloc_scan_next [OF True null] null by (rule scan_post_trans)
    next
      case False
      show ?thesis unfolding alloc_scan_hit [OF True False] using one by (simp only: fst_conv snd_conv)
    qed
  next
    case False
    show ?thesis unfolding alloc_scan_end [OF False] using scan_post_none [OF "1.prems"] by (simp only: fst_conv snd_conv)
  qed
qed

section \<open>The size class\<close>

definition class_size :: "nat \<Rightarrow> nat" where
  "class_size k = 16 * 2 ^ k"

lemma unat_class_size: "k \<le> 59 \<Longrightarrow> unat (of_nat (class_size k) :: u64) = class_size k"
proof -
  assume "k \<le> 59"
  then have "(2::nat) ^ k \<le> 2 ^ 59" by (intro power_increasing) simp_all
  then show ?thesis by (intro unat_of_nat_lt) (simp add: class_size_def)
qed

lemma maintain_size_eq: "maintain_size i = of_nat (class_size i)"
  by (induction i) (simp_all add: class_size_def kMinSize_eq)

lemma unat_maintain_size: "i < kGroupCount \<Longrightarrow> unat (maintain_size i) = class_size i"
  by (simp add: maintain_size_eq unat_class_size kGroupCount_def)

lemma alloc_class_step:
  assumes "k \<le> 59"
  shows "alloc_class sz (of_nat k) (of_nat (class_size k)) =
    (if class_size k < unat sz then alloc_class sz (of_nat (Suc k)) (of_nat (class_size (Suc k)))
     else Some (of_nat k))"
proof -
  have "(of_nat (class_size k) :: u64) < sz \<longleftrightarrow> class_size k < unat sz"
    by (simp add: word_less_nat_alt unat_class_size [OF assms])
  moreover have "of_nat (class_size k) * 2 = (of_nat (class_size (Suc k)) :: u64)"
    by (simp add: class_size_def)
  moreover have "of_nat k + 1 = (of_nat (Suc k) :: u32)" by simp
  ultimately show ?thesis by (subst alloc_class.simps) (simp only: mult_ac)
qed

lemma alloc_class_finds:
  assumes "k \<le> 59" and "unat sz \<le> 2 ^ 63" and "\<forall>j < k. class_size j < unat sz"
  shows "\<exists>n. alloc_class sz (of_nat k) (of_nat (class_size k)) = Some (of_nat n) \<and> n \<le> 59 \<and>
    unat sz \<le> class_size n \<and> (\<forall>j < n. class_size j < unat sz)"
  using assms
proof (induction "59 - k" arbitrary: k)
  case 0
  then have "k = 59" by simp
  with "0.prems" alloc_class_step [of 59 sz] show ?case
    by (intro exI [of _ 59]) (simp add: class_size_def)
next
  case (Suc d)
  show ?case
  proof (cases "class_size k < unat sz")
    case True
    with Suc.prems have "\<forall>j < Suc k. class_size j < unat sz" by (auto simp: less_Suc_eq)
    with Suc.hyps Suc.prems True show ?thesis
      by (simp only: alloc_class_step if_True)
  next
    case False
    with Suc.prems show ?thesis by (intro exI [of _ k]) (simp add: alloc_class_step)
  qed
qed

lemma alloc_class_start: "alloc_class sz 0 kMinSize = alloc_class sz (of_nat 0) (of_nat (class_size 0))"
  by (simp add: kMinSize_eq class_size_def)

lemma alloc_class_bounded:
  assumes "unat sz \<le> 2 ^ 63"
  obtains n where "alloc_class sz 0 kMinSize = Some n" and "unat n \<le> 59"
    and "unat sz \<le> class_size (unat n)" and "\<forall>j < unat n. class_size j < unat sz"
proof -
  from alloc_class_finds [of 0 sz] assms obtain n where n:
    "alloc_class sz 0 kMinSize = Some (of_nat n)" "n \<le> 59" "unat sz \<le> class_size n"
    "\<forall>j < n. class_size j < unat sz" unfolding alloc_class_start by auto
  then have "unat (of_nat n :: u32) = n" by (intro unat_of_nat_lt) simp
  with n show ?thesis by (intro that [of "of_nat n"]) simp_all
qed

text \<open>Above \<open>2 ^ 63\<close> the doubled size wraps to 0 and stays there.\<close>

lemma alloc_class_diverges:
  assumes "2 ^ 63 < unat sz"
  shows "alloc_class sz 0 kMinSize = None"
proof (rule ccontr)
  let ?small = "\<lambda>g :: u64. g = 0 \<or> (\<exists>k \<le> 63. g = push_bit k 1)"
  assume "alloc_class sz 0 kMinSize \<noteq> None"
  then obtain r where r: "alloc_class sz 0 kMinSize = Some r" by blast
  have "?small kMinSize \<and> 2 ^ 63 < unat sz \<longrightarrow> False"
  proof (rule alloc_class.raw_induct [where P = "\<lambda>sz n g r. ?small g \<and> 2 ^ 63 < unat sz \<longrightarrow> False", OF _ r])
    fix f sz n g r
    assume IH: "\<And>sz n g r. f sz n g = Some r \<Longrightarrow> ?small g \<and> 2 ^ 63 < unat sz \<longrightarrow> False"
      and eq: "(if g < sz then f sz (n + 1) (g * 2) else Some n) = Some r"
    show "?small g \<and> 2 ^ 63 < unat sz \<longrightarrow> False"
    proof
      assume A: "?small g \<and> 2 ^ 63 < unat sz"
      have le: "unat g \<le> 2 ^ 63"
      proof (cases "g = 0")
        case False
        with A obtain k where k: "k \<le> 63" "g = push_bit k 1" by blast
        have "unat (push_bit k (1 :: u64)) = 2 ^ k"
          using k(1) by (simp add: push_bit_eq_mult unat_two_power)
        with k power_increasing [of k 63 "2::nat"] show ?thesis by simp
      qed simp
      with A eq have "f sz (n + 1) (g * 2) = Some r" by (simp add: word_less_nat_alt)
      from IH [OF this] A have "\<not> ?small (g * 2)" by blast
      moreover have "?small (g * 2)"
      proof (cases "g = 0")
        case False
        with A obtain k where k: "k \<le> 63" "g = push_bit k 1" by blast
        then show ?thesis
          by (cases "k = 63") (auto simp: push_bit_eq_mult intro!: exI [of _ "Suc k"])
      qed simp
      ultimately show False by blast
    qed
  qed
  moreover have "?small kMinSize" by (auto simp: kMinSize_def kMinSizePow2_def intro!: exI [of _ 4])
  ultimately show False using assms by blast
qed

end
