(* ===== verification/PoolThreads.thy ===== *)
theory PoolThreads
  imports PoolAlloc
begin

text \<open>
  The invariant of every interleaving of \<open>Alloc\<close>, \<open>Free\<close>, \<open>Maintain\<close> and \<open>ReclaimAll\<close>, and
  what follows from it: no store outside an array, one owner per block, blocks that are large
  enough, no thread stuck.
\<close>

section \<open>Ownership\<close>

text \<open>
  A block is in the pool (\<open>P\<close>), with the resource manager (\<open>H\<close>) or in the hands of one thread
  between two critical sections (\<open>C t\<close>). \<open>D\<close> are the blocks of the kernel heap in use.
\<close>

definition own :: "ptr list \<Rightarrow> ptr set \<Rightarrow> (nat \<Rightarrow> ptr set) \<Rightarrow> ptr set \<Rightarrow> bool" where
  "own P H C D \<longleftrightarrow> distinct P \<and> set P \<inter> H = {} \<and> (\<forall>t. C t \<inter> (set P \<union> H) = {}) \<and>
     (\<forall>t u. t \<noteq> u \<longrightarrow> C t \<inter> C u = {}) \<and> set P \<subseteq> D \<and> H \<subseteq> D \<and> (\<forall>t. C t \<subseteq> D) \<and> nullptr \<notin> D"

text \<open>\<open>live [p]\<close> is the block a possibly null pointer names.\<close>

lemma live_one: "set (live [p]) = (if p = nullptr then {} else {p})" "distinct (live [p])"
  by auto

lemma own_pop:
  assumes "own P H C D" and "mset P = mset P' + mset (live [p])"
  shows "distinct P'" and "set P = set P' \<union> set (live [p])" and "set P' \<inter> set (live [p]) = {}"
  using mset_distinct_split [OF assms(2)] assms(1) by (simp_all only: own_def)

lemma own_pop_held:
  assumes "own P H C D" and "mset P = mset P' + mset (live [p])" and "p \<noteq> nullptr"
  shows "own P' (insert p H) C D"
  using own_pop [OF assms(1,2)] assms(1,3) unfolding own_def live_one(1) by auto

lemma own_pop_carry:
  assumes "own P H C D" and "mset P = mset P' + mset (live [p])" and "C t = {}"
  shows "own P' H (C(t := set (live [p]))) D"
  using own_pop [OF assms(1,2)] assms(1,3) unfolding own_def live_one(1) by auto

lemma own_push:
  assumes "mset P' = mset P + mset (live [p])" and "own P H C D" and "p \<notin> set P"
  shows "distinct P'" and "set P' = set P \<union> set (live [p])"
  using mset_distinct_join [OF assms(1)] assms(2,3) live_one(2) [of p]
  by (auto simp: own_def live_one(1) simp del: live_simps split: if_splits)

lemma own_push_held:
  assumes "own P H C D" and "mset P' = mset P + mset (live [p])" and "p \<in> H \<or> p = nullptr"
  shows "own P' (H - {p}) C D"
proof -
  from assms(1,3) have "p \<notin> set P" by (auto simp: own_def)
  from own_push [OF assms(2,1) this] assms(1,3) show ?thesis
    unfolding own_def live_one(1) by (auto split: if_splits)
qed

lemma own_carried:
  assumes "own P H C D" and "C t = set (live [p])"
  shows "p \<notin> set P" and "p \<noteq> nullptr \<Longrightarrow> p \<in> D \<and> p \<notin> H" and "p \<noteq> nullptr \<Longrightarrow> u \<noteq> t \<Longrightarrow> p \<notin> C u"
proof -
  from assms have own: "C t \<inter> (set P \<union> H) = {}" "u \<noteq> t \<Longrightarrow> C t \<inter> C u = {}" "C t \<subseteq> D"
    "set P \<subseteq> D" "nullptr \<notin> D" unfolding own_def by blast+
  show "p \<notin> set P" "p \<noteq> nullptr \<Longrightarrow> p \<in> D \<and> p \<notin> H"
    "p \<noteq> nullptr \<Longrightarrow> u \<noteq> t \<Longrightarrow> p \<notin> C u"
    using own assms(2) unfolding live_one(1) by (auto split: if_splits)
qed

lemma own_push_carry:
  assumes "own P H C D" and "mset P' = mset P + mset (live [p])" and "C t = set (live [p])"
  shows "own P' H (C(t := {})) D"
  using own_push [OF assms(2,1) own_carried(1) [OF assms(1,3)]] assms(1)
    own_carried(2,3) [OF assms(1,3)] unfolding own_def live_one(1) by (auto split: if_splits)

lemma own_free_carry:
  assumes "own P H C D" and "C t = set (live [p])"
  shows "own P H (C(t := {})) (D - {p})"
  using own_carried [OF assms] assms(1) unfolding own_def by (cases "p = nullptr") auto

lemma own_new_carry:
  assumes "own P H C D" and "p = nullptr \<or> p \<notin> D" and "C t = {}"
  shows "own P H (C(t := set (live [p]))) (D \<union> set (live [p]))"
  using assms unfolding own_def live_one(1) by auto

lemma own_new_held:
  "own P H C D \<Longrightarrow> p \<notin> D \<Longrightarrow> p \<noteq> nullptr \<Longrightarrow> own P (insert p H) C (insert p D)"
  unfolding own_def by auto

lemma own_free_held: "own P H C D \<Longrightarrow> p \<in> H \<Longrightarrow> own P (H - {p}) C (D - {p})"
  unfolding own_def by auto

section \<open>The thread that maintains\<close>

fun maintaining :: "pc \<Rightarrow> bool" where
  "maintaining (MFree p) = True"
| "maintaining MRelock = True"
| "maintaining (MCalloc i) = True"
| "maintaining (MStore i p) = True"
| "maintaining _ = False"

fun carried :: "pc \<Rightarrow> ptr list" where
  "carried (MFree p) = live [p]"
| "carried (MStore i p) = live [p]"
| "carried (RFree k p) = live [p]"
| "carried _ = []"

text \<open>\<open>fLevel\<close> counts the maintaining threads, and there is at most one.\<close>

definition level_ok :: "int \<Rightarrow> (nat \<Rightarrow> bool) \<Rightarrow> bool" where
  "level_ok l m \<longleftrightarrow> (\<forall>t u. m t \<longrightarrow> m u \<longrightarrow> t = u) \<and> l = (if \<exists>t. m t then 1 else 0)"

lemma level_none: "level_ok l m \<Longrightarrow> \<not> 0 < l \<Longrightarrow> \<not> m t"
  by (auto simp: level_ok_def split: if_splits)

lemma level_enter: "level_ok l m \<Longrightarrow> \<not> 0 < l \<Longrightarrow> level_ok (l + 1) (m(t := True))"
proof -
  assume *: "level_ok l m" "\<not> 0 < l"
  then have "\<forall>u. \<not> m u" by (blast dest: level_none)
  with *(1) show "level_ok (l + 1) (m(t := True))" by (simp add: level_ok_def)
qed

lemma level_leave: "level_ok l m \<Longrightarrow> m t \<Longrightarrow> level_ok (l - 1) (m(t := False))"
  by (auto simp: level_ok_def)

section \<open>What a locked piece does\<close>

definition shape :: "pool \<Rightarrow> bool" where
  "shape pl \<longleftrightarrow> groups_wf (fGroups pl) \<and> group_wf kReclaimMaxItemCount (fReclaimGroup pl)"

definition shrinks :: "pool \<Rightarrow> pool \<Rightarrow> bool" where
  "shrinks pl pl' \<longleftrightarrow> (\<forall>j < kGroupCount.
     set (grp_live (fGroups pl' ! j)) \<subseteq> set (grp_live (fGroups pl ! j)) \<and>
     grp_count (fGroups pl' ! j) \<le> grp_count (fGroups pl ! j))"

text \<open>A thread that is about to store into group \<open>i\<close> finds room there.\<close>

fun pc_ok :: "pool \<Rightarrow> pc \<Rightarrow> bool" where
  "pc_ok pl (MCalloc i) = (i < kGroupCount \<and> grp_count (fGroups pl ! i) < kGroupMaxItemCount)"
| "pc_ok pl (MStore i p) = (i < kGroupCount \<and> grp_count (fGroups pl ! i) < kGroupMaxItemCount)"
| "pc_ok pl _ = True"

lemma pc_ok_shrinks: "pc_ok pl c \<Longrightarrow> shrinks pl pl' \<Longrightarrow> pc_ok pl' c"
  by (cases c) (auto simp: shrinks_def intro: le_less_trans)

lemma shrinks_refl: "fGroups pl' = fGroups pl \<Longrightarrow> shrinks pl pl'"
  by (simp add: shrinks_def)

text \<open>A piece that ends with the thread at \<open>c\<close>: it took at most the block the thread now
  carries out of the pool.\<close>

definition piece_post :: "pool \<Rightarrow> pool \<Rightarrow> pc \<Rightarrow> bool" where
  "piece_post pl pl' c \<longleftrightarrow> shape pl' \<and> shrinks pl pl' \<and> pc_ok pl' c \<and>
     mset (pool_ptrs pl) = mset (pool_ptrs pl') + mset (carried c) \<and>
     (\<forall>i p. c \<noteq> MStore i p)"

definition refill_post :: "pool \<Rightarrow> pool \<Rightarrow> pc \<Rightarrow> bool" where
  "refill_post pl pl' c \<longleftrightarrow>
     (\<exists>j. c = MCalloc j \<and> j < kGroupCount \<and> grp_count (fGroups pl ! j) < kGroupMaxItemCount \<and> pl' = pl) \<or>
     (c = Idle \<and> pl' = pl\<lparr>fLevel := fLevel pl - 1\<rparr>)"

lemma maintain_refill_post: "refill_post pl (fst (maintain_refill pl i)) (snd (maintain_refill pl i))"
proof (induction pl i rule: maintain_refill.induct)
  case (1 pl i)
  then show ?case
    by (subst (1 2) maintain_refill.simps) (auto simp: refill_post_def)
qed

lemma refill_post_piece:
  assumes "refill_post pl pl' c" and "shape pl"
  shows "piece_post pl pl' c" and "fLevel pl' = fLevel pl - (if maintaining c then 0 else 1)"
    and "maintaining c \<or> c = Idle"
  using assms by (auto simp: refill_post_def piece_post_def shape_def shrinks_def pool_ptrs_def)

text \<open>Popping the reclaim group.\<close>

lemma pop_reclaim_piece:
  assumes "shape pl"
  shows "shape (pl\<lparr>fReclaimGroup := snd (group_alloc (fReclaimGroup pl))\<rparr>)"
    and "mset (pool_ptrs pl) = mset (pool_ptrs (pl\<lparr>fReclaimGroup := snd (group_alloc (fReclaimGroup pl))\<rparr>))
           + mset (live [fst (group_alloc (fReclaimGroup pl))])"
proof -
  from assms have wf: "group_wf kReclaimMaxItemCount (fReclaimGroup pl)" by (simp add: shape_def)
  from assms group_alloc_wf [OF wf] show "shape (pl\<lparr>fReclaimGroup := snd (group_alloc (fReclaimGroup pl))\<rparr>)"
    by (simp add: shape_def)
  show "mset (pool_ptrs pl) = mset (pool_ptrs (pl\<lparr>fReclaimGroup := snd (group_alloc (fReclaimGroup pl))\<rparr>))
           + mset (live [fst (group_alloc (fReclaimGroup pl))])"
    unfolding pool_ptrs_def by (simp add: grp_live_alloc_mset [OF wf] del: live_simps)
qed

lemma maintain_reclaim_post:
  assumes "shape pl" and "maintain_reclaim pl = Some (pl', c)"
  shows "piece_post pl pl' c" and "fLevel pl' = fLevel pl - (if maintaining c then 0 else 1)"
    and "maintaining c \<or> c = Idle"
proof -
  let ?a = "group_alloc (fReclaimGroup pl)"
  have cases: "(pl', c) = maintain_refill pl 0 \<or> pl' = pl\<lparr>fReclaimGroup := snd ?a\<rparr> \<and> c = MFree (fst ?a)"
    using assms(2) by (auto simp: maintain_reclaim_def Let_def case_prod_beta split: if_splits)
  then have *: "piece_post pl pl' c \<and> fLevel pl' = fLevel pl - (if maintaining c then 0 else 1)
      \<and> (maintaining c \<or> c = Idle)"
  proof
    assume "(pl', c) = maintain_refill pl 0"
    then show ?thesis using refill_post_piece [OF _ assms(1)] maintain_refill_post [of pl 0]
      by (metis fst_conv snd_conv)
  next
    assume r: "pl' = pl\<lparr>fReclaimGroup := snd ?a\<rparr> \<and> c = MFree (fst ?a)"
    then have "piece_post pl pl' c"
      unfolding piece_post_def using pop_reclaim_piece [OF assms(1)] by (simp add: shrinks_refl del: live_simps)
    with r show ?thesis by simp
  qed
  then show "piece_post pl pl' c" "fLevel pl' = fLevel pl - (if maintaining c then 0 else 1)"
    "maintaining c \<or> c = Idle" by blast+
qed

text \<open>\<open>panic("IntrSafePool: overflowed")\<close> is never reached.\<close>

lemma maintain_reclaim_total: "shape pl \<Longrightarrow> maintain_reclaim pl \<noteq> None"
  by (auto simp: maintain_reclaim_def Let_def shape_def group_wf_def case_prod_beta)

lemma pop_group_piece:
  assumes "shape pl" and "i < kGroupCount"
  shows "piece_post pl (pl\<lparr>fGroups := (fGroups pl)[i := snd (group_alloc (fGroups pl ! i))]\<rparr>)
           (RFree k (fst (group_alloc (fGroups pl ! i))))"
proof -
  from assms(1) have wf: "groups_wf (fGroups pl)" by (simp add: shape_def)
  from scan_post_one [OF wf assms(2)] assms(1) show ?thesis
    by (simp add: piece_post_def shape_def shrinks_def scan_post_def pool_ptrs_def del: live_simps)
qed

lemma reclaim_all_post:
  assumes "shape pl"
  shows "\<exists>pl' c. reclaim_all pl k = Some (pl', c) \<and> piece_post pl pl' c \<and> fLevel pl' = fLevel pl
    \<and> (c = Idle \<or> (\<exists>j p. c = RFree j p))"
  using assms
proof (induction pl k rule: reclaim_all.induct)
  case (1 pl k)
  have wf: "grp_count (fReclaimGroup pl) \<le> kReclaimMaxItemCount"
    "\<And>i. i < kGroupCount \<Longrightarrow> grp_count (fGroups pl ! i) \<le> kGroupMaxItemCount"
    using "1.prems" by (auto simp: shape_def groups_wf_def group_wf_def)
  show ?case
  proof (cases "k = 0")
    case True
    then show ?thesis
      using "1.IH"(1) [OF _ refl] "1.prems" wf(1) pop_reclaim_piece [OF "1.prems"]
      by (subst reclaim_all.simps) (auto simp: Let_def case_prod_beta piece_post_def shrinks_refl simp del: live_simps)
  next
    case False
    show ?thesis
    proof (cases "k \<le> kGroupCount")
      case True
      with False have k: "k - 1 < kGroupCount" by simp
      show ?thesis
        using "1.IH"(2) [OF False True refl] "1.prems" wf(2) [OF k] pop_group_piece [OF "1.prems" k, of k] False True
        by (subst reclaim_all.simps) (auto simp: Let_def case_prod_beta simp del: live_simps)
    next
      case nomore: False
      with False "1.prems" show ?thesis
        by (subst reclaim_all.simps) (simp add: piece_post_def shrinks_refl)
    qed
  qed
qed

lemma pool_alloc_returned:
  assumes "shape pl" and "pool_alloc pl sz = (Returned p, pl')"
  obtains n j where "alloc_class sz 0 kMinSize = Some n" "unat n \<le> j" "j < kGroupCount"
    "p \<in> set (grp_live (fGroups pl ! j))"
    "p \<noteq> nullptr" "shape pl'" "shrinks pl pl'" "fLevel pl' = fLevel pl"
    "mset (pool_ptrs pl) = mset (pool_ptrs pl') + mset (live [p])"
proof -
  from assms(2) obtain n where n: "alloc_class sz 0 kMinSize = Some n"
    by (auto simp: pool_alloc_def Let_def split: option.splits)
  let ?r = "alloc_scan (fGroups pl) (unat n)"
  from assms(2) n have r: "p = fst ?r" "p \<noteq> nullptr" "pl' = pl\<lparr>fGroups := snd ?r\<rparr>"
    by (auto simp: pool_alloc_def Let_def case_prod_beta split: if_splits)
  have post: "scan_post (fGroups pl) (unat n) p (snd ?r)"
    using alloc_scan_correct [of "fGroups pl" "unat n"] assms(1) r(1) by (simp add: shape_def)
  then obtain j where "unat n \<le> j" "j < kGroupCount" "p \<in> set (grp_live (fGroups pl ! j))"
    using r(2) unfolding scan_post_def by blast
  moreover from post assms(1) r(3) have "shape pl'" "shrinks pl pl'"
    "mset (pool_ptrs pl) = mset (pool_ptrs pl') + mset (live [p])"
    by (simp_all add: shape_def shrinks_def scan_post_def pool_ptrs_def del: live_simps)
  ultimately show ?thesis using n r by (intro that [of n j]) simp_all
qed

lemma pool_free_post:
  assumes "shape pl" and "pool_free pl p = Some pl'"
  shows "shape pl'" and "fGroups pl' = fGroups pl" and "fLevel pl' = fLevel pl"
    and "mset (pool_ptrs pl') = mset (pool_ptrs pl) + mset (live [p])"
proof -
  let ?g = "fReclaimGroup pl"
  from assms(2) have room: "grp_count ?g < kReclaimMaxItemCount"
    and pl': "pl' = pl\<lparr>fReclaimGroup := group_push ?g p\<rparr>"
    by (auto simp: pool_free_def group_free_def Let_def split: if_splits)
  from assms(1) have wf: "group_wf kReclaimMaxItemCount ?g" by (simp add: shape_def)
  show "shape pl'" "fGroups pl' = fGroups pl" "fLevel pl' = fLevel pl"
    using assms(1) pl' group_push_wf [OF wf room] by (simp_all add: shape_def)
  show "mset (pool_ptrs pl') = mset (pool_ptrs pl) + mset (live [p])"
    by (simp add: pl' pool_ptrs_def grp_live_push [OF wf room] del: live_simps)
qed

lemma maintain_store_post:
  assumes "shape pl" and "pc_ok pl (MStore i p)" and "maintain_store pl i p = (pl', c)"
  shows "shape pl'" and "pc_ok pl' c" and "carried c = []" and "\<And>i p. c \<noteq> MStore i p"
    and "fLevel pl' = fLevel pl - (if maintaining c then 0 else 1)"
    and "mset (pool_ptrs pl') = mset (pool_ptrs pl) + mset (live [p])"
    and "j < kGroupCount \<Longrightarrow> set (grp_live (fGroups pl' ! j)) \<subseteq>
           set (grp_live (fGroups pl ! j)) \<union> (if j = i then set (live [p]) else {})"
proof -
  let ?gs = "(fGroups pl)[i := group_push (fGroups pl ! i) p]"
  let ?pl = "pl\<lparr>fGroups := ?gs\<rparr>"
  from assms(1,2) have i: "i < kGroupCount" "grp_count (fGroups pl ! i) < kGroupMaxItemCount"
    and wf: "groups_wf (fGroups pl)" and g: "group_wf kGroupMaxItemCount (fGroups pl ! i)"
    by (auto simp: shape_def)
  have shape: "shape ?pl" using assms(1) groups_wf_update [OF wf i(1) group_push_wf [OF g i(2)]]
    by (simp add: shape_def)
  have refill: "refill_post ?pl pl' c"
    using maintain_refill_post [of ?pl i] assms(3) by (simp add: maintain_store_def)
  then show "carried c = []" "\<And>i p. c \<noteq> MStore i p" by (auto simp: refill_post_def)
  from refill_post_piece [OF refill shape] show "shape pl'" "pc_ok pl' c"
    "fLevel pl' = fLevel pl - (if maintaining c then 0 else 1)"
    by (simp_all add: piece_post_def)
  from refill have same: "fGroups pl' = ?gs" "fReclaimGroup pl' = fReclaimGroup pl"
    by (auto simp: refill_post_def)
  with all_live_push [OF wf i] show "mset (pool_ptrs pl') = mset (pool_ptrs pl) + mset (live [p])"
    by (simp add: pool_ptrs_def del: live_simps)
  show "j < kGroupCount \<Longrightarrow> set (grp_live (fGroups pl' ! j)) \<subseteq>
         set (grp_live (fGroups pl ! j)) \<union> (if j = i then set (live [p]) else {})"
    using wf by (auto simp: same nth_list_update grp_live_push [OF g i(2)] simp del: live_simps)
qed

section \<open>The invariant of the system\<close>

definition carriers :: "sys \<Rightarrow> nat \<Rightarrow> ptr set" where
  "carriers s t = set (carried (pcs s t))"

definition sized :: "group list \<Rightarrow> (nat \<Rightarrow> pc) \<Rightarrow> (ptr \<Rightarrow> nat option) \<Rightarrow> bool" where
  "sized gs P h \<longleftrightarrow>
     (\<forall>i < kGroupCount. \<forall>p \<in> set (grp_live (gs ! i)). h p = Some (class_size i)) \<and>
     (\<forall>t i p. P t = MStore i p \<longrightarrow> p \<noteq> nullptr \<longrightarrow> h p = Some (class_size i))"

lemma sized_heap:
  assumes "sized gs P h" and "length gs = kGroupCount"
    and "\<And>q. q \<in> set (all_live gs) \<or> (\<exists>t. q \<in> set (carried (P t))) \<Longrightarrow> h' q = h q"
  shows "sized gs P h'"
  unfolding sized_def
proof (intro conjI allI impI ballI)
  show "h' p = Some (class_size i)" if "i < kGroupCount" "p \<in> set (grp_live (gs ! i))" for i p
  proof -
    have "p \<in> set (all_live gs)" using that assms(2) by (auto simp: set_all_live)
    then have "h' p = h p" using assms(3) by blast
    with that assms(1) show ?thesis by (simp add: sized_def)
  qed
  show "h' p = Some (class_size i)" if "P t = MStore i p" "p \<noteq> nullptr" for t i p
  proof -
    have "p \<in> set (carried (P t))" using that by simp
    then have "h' p = h p" using assms(3) by blast
    with that assms(1) show ?thesis by (auto simp: sized_def)
  qed
qed

lemma sized_pc: "sized gs P h \<Longrightarrow> (\<And>i p. c \<noteq> MStore i p) \<Longrightarrow> sized gs (P(t := c)) h"
  by (simp add: sized_def)

lemma sized_shrinks:
  "sized (fGroups pl) P h \<Longrightarrow> shrinks pl pl' \<Longrightarrow> sized (fGroups pl') P h"
  unfolding sized_def shrinks_def by (simp add: subset_iff)

definition sys_inv :: "sys \<Rightarrow> bool" where
  "sys_inv s \<longleftrightarrow> shape (pool_of s) \<and> (\<forall>t. pc_ok (pool_of s) (pcs s t)) \<and>
     level_ok (fLevel (pool_of s)) (\<lambda>t. maintaining (pcs s t)) \<and>
     own (pool_ptrs (pool_of s)) (held s) (carriers s) (dom (heap s)) \<and>
     sized (fGroups (pool_of s)) (pcs s) (heap s)"

lemma sys_invD:
  assumes "sys_inv s"
  shows "shape (pool_of s)" and "pc_ok (pool_of s) (pcs s t)"
    and "level_ok (fLevel (pool_of s)) (\<lambda>t. maintaining (pcs s t))"
    and "own (pool_ptrs (pool_of s)) (held s) (carriers s) (dom (heap s))"
    and "sized (fGroups (pool_of s)) (pcs s) (heap s)" and "length (fGroups (pool_of s)) = kGroupCount"
  using assms by (simp_all add: sys_inv_def shape_def groups_wf_def)

lemma carriers_upd: "carriers (s\<lparr>pool_of := pl, pcs := (pcs s)(t := c)\<rparr>) = (carriers s)(t := set (carried c))"
  "carriers (s\<lparr>heap := h, pcs := (pcs s)(t := c)\<rparr>) = (carriers s)(t := set (carried c))"
  by (simp_all add: carriers_def fun_eq_iff)

lemma maintaining_upd:
  "(\<lambda>u. maintaining (if u = t then c else f u)) = (\<lambda>u. maintaining (f u))(t := maintaining c)"
  by auto

lemma carried_live: "\<exists>p. carried c = live [p]"
  by (cases c) (auto intro: exI [of _ nullptr])

text \<open>A piece that starts with the thread empty-handed keeps the invariant.\<close>

lemma piece_inv:
  assumes inv: "sys_inv s" and post: "piece_post (pool_of s) pl c" and "carried (pcs s t) = []"
    and level: "level_ok (fLevel pl) ((\<lambda>u. maintaining (pcs s u))(t := maintaining c))"
  shows "sys_inv (s\<lparr>pool_of := pl, pcs := (pcs s)(t := c)\<rparr>)"
  unfolding sys_inv_def
proof (intro conjI)
  let ?s = "s\<lparr>pool_of := pl, pcs := (pcs s)(t := c)\<rparr>"
  note D = sys_invD [OF inv]
  from post have p: "shape pl" "shrinks (pool_of s) pl" "pc_ok pl c" "\<And>i p. c \<noteq> MStore i p"
    "mset (pool_ptrs (pool_of s)) = mset (pool_ptrs pl) + mset (carried c)"
    by (auto simp only: piece_post_def)
  show "shape (pool_of ?s)" using p(1) by simp
  show "\<forall>u. pc_ok (pool_of ?s) (pcs ?s u)" using p(3) pc_ok_shrinks [OF D(2) p(2)] by simp
  show "level_ok (fLevel (pool_of ?s)) (\<lambda>u. maintaining (pcs ?s u))"
    using level by (simp add: fun_upd_def if_distrib)
  show "sized (fGroups (pool_of ?s)) (pcs ?s) (heap ?s)"
    using sized_pc [OF sized_shrinks [OF D(5) p(2)] p(4)] by simp
  have "carriers s t = {}" using assms(3) by (simp add: carriers_def)
  then have "own (pool_ptrs pl) (held s) ((carriers s)(t := set (carried c))) (dom (heap s))"
    using own_pop_carry [OF D(4), of "pool_ptrs pl" _ t] p(5) carried_live [of c] by auto
  then show "own (pool_ptrs (pool_of ?s)) (held ?s) (carriers ?s) (dom (heap ?s))"
    by (simp add: carriers_upd)
qed

lemma inv_alloc:
  assumes inv: "sys_inv s" and "pool_alloc (pool_of s) sz = (Returned p, pl)"
  shows "sys_inv (s\<lparr>pool_of := pl, held := insert p (held s)\<rparr>)"
proof -
  note D = sys_invD [OF inv]
  from pool_alloc_returned [OF D(1) assms(2)]
  have p: "p \<noteq> nullptr" "shape pl" "shrinks (pool_of s) pl" "fLevel pl = fLevel (pool_of s)"
    "mset (pool_ptrs (pool_of s)) = mset (pool_ptrs pl) + mset (live [p])" by blast+
  let ?s = "s\<lparr>pool_of := pl, held := insert p (held s)\<rparr>"
  have "sized (fGroups pl) (pcs s) (heap s)" by (rule sized_shrinks [OF D(5) p(3)])
  moreover have "own (pool_ptrs pl) (insert p (held s)) (carriers s) (dom (heap s))"
    by (rule own_pop_held [OF D(4) p(5,1)])
  moreover have "carriers ?s = carriers s" by (simp add: carriers_def fun_eq_iff)
  ultimately show ?thesis using p D(3) pc_ok_shrinks [OF D(2) p(3)] by (simp add: sys_inv_def)
qed

lemma inv_free:
  assumes inv: "sys_inv s" and "p \<in> held s \<or> p = nullptr" and "pool_free (pool_of s) p = Some pl"
  shows "sys_inv (s\<lparr>pool_of := pl, held := held s - {p}\<rparr>)"
proof -
  note D = sys_invD [OF inv]
  note P = pool_free_post [OF D(1) assms(3)]
  let ?s = "s\<lparr>pool_of := pl, held := held s - {p}\<rparr>"
  have "pc_ok pl (pcs s t)" for t by (rule pc_ok_shrinks [OF D(2) shrinks_refl [OF P(2)]])
  moreover have "sized (fGroups pl) (pcs s) (heap s)" using D(5) P(2) by simp
  moreover have "own (pool_ptrs pl) (held s - {p}) (carriers s) (dom (heap s))"
    by (rule own_push_held [OF D(4) P(4) assms(2)])
  moreover have "carriers ?s = carriers s" by (simp add: carriers_def fun_eq_iff)
  ultimately show ?thesis using P(1,3) D(3) by (simp add: sys_inv_def)
qed

lemma pool_or_carried:
  "q \<in> set (all_live (fGroups (pool_of s))) \<or> (\<exists>t. q \<in> set (carried (pcs s t))) \<Longrightarrow>
     q \<in> set (pool_ptrs (pool_of s)) \<or> (\<exists>t. q \<in> carriers s t)"
  by (auto simp: pool_ptrs_def carriers_def)

lemma inv_heap_calloc:
  assumes inv: "sys_inv s" and "fresh_or_null s p" and "p \<noteq> nullptr"
  shows "sys_inv (s\<lparr>heap := heap_alloc (heap s) p n, held := insert p (held s)\<rparr>)"
proof -
  note D = sys_invD [OF inv]
  let ?s = "s\<lparr>heap := heap_alloc (heap s) p n, held := insert p (held s)\<rparr>"
  from assms have p: "p \<notin> dom (heap s)" by (auto simp: fresh_or_null_def)
  have same: "heap_alloc (heap s) p n q = heap s q"
    if "q \<in> set (all_live (fGroups (pool_of s))) \<or> (\<exists>t. q \<in> set (carried (pcs s t)))" for q
    using pool_or_carried [OF that] p D(4) by (auto simp: own_def heap_alloc_def)
  have "sized (fGroups (pool_of s)) (pcs s) (heap_alloc (heap s) p n)"
    by (rule sized_heap [OF D(5,6) same])
  moreover have "own (pool_ptrs (pool_of s)) (insert p (held s)) (carriers s) (insert p (dom (heap s)))"
    by (rule own_new_held [OF D(4) p assms(3)])
  moreover have "carriers ?s = carriers s" by (simp add: carriers_def fun_eq_iff)
  ultimately show ?thesis using D assms(3) by (simp add: sys_inv_def heap_alloc_def)
qed

lemma inv_heap_free:
  assumes inv: "sys_inv s" and "p \<in> held s"
  shows "sys_inv (s\<lparr>heap := (heap s)(p := None), held := held s - {p}\<rparr>)"
proof -
  note D = sys_invD [OF inv]
  let ?s = "s\<lparr>heap := (heap s)(p := None), held := held s - {p}\<rparr>"
  have same: "((heap s)(p := None)) q = heap s q"
    if "q \<in> set (all_live (fGroups (pool_of s))) \<or> (\<exists>t. q \<in> set (carried (pcs s t)))" for q
    using pool_or_carried [OF that] assms(2) D(4) by (auto simp: own_def)
  have "sized (fGroups (pool_of s)) (pcs s) ((heap s)(p := None))"
    by (rule sized_heap [OF D(5,6) same])
  moreover have "own (pool_ptrs (pool_of s)) (held s - {p}) (carriers s) (dom (heap s) - {p})"
    by (rule own_free_held [OF D(4) assms(2)])
  moreover have "carriers ?s = carriers s" by (simp add: carriers_def fun_eq_iff)
  ultimately show ?thesis using D by (simp add: sys_inv_def)
qed

text \<open>\<open>free\<close> outside the lock, by \<open>Maintain\<close> or by \<open>ReclaimAll\<close>.\<close>

lemma inv_free_carried:
  assumes inv: "sys_inv s" and "carried (pcs s t) = live [p]" and "carried c = []"
    and "\<And>pl. pc_ok pl c" and "maintaining c = maintaining (pcs s t)" and "\<And>i p. c \<noteq> MStore i p"
    and "\<And>i p. pcs s t \<noteq> MStore i p"
  shows "sys_inv (s\<lparr>heap := (heap s)(p := None), pcs := (pcs s)(t := c)\<rparr>)"
proof -
  note D = sys_invD [OF inv]
  let ?s = "s\<lparr>heap := (heap s)(p := None), pcs := (pcs s)(t := c)\<rparr>"
  have c: "carriers s t = set (live [p])" by (simp only: carriers_def assms(2))
  note O = own_carried [OF D(4) c]
  have "own (pool_ptrs (pool_of s)) (held s) ((carriers s)(t := {})) (dom (heap s) - {p})"
    by (rule own_free_carry [OF D(4) c])
  moreover have "sized (fGroups (pool_of s)) ((pcs s)(t := c)) ((heap s)(p := None))"
  proof (rule sized_heap [OF sized_pc [OF D(5) assms(6)] D(6)])
    fix q
    assume q: "q \<in> set (all_live (fGroups (pool_of s))) \<or> (\<exists>u. q \<in> set (carried (((pcs s)(t := c)) u)))"
    then have "q \<in> set (pool_ptrs (pool_of s)) \<or> (\<exists>u. u \<noteq> t \<and> q \<in> carriers s u)"
      using assms(3) by (auto simp: pool_ptrs_def carriers_def split: if_splits)
    then have "q \<noteq> p \<or> q = nullptr" using O(1,3) by blast
    moreover have "nullptr \<notin> dom (heap s)" using D(4) by (simp add: own_def)
    ultimately show "((heap s)(p := None)) q = heap s q" by auto
  qed
  moreover have "level_ok (fLevel (pool_of s)) (\<lambda>u. maintaining (pcs ?s u))"
    using D(3) by (simp add: maintaining_upd assms(5) fun_upd_idem [of "\<lambda>u. maintaining (pcs s u)"])
  ultimately show ?thesis
    using D(1,2) assms(3,4) by (simp add: sys_inv_def carriers_upd)
qed

lemma inv_m_calloc:
  assumes inv: "sys_inv s" and pc: "pcs s t = MCalloc i" and fr: "fresh_or_null s p"
  shows "sys_inv (s\<lparr>heap := heap_alloc (heap s) p (unat (maintain_size i)), pcs := (pcs s)(t := MStore i p)\<rparr>)"
proof -
  note D = sys_invD [OF inv]
  let ?h = "heap_alloc (heap s) p (unat (maintain_size i))"
  from D(2) [of t] pc have i: "i < kGroupCount" "pc_ok (pool_of s) (MStore i p)" by simp_all
  have null: "heap s nullptr = None" using D(4) by (auto simp: own_def)
  from fr null have p: "p \<notin> dom (heap s)" by (auto simp: fresh_or_null_def)
  have c: "carriers s t = {}" using pc by (simp add: carriers_def)
  have dom: "dom ?h = dom (heap s) \<union> set (live [p])" by (simp add: heap_alloc_def)
  have own: "own (pool_ptrs (pool_of s)) (held s) ((carriers s)(t := set (live [p]))) (dom ?h)"
    unfolding dom by (rule own_new_carry [OF D(4) _ c]) (use p in simp)
  have "?h q = heap s q"
    if "q \<in> set (all_live (fGroups (pool_of s))) \<or> (\<exists>t. q \<in> set (carried (pcs s t)))" for q
    using pool_or_carried [OF that] p D(4) by (auto simp: own_def heap_alloc_def)
  then have sized: "sized (fGroups (pool_of s)) (pcs s) ?h" by (rule sized_heap [OF D(5,6)])
  moreover have "p \<noteq> nullptr \<Longrightarrow> ?h p = Some (class_size i)"
    by (simp add: heap_alloc_def unat_maintain_size [OF i(1)])
  ultimately have "sized (fGroups (pool_of s)) ((pcs s)(t := MStore i p)) ?h"
    by (auto simp: sized_def)
  with own D(1,2,3) i(2) pc show ?thesis
    by (simp add: sys_inv_def carriers_upd maintaining_upd fun_upd_idem [of "\<lambda>u. maintaining (pcs s u)"])
qed

lemma inv_m_store:
  assumes inv: "sys_inv s" and pc: "pcs s t = MStore i p" and st: "maintain_store (pool_of s) i p = (pl, c)"
  shows "sys_inv (s\<lparr>pool_of := pl, pcs := (pcs s)(t := c)\<rparr>)"
proof -
  note D = sys_invD [OF inv]
  from D(2) [of t] pc have ok: "pc_ok (pool_of s) (MStore i p)" by simp
  note P = maintain_store_post [OF D(1) ok st]
  have c: "carriers s t = set (live [p])" using pc by (simp add: carriers_def)
  have m: "maintaining (pcs s t)" using pc by simp
  have own: "own (pool_ptrs pl) (held s) ((carriers s)(t := {})) (dom (heap s))"
    by (rule own_push_carry [OF D(4) P(6) c])
  have others: "pc_ok pl (pcs s u)" if "u \<noteq> t" for u
  proof -
    have "\<not> maintaining (pcs s u)" using D(3) m that by (auto simp: level_ok_def)
    then show ?thesis by (cases "pcs s u") auto
  qed
  have level: "level_ok (fLevel pl) ((\<lambda>u. maintaining (pcs s u))(t := maintaining c))"
    using level_leave [OF D(3) m] D(3) P(5) m
    by (cases "maintaining c") (simp_all add: fun_upd_idem [of "\<lambda>u. maintaining (pcs s u)"])
  have "heap s q = Some (class_size j)" if j: "j < kGroupCount" "q \<in> set (grp_live (fGroups pl ! j))" for j q
  proof -
    from P(7) [OF j(1)] j(2) have "q \<in> set (grp_live (fGroups (pool_of s) ! j)) \<or> j = i \<and> q = p \<and> p \<noteq> nullptr"
      unfolding live_one(1) by (auto split: if_splits)
    then show ?thesis using D(5) pc j(1) unfolding sized_def by blast
  qed
  with D(5) have "sized (fGroups pl) (pcs s) (heap s)" by (simp add: sized_def)
  then have "sized (fGroups pl) ((pcs s)(t := c)) (heap s)" by (rule sized_pc [OF _ P(4)])
  with own level P(1-3) others show ?thesis
    by (simp add: sys_inv_def carriers_upd maintaining_upd)
qed

lemma inv_m_enter:
  assumes inv: "sys_inv s" and pc: "pcs s t = Idle" and en: "maintain_enter (pool_of s) = Some (pl, c)"
  shows "sys_inv (s\<lparr>pool_of := pl, pcs := (pcs s)(t := c)\<rparr>)"
proof (cases "fLevel (pool_of s) > 0")
  case True
  with en have "pl = pool_of s" "c = Idle" by (simp_all add: maintain_enter_def Let_def)
  with inv pc show ?thesis by (simp add: fun_upd_idem)
next
  case False
  note D = sys_invD [OF inv]
  let ?pl = "(pool_of s)\<lparr>fLevel := fLevel (pool_of s) + 1\<rparr>"
  from en False have en': "maintain_reclaim ?pl = Some (pl, c)" by (simp add: maintain_enter_def Let_def)
  have "shape ?pl" using D(1) by (simp add: shape_def)
  note P = maintain_reclaim_post [OF this en']
  have post: "piece_post (pool_of s) pl c"
    using P(1) by (simp add: piece_post_def shrinks_def pool_ptrs_def)
  have m: "\<not> maintaining (pcs s t)" using pc by simp
  have "level_ok (fLevel pl) ((\<lambda>u. maintaining (pcs s u))(t := maintaining c))"
    using level_enter [OF D(3) False] D(3) P(2) m
    by (cases "maintaining c") (simp_all add: fun_upd_idem [of "\<lambda>u. maintaining (pcs s u)"])
  then show ?thesis using pc by (intro piece_inv [OF inv post]) simp_all
qed

lemma inv_m_relock:
  assumes inv: "sys_inv s" and pc: "pcs s t = MRelock" and re: "maintain_reclaim (pool_of s) = Some (pl, c)"
  shows "sys_inv (s\<lparr>pool_of := pl, pcs := (pcs s)(t := c)\<rparr>)"
proof -
  note D = sys_invD [OF inv] and P = maintain_reclaim_post [OF sys_invD(1) [OF inv] re]
  have m: "maintaining (pcs s t)" using pc by simp
  have "level_ok (fLevel pl) ((\<lambda>u. maintaining (pcs s u))(t := maintaining c))"
    using level_leave [OF D(3) m] D(3) P(2) m
    by (cases "maintaining c") (simp_all add: fun_upd_idem [of "\<lambda>u. maintaining (pcs s u)"])
  then show ?thesis using pc by (intro piece_inv [OF inv P(1)]) simp_all
qed

lemma inv_reclaim_all:
  assumes inv: "sys_inv s" and pc: "pcs s t = Idle \<or> pcs s t = RRelock k"
    and re: "reclaim_all (pool_of s) k = Some (pl, c)"
  shows "sys_inv (s\<lparr>pool_of := pl, pcs := (pcs s)(t := c)\<rparr>)"
proof -
  note D = sys_invD [OF inv]
  from reclaim_all_post [OF D(1), of k] re have P: "piece_post (pool_of s) pl c"
    "fLevel pl = fLevel (pool_of s)" "\<not> maintaining c" by auto
  have "\<not> maintaining (pcs s t)" using pc by auto
  then have "level_ok (fLevel pl) ((\<lambda>u. maintaining (pcs s u))(t := maintaining c))"
    using D(3) P(2,3) by (simp add: fun_upd_idem [of "\<lambda>u. maintaining (pcs s u)"])
  then show ?thesis using pc by (intro piece_inv [OF inv P(1)]) auto
qed

text \<open>Every step that does not halt the machine keeps the invariant.\<close>

lemma pool_step_inv: "pool_step s s' \<Longrightarrow> sys_inv s \<Longrightarrow> \<not> halted s' \<Longrightarrow> sys_inv s'"
proof (induction rule: pool_step.induct)
  case (alloc s sz p pl) then show ?case by (intro inv_alloc) simp_all
next
  case (free s p pl) then show ?case by (intro inv_free) simp_all
next
  case (heap_calloc s p n) then show ?case by (intro inv_heap_calloc) simp_all
next
  case (heap_free s p) then show ?case by (intro inv_heap_free) simp_all
next
  case (m_enter s t pl c) then show ?case by (intro inv_m_enter) simp_all
next
  case (m_free s t p) then show ?case by (intro inv_free_carried) simp_all
next
  case (m_relock s t pl c) then show ?case by (intro inv_m_relock) simp_all
next
  case (m_calloc s t i p) then show ?case by (intro inv_m_calloc) simp_all
next
  case (m_store s t i p pl c) then show ?case by (intro inv_m_store) simp_all
next
  case (r_enter s t pl c) then show ?case by (intro inv_reclaim_all [where k = 0]) simp_all
next
  case (r_free s t k p) then show ?case by (intro inv_free_carried) simp_all
next
  case (r_relock s t k pl c) then show ?case by (intro inv_reclaim_all [where k = k]) simp_all
qed simp_all

lemma pool_step_running: "pool_step s s' \<Longrightarrow> \<not> halted s"
  by (induction rule: pool_step.induct) simp_all

lemma init_sys_inv: "sys_inv init_sys"
  by (auto simp: sys_inv_def init_sys_def init_pool_def shape_def groups_wf_def init_group_wf
      level_ok_def own_def pool_ptrs_def all_live_def carriers_def sized_def)

interpretation pool: invariant_system "\<lambda>s. s = init_sys" pool_step reachable "\<lambda>s. halted s \<or> sys_inv s"
proof
  show "I s" if "reachable s" "\<And>s. s = init_sys \<Longrightarrow> I s" "\<And>s t. reachable s \<Longrightarrow> I s \<Longrightarrow> pool_step s t \<Longrightarrow> I t" for I s
    using that(1) by (induction rule: reachable.induct) (blast intro: that(2,3))+
qed (auto intro: reachable.intros pool_step_inv init_sys_inv dest: pool_step_running)

lemma reachable_inv: "reachable s \<Longrightarrow> \<not> halted s \<Longrightarrow> sys_inv s"
  using pool.inv_reach by blast

section \<open>Properties\<close>

text \<open>
  C1: No store outside an array: whatever the threads do, a thread that is about to execute
  \<open>group.items[group.count] = ptr\<close> in \<open>Maintain\<close> finds a free slot, although the lock was given
  up around \<open>calloc\<close> since the count was tested; and it is the only thread in \<open>Maintain\<close>.
\<close>

theorem pool_store_in_bounds:
  assumes "reachable s" and "\<not> halted s" and "pcs s t = MStore i p"
  shows "i < kGroupCount \<and> grp_count (fGroups (pool_of s) ! i) < kGroupMaxItemCount \<and>
         length (grp_items (fGroups (pool_of s) ! i)) = kGroupMaxItemCount \<and>
         (\<forall>u. maintaining (pcs s u) \<longrightarrow> u = t)"
proof -
  note D = sys_invD [OF reachable_inv [OF assms(1,2)]]
  from D(2) [of t] assms(3) have i: "i < kGroupCount"
    "grp_count (fGroups (pool_of s) ! i) < kGroupMaxItemCount" by simp_all
  moreover from D(1) i(1) have "length (grp_items (fGroups (pool_of s) ! i)) = kGroupMaxItemCount"
    by (auto simp: shape_def groups_wf_def group_wf_def)
  moreover have "maintaining (pcs s t)" using assms(3) by simp
  ultimately show ?thesis using D(3) unfolding level_ok_def by blast
qed

text \<open>
  C2: One owner per block: in every reachable state the non-null pointers of all groups are
  distinct, none of them is held by the resource manager, a block a thread carries between two
  critical sections is nowhere else, and all of them are blocks of the heap in use. So no block
  is handed out twice and none is freed while it can still be handed out.
\<close>

theorem pool_single_owner:
  assumes "reachable s" and "\<not> halted s"
  shows "distinct (pool_ptrs (pool_of s)) \<and> set (pool_ptrs (pool_of s)) \<inter> held s = {} \<and>
         (\<forall>t. carriers s t \<inter> (set (pool_ptrs (pool_of s)) \<union> held s) = {}) \<and>
         (\<forall>t u. t \<noteq> u \<longrightarrow> carriers s t \<inter> carriers s u = {}) \<and>
         set (pool_ptrs (pool_of s)) \<union> held s \<union> (\<Union>t. carriers s t) \<subseteq> dom (heap s)"
  using sys_invD(4) [OF reachable_inv [OF assms]] unfolding own_def by blast


lemma pool_alloc_outcome:
  "fst (pool_alloc pl sz) = (case alloc_class sz 0 kMinSize of None \<Rightarrow> Diverges
     | Some n \<Rightarrow> if fst (alloc_scan (fGroups pl) (unat n)) \<noteq> nullptr
         then Returned (fst (alloc_scan (fGroups pl) (unat n))) else Panicked)"
  by (auto simp: pool_alloc_def Let_def case_prod_beta split: option.splits)

text \<open>
  C4: When \<open>Alloc\<close> returns at all: its size-class loop ends exactly for requests of at most
  \<open>2 ^ 63\<close> bytes. Above that the doubled \<open>groupSize\<close> wraps to 0 and the loop runs forever with
  the spinlock held.
\<close>

theorem pool_alloc_diverges_iff: "fst (pool_alloc pl sz) = Diverges \<longleftrightarrow> 2 ^ 63 < unat sz"
proof (cases "2 ^ 63 < unat sz")
  case True
  then show ?thesis by (simp only: pool_alloc_outcome alloc_class_diverges option.case simp_thms)
next
  case False
  then obtain n where "alloc_class sz 0 kMinSize = Some n"
    by (metis alloc_class_bounded not_le)
  with False show ?thesis by (simp only: pool_alloc_outcome option.case) (simp split: if_splits)
qed

text \<open>
  Requests of more than 128 bytes cannot be served: no group holds blocks that large, so
  \<open>Alloc\<close> panics whatever the pool contains.
\<close>

theorem pool_alloc_too_large:
  assumes "128 < unat sz" and "unat sz \<le> 2 ^ 63"
  shows "fst (pool_alloc pl sz) = Panicked"
proof -
  from assms(2) obtain n where n: "alloc_class sz 0 kMinSize = Some n" "unat sz \<le> class_size (unat n)"
    by (rule alloc_class_bounded)
  have "\<not> unat n < kGroupCount"
  proof
    assume "unat n < kGroupCount"
    then have "class_size (unat n) \<le> class_size 3"
      unfolding class_size_def kGroupCount_def by (intro mult_left_mono power_increasing) simp_all
    with n(2) assms(1) show False by (simp add: class_size_def)
  qed
  then show ?thesis by (simp add: pool_alloc_outcome n(1) alloc_scan_end)
qed

theorem pool_alloc_too_large_witness: "fst (pool_alloc init_pool 129) = Panicked"
  by (rule pool_alloc_too_large) simp_all

text \<open>
  C5: No thread gets stuck between two critical sections: unless the machine is halted, every
  thread inside \<open>Maintain\<close> or \<open>ReclaimAll\<close> can take its next step, so the \<open>panic\<close> of an
  overflowed group in \<open>Group::ReclaimAll\<close> is never reached.
\<close>

theorem pool_thread_progress:
  assumes "reachable s" and "\<not> halted s" and "pcs s t \<noteq> Idle"
  shows "\<exists>s'. pool_step s s' \<and> pcs s' t \<noteq> pcs s t \<and> (\<forall>u. u \<noteq> t \<longrightarrow> pcs s' u = pcs s u) \<and> \<not> halted s'"
proof -
  note D = sys_invD [OF reachable_inv [OF assms(1,2)]]
  have moves: ?thesis if "pool_step s s'" "pcs s' = (pcs s)(t := c)" "c \<noteq> pcs s t" "\<not> halted s'" for s' c
    using that by (intro exI [of _ s']) simp
  show ?thesis
  proof (cases "pcs s t")
    case (MFree p)
    from moves [OF pool_step.m_free [OF assms(2) MFree]] MFree assms(2) show ?thesis by simp
  next
    case MRelock
    from maintain_reclaim_total [OF D(1)] obtain pl c where r: "maintain_reclaim (pool_of s) = Some (pl, c)" by auto
    then have "c \<noteq> MRelock" using maintain_refill_post [of "pool_of s" 0]
      by (auto simp: maintain_reclaim_def Let_def case_prod_beta refill_post_def split: if_splits)
    with moves [OF pool_step.m_relock [OF assms(2) MRelock r]] MRelock assms(2) show ?thesis by simp
  next
    case (MCalloc i)
    have "fresh_or_null s nullptr" by (simp add: fresh_or_null_def)
    from moves [OF pool_step.m_calloc [OF assms(2) MCalloc this]] MCalloc assms(2) show ?thesis by simp
  next
    case (MStore i p)
    obtain pl c where r: "maintain_store (pool_of s) i p = (pl, c)" by (cases "maintain_store (pool_of s) i p")
    from D(2) [of t] MStore have "pc_ok (pool_of s) (MStore i p)" by simp
    from maintain_store_post(4) [OF D(1) this r] have "c \<noteq> MStore i p" .
    with moves [OF pool_step.m_store [OF assms(2) MStore r]] MStore assms(2) show ?thesis by simp
  next
    case (RFree k p)
    from moves [OF pool_step.r_free [OF assms(2) RFree]] RFree assms(2) show ?thesis by simp
  next
    case (RRelock k)
    from reclaim_all_post [OF D(1), of k] obtain pl c where
      r: "reclaim_all (pool_of s) k = Some (pl, c)" "c = Idle \<or> (\<exists>j p. c = RFree j p)" by blast
    from r(2) have "c \<noteq> RRelock k" by auto
    with moves [OF pool_step.r_relock [OF assms(2) RRelock r(1)]] RRelock assms(2) show ?thesis by simp
  qed (use assms(3) in simp)
qed

text \<open>A run for the witnesses: thread 0 enters \<open>Maintain\<close> on the empty pool, gets block 1 for
  group 0 and stores it; the resource manager then asks for 10 bytes.\<close>

definition ex_calloc :: sys where
  "ex_calloc = init_sys\<lparr>pool_of := init_pool\<lparr>fLevel := 1\<rparr>, pcs := (\<lambda>_. Idle)(0 := MCalloc 0)\<rparr>"

definition ex_store :: sys where
  "ex_store = ex_calloc\<lparr>heap := [1 \<mapsto> 16], pcs := (\<lambda>_. Idle)(0 := MStore 0 1)\<rparr>"

definition ex_stored_pool :: pool where
  "ex_stored_pool = init_pool\<lparr>fLevel := 1, fGroups := (fGroups init_pool)[0 := group_push (init_group 16) 1]\<rparr>"

definition ex_stored :: sys where
  "ex_stored = ex_store\<lparr>pool_of := ex_stored_pool, pcs := (\<lambda>_. Idle)(0 := MCalloc 0)\<rparr>"

lemmas ex_defs = ex_calloc_def ex_store_def ex_stored_def ex_stored_pool_def init_sys_def init_pool_def
  init_group_def pool_consts

lemma ex_not_halted: "\<not> halted ex_store" "\<not> halted ex_stored"
  by (simp_all add: ex_defs)

lemma ex_store_pc: "pcs ex_store 0 = MStore 0 1"
  by (simp add: ex_store_def)

lemma ex_store_reachable: "reachable ex_store"
proof -
  have e: "maintain_enter init_pool = Some (init_pool\<lparr>fLevel := 1\<rparr>, MCalloc 0)"
    by (simp add: maintain_enter_def maintain_reclaim_def maintain_refill.simps init_pool_def
        init_group_def pool_consts)
  have "pool_step init_sys ex_calloc"
    using pool_step.m_enter [of init_sys 0, OF _ _ ] e by (simp add: ex_calloc_def init_sys_def)
  moreover have "pool_step ex_calloc ex_store"
    using pool_step.m_calloc [of ex_calloc 0 0 1]
    by (simp add: ex_store_def ex_calloc_def init_sys_def fresh_or_null_def heap_alloc_def kMinSize_eq)
  ultimately show ?thesis by (blast intro: reachable.intros)
qed

lemma ex_stored_reachable: "reachable ex_stored"
proof -
  have "maintain_store (pool_of ex_store) 0 1 = (ex_stored_pool, MCalloc 0)"
    by (simp add: maintain_store_def maintain_refill.simps ex_defs group_push_def)
  then have "pool_step ex_store ex_stored"
    using pool_step.m_store [of ex_store 0 0 1] ex_not_halted ex_store_pc
    by (simp add: ex_stored_def ex_store_def)
  with ex_store_reachable show ?thesis by (rule reachable.step)
qed

theorem pool_store_in_bounds_witness:
  "pcs ex_store 0 = MStore 0 1 \<and> grp_count (fGroups (pool_of ex_store) ! 0) < kGroupMaxItemCount"
  using pool_store_in_bounds [OF ex_store_reachable ex_not_halted(1) ex_store_pc] ex_store_pc by blast

theorem pool_thread_progress_witness: "\<exists>s'. pool_step ex_store s' \<and> pcs s' 0 \<noteq> MStore 0 1"
  using pool_thread_progress [OF ex_store_reachable ex_not_halted(1), of 0] ex_store_pc by auto

theorem pool_single_owner_witness:
  "reachable ex_stored \<and> distinct (pool_ptrs (pool_of ex_stored))"
  using pool_single_owner [OF ex_stored_reachable ex_not_halted(2)] ex_stored_reachable by blast

lemma ex_alloc: "fst (pool_alloc (pool_of ex_stored) 10) = Returned 1"
  by (simp add: pool_alloc_def alloc_class.simps kMinSize_eq alloc_scan.simps group_alloc_def Let_def
      ex_defs group_push_def)


end
