(* ===== verification/RefCount.thy ===== *)
theory RefCount
  imports Prelude
begin

text \<open>
  The contract of a counted reference. Two components keep one: the open count of a GPU
  (\<open>NvHaikuDevice::AcquireRef\<close> and \<open>ReleaseRef\<close>) and the kernel object counter \<open>nvidia_kref\<close>.
  The client promises to use an object only while it holds a reference (\<open>keeps_ref\<close>); the
  provider promises that the object is up exactly as long as references are left.
\<close>

datatype ref_op = Get | Put

fun ref_balance :: "ref_op list \<Rightarrow> int" where
  "ref_balance [] = 0"
| "ref_balance (Get # ops) = 1 + ref_balance ops"
| "ref_balance (Put # ops) = ref_balance ops - 1"

text \<open>Every operation is made while at least one of the \<open>n\<close> references is held.\<close>

fun keeps_ref :: "int \<Rightarrow> ref_op list \<Rightarrow> bool" where
  "keeps_ref n [] = True"
| "keeps_ref n (Get # ops) = (0 < n \<and> keeps_ref (n + 1) ops)"
| "keeps_ref n (Put # ops) = (0 < n \<and> keeps_ref (n - 1) ops)"

fun ref_run :: "('s \<Rightarrow> 's) \<Rightarrow> ('s \<Rightarrow> 's) \<Rightarrow> ref_op list \<Rightarrow> 's \<Rightarrow> 's" where
  "ref_run get put [] s = s"
| "ref_run get put (Get # ops) s = ref_run get put ops (get s)"
| "ref_run get put (Put # ops) s = ref_run get put ops (put s)"

lemma ref_balance_append [simp]: "ref_balance (xs @ ys) = ref_balance xs + ref_balance ys"
  by (induction xs rule: ref_balance.induct) simp_all

lemma ref_run_append [simp]:
  "ref_run get put (xs @ ys) s = ref_run get put ys (ref_run get put xs s)"
  by (induction get put xs s rule: ref_run.induct) simp_all

lemma keeps_ref_append [simp]:
  "keeps_ref n (xs @ ys) \<longleftrightarrow> keeps_ref n xs \<and> keeps_ref (n + ref_balance xs) ys"
  by (induction n xs rule: keeps_ref.induct) (simp_all add: algebra_simps)

lemma keeps_ref_balance: "keeps_ref n ops \<Longrightarrow> 0 \<le> n \<Longrightarrow> 0 \<le> n + ref_balance ops"
proof (induction n ops rule: keeps_ref.induct)
  case (2 n ops)
  then have "0 \<le> (n + 1) + ref_balance ops" by simp
  then show ?case by simp
next
  case (3 n ops)
  then have "0 \<le> (n - 1) + ref_balance ops" by simp
  then show ?case by simp
qed simp

locale ref_counted =
  fixes cnt :: "'s \<Rightarrow> int"
    and up :: "'s \<Rightarrow> bool"
    and get :: "'s \<Rightarrow> 's"
    and put :: "'s \<Rightarrow> 's"
  assumes cnt_get: "0 < cnt s \<Longrightarrow> cnt (get s) = cnt s + 1"
    and up_get: "0 < cnt s \<Longrightarrow> up (get s) = up s"
    and cnt_put: "0 < cnt s \<Longrightarrow> cnt (put s) = cnt s - 1"
    and up_put: "0 < cnt s \<Longrightarrow> up (put s) = (up s \<and> 1 < cnt s)"
begin

lemma cnt_run: "keeps_ref (cnt s) ops \<Longrightarrow> cnt (ref_run get put ops s) = cnt s + ref_balance ops"
proof (induction ops arbitrary: s)
  case (Cons op ops)
  then show ?case by (cases op) (simp_all add: cnt_get cnt_put)
qed simp

lemma up_run:
  "keeps_ref (cnt s) ops \<Longrightarrow> up s = (0 < cnt s) \<Longrightarrow>
     up (ref_run get put ops s) = (0 < cnt (ref_run get put ops s))"
proof (induction ops arbitrary: s)
  case (Cons op ops)
  then show ?case by (cases op) (simp_all add: cnt_get up_get cnt_put up_put)
qed simp

text \<open>As long as the references are balanced the object stays up to the last \<open>put\<close>, and the
  last one takes it down.\<close>

lemma up_until_last_put:
  assumes "keeps_ref (cnt s) ops" "up s = (0 < cnt s)"
  shows "up (ref_run get put ops s) = (0 < cnt s + ref_balance ops)"
  using up_run [OF assms] cnt_run [OF assms(1)] by simp

end

end
