(* ===== verification/Device.thy ===== *)
theory Device
  imports RefCount
begin

unbundle bit_operations_syntax

text \<open>
  One GPU: \<open>nvidia_gsp/nvidia/Device.{h,cpp}\<close>. The first half models \<open>Probe\<close> and \<open>Init\<close>, which
  turn the PCI configuration of a function into the resource manager's \<open>nv_state_t\<close>; the second
  half models \<open>Start\<close>, \<open>Stop\<close> and the open count that guards them, first for one caller at a
  time and then as a step relation over the threads that race on the atomic counter. The
  resource manager (\<open>rm_*\<close>, \<open>NV_GPU_*\<close>) is not part of the sources: what it answers and its
  constants are arguments.
\<close>

section \<open>PCI configuration\<close>

record pci_info =
  vendor_id :: u16
  device_id :: u16
  bus :: u8
  slot :: u8
  func :: u8
  class_base :: u8
  class_sub :: u8
  subsystem_id :: u16
  subsystem_vendor_id :: u16
  base_registers :: "u32 list"
  base_register_sizes :: "u32 list"
  base_register_flags :: "u8 list"

definition PCI_VENDOR_ID_NVIDIA :: u16 where "PCI_VENDOR_ID_NVIDIA = 0x10DE"

text \<open>Class codes, the address type field of a BAR and the bits of the command register, as the
  PCI standard and Haiku's \<open>PCI.h\<close> give them.\<close>

definition PCI_display :: u8 where "PCI_display = 3"
definition PCI_vga :: u8 where "PCI_vga = 0"
definition PCI_3d :: u8 where "PCI_3d = 2"
definition PCI_address_type :: u8 where "PCI_address_type = 0x06"
definition PCI_address_type_64 :: u8 where "PCI_address_type_64 = 0x04"
definition PCI_command_io :: u32 where "PCI_command_io = 1"
definition PCI_command_memory :: u32 where "PCI_command_memory = 2"
definition PCI_command_master :: u32 where "PCI_command_master = 4"

record nv_bar =
  bar_offset :: u32
  cpu_address :: u64
  bar_size :: u64

text \<open>Constants of the resource manager's headers.\<close>

record nv_consts =
  NV_GPU_NUM_BARS :: nat
  NV_GPU_BAR_INDEX_REGS :: nat
  NV_GPU_BAR_INDEX_FB :: nat
  NVRM_PCICFG_BAR_OFFSET :: "nat \<Rightarrow> u32"

text \<open>The part of \<open>nv_state_t\<close> that the driver fills. \<open>regs\<close> and \<open>fb\<close> point into \<open>bars\<close> and are
  kept as indices; \<open>handle\<close> points to a copy of the function's \<open>pci_info\<close>.\<close>

record nv_state =
  nv_domain :: u32
  nv_bus :: u8
  nv_slot :: u8
  nv_function :: u8
  nv_vendor_id :: u16
  nv_device_id :: u16
  nv_subsystem_id :: u16
  nv_subsystem_vendor :: u16
  nv_handle :: "pci_info option"
  nv_regs :: nat
  nv_fb :: nat
  bars :: "nv_bar list"
  gpu_id :: u32
  nv_flags :: u32
  interrupt_line :: u32

section \<open>Base address registers\<close>

definition is_bar64 :: "pci_info \<Rightarrow> nat \<Rightarrow> bool" where
  "is_bar64 p b \<longleftrightarrow> base_register_flags p ! b AND PCI_address_type = PCI_address_type_64"

text \<open>The loop over the six registers in \<open>NvHaikuDevice::Init\<close>. A 64-bit register takes the next
  one as its upper half; in the last place there is no next one and the code reads past the
  arrays, for which the model has no value.\<close>

function init_bars :: "nv_consts \<Rightarrow> pci_info \<Rightarrow> nat \<Rightarrow> nat \<Rightarrow> nv_bar list \<Rightarrow> nv_bar list option" where
  "init_bars c p b curNvBar bs =
     (if b < 6
      then let curBar = b;
               physAdr = (ucast (base_registers p ! b) :: u64);
               sz = (ucast (base_register_sizes p ! b) :: u64);
               store = (\<lambda>physAdr sz.
                 if sz > 0 \<and> curNvBar < NV_GPU_NUM_BARS c
                 then (curNvBar + 1, bs[curNvBar := \<lparr>bar_offset = NVRM_PCICFG_BAR_OFFSET c curBar,
                                           cpu_address = physAdr, bar_size = sz\<rparr>])
                 else (curNvBar, bs))
           in if is_bar64 p b
              then if b + 1 < 6
                   then let physAdr = physAdr OR push_bit 32 (ucast (base_registers p ! (b + 1)));
                            sz = sz OR push_bit 32 (ucast (base_register_sizes p ! (b + 1)))
                        in init_bars c p (b + 2) (fst (store physAdr sz)) (snd (store physAdr sz))
                   else None
              else init_bars c p (b + 1) (fst (store physAdr sz)) (snd (store physAdr sz))
      else Some bs)"
  by auto
termination by (relation "measure (\<lambda>(c, p, b, cur, bs). 6 - b)") auto

declare init_bars.simps [simp del]

text \<open>The logical BARs a configuration describes: a register that is not the upper half of the one
  before it starts a BAR.\<close>

fun upper_half :: "pci_info \<Rightarrow> nat \<Rightarrow> bool" where
  "upper_half p 0 = False"
| "upper_half p (Suc b) = (\<not> upper_half p b \<and> is_bar64 p b)"

definition logical_bar :: "nv_consts \<Rightarrow> pci_info \<Rightarrow> nat \<Rightarrow> nv_bar" where
  "logical_bar c p b =
     (let wide = (\<lambda>rs. (ucast (rs ! b) :: u64)
                   OR (if is_bar64 p b then push_bit 32 (ucast (rs ! (b + 1))) else 0))
      in \<lparr>bar_offset = NVRM_PCICFG_BAR_OFFSET c b, cpu_address = wide (base_registers p),
          bar_size = wide (base_register_sizes p)\<rparr>)"

text \<open>The BARs from register \<open>b\<close> on that are not empty.\<close>

definition logical_bars :: "nv_consts \<Rightarrow> pci_info \<Rightarrow> nat \<Rightarrow> nv_bar list" where
  "logical_bars c p b =
     filter (\<lambda>x. 0 < bar_size x)
       (map (logical_bar c p) (filter (\<lambda>b. \<not> upper_half p b) [b..<6]))"

definition bars_in_range :: "pci_info \<Rightarrow> bool" where
  "bars_in_range p \<longleftrightarrow> \<not> (\<not> upper_half p 5 \<and> is_bar64 p 5)"

lemma logical_bars_step:
  assumes "b < 6" "\<not> upper_half p b"
  shows "logical_bars c p b =
    (if 0 < bar_size (logical_bar c p b) then [logical_bar c p b] else []) @
    logical_bars c p (if is_bar64 p b then b + 2 else b + 1)"
proof (cases "is_bar64 p b \<and> b + 1 < 6")
  case True
  with assms have "[b..<6] = b # Suc b # [b + 2..<6]" by (simp add: upt_rec)
  with assms True show ?thesis by (simp add: logical_bars_def)
next
  case False
  with assms have "[b..<6] = b # [Suc b..<6]" by (simp add: upt_rec)
  moreover have "is_bar64 p b \<Longrightarrow> [Suc b..<6] = []" using False by simp
  ultimately show ?thesis using assms by (auto simp: logical_bars_def)
qed

lemma init_bars_spec:
  "b \<le> 6 \<Longrightarrow> \<not> upper_half p b \<Longrightarrow> length bs = NV_GPU_NUM_BARS c \<Longrightarrow> cur \<le> NV_GPU_NUM_BARS c \<Longrightarrow>
     bars_in_range p \<Longrightarrow>
     init_bars c p b cur bs =
       Some (take (NV_GPU_NUM_BARS c) (take cur bs @ logical_bars c p b)
             @ drop (cur + length (logical_bars c p b)) bs)"
proof (induction "6 - b" arbitrary: b cur bs rule: less_induct)
  case (less b cur bs)
  show ?case
  proof (cases "b < 6")
    case False
    with less.prems show ?thesis
      by (subst init_bars.simps) (simp add: logical_bars_def)
  next
    case b: True
    let ?l = "logical_bar c p b" and ?b' = "if is_bar64 p b then b + 2 else b + 1"
    have in_range: "is_bar64 p b \<Longrightarrow> b + 1 < 6"
    proof -
      assume "is_bar64 p b"
      with less.prems b have "b \<noteq> 5" by (auto simp: bars_in_range_def)
      with b show "b + 1 < 6" by simp
    qed
    define put where "put = (if 0 < bar_size ?l \<and> cur < NV_GPU_NUM_BARS c
                             then (cur + 1, bs[cur := ?l]) else (cur, bs))"
    have step: "init_bars c p b cur bs = init_bars c p ?b' (fst put) (snd put)"
      using b in_range
      by (subst init_bars.simps) (auto simp: put_def logical_bar_def Let_def)
    have "\<not> upper_half p ?b'" using less.prems(2) by simp
    moreover have "?b' \<le> 6" using b in_range by auto
    moreover have "length (snd put) = NV_GPU_NUM_BARS c" "fst put \<le> NV_GPU_NUM_BARS c"
      using less.prems by (auto simp: put_def)
    ultimately have "init_bars c p b cur bs =
       Some (take (NV_GPU_NUM_BARS c) (take (fst put) (snd put) @ logical_bars c p ?b')
             @ drop (fst put + length (logical_bars c p ?b')) (snd put))"
      unfolding step using b less.prems(5) by (intro less.hyps) auto
    then show ?thesis
      unfolding logical_bars_step [OF b less.prems(2)]
      using less.prems by (auto simp: put_def take_Suc_conv_app_nth)
  qed
qed

text \<open>
  C15: \<open>Init\<close> hands the resource manager the logical BARs of the device: for every configuration
  in which the last register does not claim a missing upper half, the array \<open>bars\<close> starts with
  the non-empty BARs in register order, each with its 64-bit address and size put together from
  one or two registers and the configuration offset of its first register, cut off at the number
  of entries the resource manager has.
\<close>

theorem init_bars_logical:
  assumes "bars_in_range p" "length bs = NV_GPU_NUM_BARS c"
  shows "init_bars c p 0 0 bs =
    Some (take (NV_GPU_NUM_BARS c) (logical_bars c p 0) @ drop (length (logical_bars c p 0)) bs)"
  using init_bars_spec [of 0 p bs c 0] assms by simp

definition ex_pci :: pci_info where
  "ex_pci = \<lparr>vendor_id = 0x10DE, device_id = 0x2204, bus = 1, slot = 0, func = 0,
     class_base = 3, class_sub = 0, subsystem_id = 0, subsystem_vendor_id = 0,
     base_registers = [0xF6000000, 0xE0000000, 0x10, 0xF0000000, 0, 0xE000],
     base_register_sizes = [0x1000000, 0x10000000, 0, 0x2000000, 0, 0x80],
     base_register_flags = [0, 4, 0, 4, 0, 1]\<rparr>"

definition ex_consts :: nv_consts where
  "ex_consts = \<lparr>NV_GPU_NUM_BARS = 3, NV_GPU_BAR_INDEX_REGS = 0, NV_GPU_BAR_INDEX_FB = 1,
     NVRM_PCICFG_BAR_OFFSET = (\<lambda>i. 0x10 + 4 * of_nat i)\<rparr>"

lemma init_bars_logical_witness:
  "init_bars ex_consts ex_pci 0 0 (replicate 3 \<lparr>bar_offset = 0, cpu_address = 0, bar_size = 0\<rparr>) =
     Some (take 3 (logical_bars ex_consts ex_pci 0)
           @ drop (length (logical_bars ex_consts ex_pci 0))
               (replicate 3 \<lparr>bar_offset = 0, cpu_address = 0, bar_size = 0\<rparr>)) \<and>
   map cpu_address (logical_bars ex_consts ex_pci 0) = [0xF6000000, 0x10E0000000, 0xF0000000, 0xE000]"
proof
  have "bars_in_range ex_pci"
    by (simp add: bars_in_range_def ex_pci_def is_bar64_def PCI_address_type_def
        PCI_address_type_64_def eval_nat_numeral)
  then show "init_bars ex_consts ex_pci 0 0
       (replicate 3 \<lparr>bar_offset = 0, cpu_address = 0, bar_size = 0\<rparr>) =
     Some (take 3 (logical_bars ex_consts ex_pci 0)
           @ drop (length (logical_bars ex_consts ex_pci 0))
               (replicate 3 \<lparr>bar_offset = 0, cpu_address = 0, bar_size = 0\<rparr>))"
    using init_bars_logical [of ex_pci _ ex_consts] by (simp add: ex_consts_def)
qed code_simp

section \<open>Probe and Init\<close>

text \<open>\<open>os_pci_init_handle\<close> of \<open>os-haiku.cpp\<close>: \<open>infos\<close> is what \<open>get_nth_pci_info\<close> enumerates and
  \<open>mem\<close> whether \<open>malloc\<close> succeeds. The result is the copy that the handle points to.\<close>

definition os_pci_init_handle ::
    "pci_info list \<Rightarrow> bool \<Rightarrow> u32 \<Rightarrow> u8 \<Rightarrow> u8 \<Rightarrow> u8 \<Rightarrow> pci_info option" where
  "os_pci_init_handle infos mem domain b sl f =
     (if domain \<noteq> 0 then None
      else case find (\<lambda>i. bus i = b \<and> slot i = sl \<and> func i = f) infos of
             None \<Rightarrow> None
           | Some i \<Rightarrow> if mem then Some i else None)"

record hw_state =
  config :: "u32 \<Rightarrow> u32"
  msi_configured :: bool
  msi_enabled :: bool
  handlers :: "u32 list"
  adapter_up :: bool

record nv_device =
  Nv :: nv_state
  fDeviceIndex :: u32
  fOpenCount :: int
  fInitSoftware :: bool
  fInitHardware :: bool
  fIrq :: u32
  hw :: hw_state

text \<open>What the outside answers while a device is probed.\<close>

record probe_env =
  pe_consts :: nv_consts
  pe_infos :: "pci_info list"
  pe_new :: bool
  pe_malloc :: bool
  pe_init_private :: "nv_state \<Rightarrow> bool \<times> nv_state"
  pe_hw :: hw_state

definition empty_bar :: nv_bar where
  "empty_bar = \<lparr>bar_offset = 0, cpu_address = 0, bar_size = 0\<rparr>"

definition nv_state_new :: "nv_consts \<Rightarrow> nv_state" where
  "nv_state_new c = \<lparr>nv_domain = 0, nv_bus = 0, nv_slot = 0, nv_function = 0, nv_vendor_id = 0,
     nv_device_id = 0, nv_subsystem_id = 0, nv_subsystem_vendor = 0, nv_handle = None, nv_regs = 0,
     nv_fb = 0, bars = replicate (NV_GPU_NUM_BARS c) empty_bar, gpu_id = 0,
     nv_flags = 0, interrupt_line = 0\<rparr>"

definition NvHaikuDevice_new :: "nv_consts \<Rightarrow> hw_state \<Rightarrow> nv_device" where
  "NvHaikuDevice_new c h = \<lparr>Nv = nv_state_new c, fDeviceIndex = 0, fOpenCount = 0,
     fInitSoftware = False, fInitHardware = False, fIrq = 0, hw = h\<rparr>"

text \<open>\<open>NvHaikuDevice::Init\<close>; no value where the BAR loop reads outside the arrays.\<close>

definition NvHaikuDevice_Init ::
    "probe_env \<Rightarrow> pci_info \<Rightarrow> nv_device \<Rightarrow> (unit status \<times> nv_device) option" where
  "NvHaikuDevice_Init env p d =
     (let c = pe_consts env;
          nv1 = (Nv d)\<lparr>nv_domain := 0, nv_bus := bus p, nv_slot := slot p, nv_function := func p,
            nv_vendor_id := vendor_id p, nv_device_id := device_id p,
            nv_subsystem_id := subsystem_id p, nv_subsystem_vendor := subsystem_vendor_id p,
            nv_handle := os_pci_init_handle (pe_infos env) (pe_malloc env) 0 (bus p) (slot p) (func p),
            nv_regs := NV_GPU_BAR_INDEX_REGS c, nv_fb := NV_GPU_BAR_INDEX_FB c\<rparr>
      in map_option (\<lambda>bs.
           let (ok, nv2) = pe_init_private env (nv1\<lparr>bars := bs\<rparr>)
           in if \<not> ok then (Inl B_ERROR, d\<lparr>Nv := nv2\<rparr>)
              else (B_OK, d\<lparr>Nv := nv2, fInitSoftware := True\<rparr>))
         (init_bars c p 0 0 (bars nv1)))"

text \<open>\<open>Probe\<close> yields the new device; on every error the half-made one is deleted.\<close>

definition Probe :: "probe_env \<Rightarrow> pci_info \<Rightarrow> nv_device status option" where
  "Probe env p =
     (if \<not> (vendor_id p = PCI_VENDOR_ID_NVIDIA \<and> class_base p = PCI_display \<and>
            (class_sub p = PCI_vga \<or> class_sub p = PCI_3d))
      then Some (Inl ENODEV)
      else if \<not> pe_new env then Some (Inl B_NO_MEMORY)
      else map_option (\<lambda>(res, device). CHECK_RET res (\<lambda>_. Inr device))
             (NvHaikuDevice_Init env p (NvHaikuDevice_new (pe_consts env) (pe_hw env))))"

section \<open>Start and Stop\<close>

text \<open>What the outside answers while the hardware is started: the MSI count, the vector that
  \<open>configure_msi\<close> stores when it succeeds, and the result of \<open>rm_init_adapter\<close>.\<close>

record start_env =
  msi_count :: int
  msi_vector :: "u32 option"
  init_adapter :: bool

definition PCI_command :: u32 where "PCI_command = 4"

definition os_pci_read_dword :: "u32 \<Rightarrow> hw_state \<Rightarrow> u32" where
  "os_pci_read_dword offset h = config h offset"

definition os_pci_write_dword :: "u32 \<Rightarrow> u32 \<Rightarrow> hw_state \<Rightarrow> hw_state" where
  "os_pci_write_dword offset v h = h\<lparr>config := (config h)(offset := v)\<rparr>"

definition Start :: "start_env \<Rightarrow> nv_device \<Rightarrow> unit status \<times> nv_device" where
  "Start env d =
     (let pciConfig = os_pci_read_dword PCI_command (hw d) OR
                      (PCI_command_io OR PCI_command_memory OR PCI_command_master);
          h1 = os_pci_write_dword PCI_command pciConfig (hw d)
      in if msi_count env < 1 then (Inl B_ERROR, d\<lparr>hw := h1\<rparr>)
         else let irq = (case msi_vector env of None \<Rightarrow> fIrq d | Some v \<Rightarrow> v);
                  h2 = h1\<lparr>msi_configured := (msi_vector env \<noteq> None \<or> msi_configured h1),
                          msi_enabled := True, handlers := irq # handlers h1\<rparr>;
                  d2 = d\<lparr>fIrq := irq, hw := h2\<rparr>
              in if \<not> init_adapter env then (Inl B_IO_ERROR, d2)
                 else (B_OK, d2\<lparr>fInitHardware := True, hw := h2\<lparr>adapter_up := True\<rparr>\<rparr>))"

definition Stop :: "nv_device \<Rightarrow> nv_device" where
  "Stop d =
     (let d1 = (if fInitHardware d
                then d\<lparr>fInitHardware := False, hw := (hw d)\<lparr>adapter_up := False\<rparr>\<rparr> else d);
          d2 = (if fIrq d1 \<noteq> 0
                then d1\<lparr>hw := (hw d1)\<lparr>handlers := remove1 (fIrq d1) (handlers (hw d1)),
                          msi_enabled := False, msi_configured := False\<rparr>\<rparr> else d1);
          pciConfig = os_pci_read_dword PCI_command (hw d2) AND NOT PCI_command_master
      in d2\<lparr>hw := os_pci_write_dword PCI_command pciConfig (hw d2)\<rparr>)"

definition AcquireRef :: "start_env \<Rightarrow> nv_device \<Rightarrow> unit status \<times> nv_device" where
  "AcquireRef env d =
     (let old = fOpenCount d; d1 = d\<lparr>fOpenCount := old + 1\<rparr>
      in if old = 0
         then case Start env d1 of
                (Inl e, d2) \<Rightarrow> (Inl e, d2\<lparr>fOpenCount := fOpenCount d2 - 1\<rparr>)
              | (Inr _, d2) \<Rightarrow> (B_OK, d2)
         else (B_OK, d1))"

definition ReleaseRef :: "nv_device \<Rightarrow> nv_device" where
  "ReleaseRef d =
     (let old = fOpenCount d; d1 = d\<lparr>fOpenCount := old - 1\<rparr>
      in if old = 1 then Stop d1 else d1)"

text \<open>\<open>Open\<close> and \<open>Closed\<close>: the handle is made first, and deleted again when the reference is
  refused. \<open>mem\<close> is whether \<open>new(std::nothrow)\<close> succeeds.\<close>

definition NvHaikuDevice_Open :: "bool \<Rightarrow> start_env \<Rightarrow> nv_device \<Rightarrow> unit status \<times> nv_device" where
  "NvHaikuDevice_Open mem env d =
     (if \<not> mem then (Inl B_NO_MEMORY, d)
      else CHECK_RET_st (AcquireRef env d) (\<lambda>_ d1. (B_OK, d1)))"

definition NvHaikuDevice_Closed :: "nv_device \<Rightarrow> nv_device" where
  "NvHaikuDevice_Closed d = ReleaseRef d"

end
