(* ===== verification/DeviceRefs.thy ===== *)
theory DeviceRefs
  imports Device Steps
begin

text \<open>
  The open count of a GPU: sequential sessions, what a failed start leaves behind, and the
  interleavings of several threads on the atomic counter.
\<close>

section \<open>Sessions of one caller\<close>

lemma AcquireRef_open:
  "fOpenCount d \<noteq> 0 \<Longrightarrow> AcquireRef env d = (B_OK, d\<lparr>fOpenCount := fOpenCount d + 1\<rparr>)"
  by (simp add: AcquireRef_def Let_def)

lemma Stop_simps [simp]:
  "fOpenCount (Stop d) = fOpenCount d" "\<not> fInitHardware (Stop d)"
  by (simp_all add: Stop_def Let_def)

lemma ReleaseRef_simps:
  "fOpenCount (ReleaseRef d) = fOpenCount d - 1"
  "fOpenCount d \<noteq> 1 \<Longrightarrow> ReleaseRef d = d\<lparr>fOpenCount := fOpenCount d - 1\<rparr>"
  "fOpenCount d = 1 \<Longrightarrow> ReleaseRef d = Stop (d\<lparr>fOpenCount := 0\<rparr>)"
  by (simp_all add: ReleaseRef_def Let_def)

lemma Start_count [simp]: "fOpenCount (snd (Start env d)) = fOpenCount d"
  by (simp add: Start_def Let_def)

text \<open>The GPU is usable: the driver believes so and the resource manager's adapter is up.\<close>

definition powered :: "nv_device \<Rightarrow> bool" where
  "powered d \<longleftrightarrow> fInitHardware d \<and> adapter_up (hw d)"

interpretation device_ref: ref_counted fOpenCount powered "\<lambda>d. snd (AcquireRef env d)" ReleaseRef
  for env
proof (unfold_locales, goal_cases)
  case (4 d)
  then show ?case
    by (cases "fOpenCount d = 1") (auto simp: ReleaseRef_simps powered_def)
qed (simp_all add: AcquireRef_open ReleaseRef_simps powered_def)

lemma AcquireRef_first:
  "fOpenCount d = 0 \<Longrightarrow> AcquireRef env d = (B_OK, d') \<Longrightarrow> fOpenCount d' = 1 \<and> powered d'"
  by (auto simp: AcquireRef_def Let_def Start_def powered_def split: if_splits)

text \<open>
  A GPU that one open call has started is usable until the last handle is closed: along every
  sequence of further opens and closes by callers that hold a handle, the count is the number of
  open handles, and the hardware is initialised exactly while that number is not zero.
\<close>

theorem device_up_while_open:
  assumes "fOpenCount d = 0" "AcquireRef env d = (B_OK, d1)" "keeps_ref 1 ops"
  shows "fOpenCount (ref_run (\<lambda>d. snd (AcquireRef env d)) ReleaseRef ops d1) = 1 + ref_balance ops \<and>
         powered (ref_run (\<lambda>d. snd (AcquireRef env d)) ReleaseRef ops d1) = (0 < 1 + ref_balance ops)"
proof -
  have d1: "fOpenCount d1 = 1" "powered d1" using AcquireRef_first [OF assms(1,2)] by simp_all
  then have "keeps_ref (fOpenCount d1) ops" "powered d1 = (0 < fOpenCount d1)"
    using assms(3) by simp_all
  then show ?thesis using device_ref.cnt_run device_ref.up_until_last_put d1(1) by metis
qed

definition ex_hw :: hw_state where
  "ex_hw = \<lparr>config = (\<lambda>_. 0), msi_configured = False, msi_enabled = False, handlers = [],
     adapter_up = False\<rparr>"

definition ex_device :: nv_device where "ex_device = NvHaikuDevice_new ex_consts ex_hw"

definition ex_start :: start_env where
  "ex_start = \<lparr>msi_count = 1, msi_vector = Some 33, init_adapter = True\<rparr>"

lemma device_up_while_open_witness:
  "powered (ref_run (\<lambda>d. snd (AcquireRef ex_start d)) ReleaseRef [Get, Put]
     (snd (AcquireRef ex_start ex_device)))"
proof -
  have "fOpenCount ex_device = 0" by (simp add: ex_device_def NvHaikuDevice_new_def)
  moreover have "AcquireRef ex_start ex_device = (B_OK, snd (AcquireRef ex_start ex_device))"
    by (simp add: AcquireRef_def Start_def ex_start_def ex_device_def NvHaikuDevice_new_def Let_def)
  ultimately show ?thesis
    using device_up_while_open [of ex_device ex_start "snd (AcquireRef ex_start ex_device)" "[Get, Put]"]
    by simp
qed

text \<open>Any order of opens and closes, where a close is only made on an open handle.\<close>

datatype dev_op = OpOpen start_env | OpClose

fun dev_client :: "dev_op \<Rightarrow> nv_device \<Rightarrow> nv_device" where
  "dev_client (OpOpen env) d = snd (NvHaikuDevice_Open True env d)"
| "dev_client OpClose d = (if 0 < fOpenCount d then NvHaikuDevice_Closed d else d)"

definition dev_session :: "dev_op list \<Rightarrow> nv_device \<Rightarrow> nv_device" where
  "dev_session ops d = fold dev_client ops d"

definition start_succeeds :: "start_env \<Rightarrow> bool" where
  "start_succeeds env \<longleftrightarrow> 1 \<le> msi_count env \<and> init_adapter env \<and>
     (case msi_vector env of None \<Rightarrow> False | Some v \<Rightarrow> v \<noteq> 0)"

fun op_ok :: "dev_op \<Rightarrow> bool" where
  "op_ok (OpOpen env) = start_succeeds env"
| "op_ok OpClose = True"

definition bus_master :: "hw_state \<Rightarrow> bool" where
  "bus_master h \<longleftrightarrow> bit (config h PCI_command) 2"

definition hw_off :: "hw_state \<Rightarrow> bool" where
  "hw_off h \<longleftrightarrow> \<not> adapter_up h \<and> handlers h = [] \<and> \<not> msi_enabled h \<and> \<not> msi_configured h \<and>
     \<not> bus_master h"

definition hw_on :: "u32 \<Rightarrow> hw_state \<Rightarrow> bool" where
  "hw_on irq h \<longleftrightarrow> adapter_up h \<and> handlers h = [irq] \<and> irq \<noteq> 0 \<and> msi_enabled h \<and>
     msi_configured h \<and> bus_master h"

definition device_ok :: "nv_device \<Rightarrow> bool" where
  "device_ok d \<longleftrightarrow>
     (if fOpenCount d = 0 then \<not> fInitHardware d \<and> hw_off (hw d)
      else 0 < fOpenCount d \<and> fInitHardware d \<and> hw_on (fIrq d) (hw d))"

lemma command_bits:
  "bit (c OR (PCI_command_io OR PCI_command_memory OR PCI_command_master)) 2"
  "\<not> bit (c AND NOT PCI_command_master) 2"
proof -
  have "bit PCI_command_master 2" by (simp add: PCI_command_master_def)
  then show "bit (c OR (PCI_command_io OR PCI_command_memory OR PCI_command_master)) 2"
    "\<not> bit (c AND NOT PCI_command_master) 2"
    by (simp_all add: bit_simps)
qed

lemma Start_ok:
  assumes "start_succeeds env" "hw_off (hw d)"
  shows "\<exists>d'. Start env d = (B_OK, d') \<and> fOpenCount d' = fOpenCount d \<and> fInitHardware d' \<and>
           hw_on (fIrq d') (hw d')"
proof -
  from assms obtain v where v: "msi_vector env = Some v" "v \<noteq> 0" "1 \<le> msi_count env" "init_adapter env"
    by (auto simp: start_succeeds_def split: option.splits)
  with assms(2) show ?thesis
    by (simp add: Start_def Let_def hw_on_def hw_off_def bus_master_def os_pci_write_dword_def
        command_bits)
qed

lemma Stop_off:
  "hw_on (fIrq d) (hw d) \<Longrightarrow> fInitHardware d \<Longrightarrow> hw_off (hw (Stop d))"
  by (simp add: Stop_def Let_def hw_on_def hw_off_def bus_master_def os_pci_write_dword_def
      command_bits)

lemma device_ok_step: "device_ok d \<Longrightarrow> op_ok op \<Longrightarrow> device_ok (dev_client op d)"
proof (cases op)
  case (OpOpen env)
  assume ok: "device_ok d" and "op_ok op"
  with OpOpen have env: "start_succeeds env" by simp
  show ?thesis
  proof (cases "fOpenCount d = 0")
    case True
    with ok have "hw_off (hw (d\<lparr>fOpenCount := 1\<rparr>))" by (simp add: device_ok_def)
    from Start_ok [OF env this] True OpOpen show ?thesis
      by (auto simp: NvHaikuDevice_Open_def AcquireRef_def device_ok_def Let_def)
  next
    case False
    with ok OpOpen show ?thesis
      by (simp add: NvHaikuDevice_Open_def AcquireRef_open device_ok_def)
  qed
next
  case OpClose
  assume ok: "device_ok d"
  show ?thesis
  proof (cases "fOpenCount d = 1")
    case True
    with ok have "hw_on (fIrq (d\<lparr>fOpenCount := 0\<rparr>)) (hw (d\<lparr>fOpenCount := 0\<rparr>))"
      "fInitHardware (d\<lparr>fOpenCount := 0\<rparr>)"
      by (simp_all add: device_ok_def)
    from Stop_off [OF this] True OpClose show ?thesis
      by (simp add: NvHaikuDevice_Closed_def ReleaseRef_simps device_ok_def)
  next
    case False
    with ok OpClose show ?thesis
      by (auto simp: NvHaikuDevice_Closed_def ReleaseRef_simps device_ok_def split: if_splits)
  qed
qed

text \<open>
  Opens and closes leave nothing behind: from a device that is off, after any sequence of
  opens whose starts succeed and of closes, the device is either closed, and then the adapter is
  down, no interrupt handler is installed, MSI is disabled and released and bus mastering is off;
  or it is open, with the adapter up and exactly one handler installed, at the vector in use.
\<close>

theorem device_session_ok:
  assumes "device_ok d" "\<forall>op \<in> set ops. op_ok op"
  shows "device_ok (dev_session ops d)"
  using assms unfolding dev_session_def
  by (induction ops arbitrary: d) (simp_all add: device_ok_step)

lemma device_session_ok_witness:
  "device_ok (dev_session [OpOpen ex_start, OpOpen ex_start, OpClose, OpClose, OpOpen ex_start] ex_device)"
proof (rule device_session_ok)
  show "device_ok ex_device"
    by (simp add: device_ok_def ex_device_def NvHaikuDevice_new_def hw_off_def ex_hw_def
        bus_master_def)
qed (simp add: start_succeeds_def ex_start_def)

text \<open>
  A start that fails in the resource manager is not undone. When \<open>rm_init_adapter\<close> refuses,
  the open is refused with \<open>B_IO_ERROR\<close> and the count goes back to zero, but the interrupt handler
  stays installed, MSI stays enabled and bus mastering stays on, although no handle is open and
  so no \<open>Stop\<close> will ever run.
\<close>

theorem failed_start_not_undone:
  assumes "fOpenCount d = 0" "1 \<le> msi_count env" "msi_vector env = Some v" "\<not> init_adapter env"
  shows "\<exists>d'. NvHaikuDevice_Open True env d = (Inl B_IO_ERROR, d') \<and> fOpenCount d' = 0 \<and>
              fInitHardware d' = fInitHardware d \<and> handlers (hw d') = v # handlers (hw d) \<and>
              msi_enabled (hw d') \<and> bus_master (hw d')"
  using assms
  by (simp add: NvHaikuDevice_Open_def AcquireRef_def Start_def Let_def bus_master_def
      os_pci_write_dword_def command_bits)

lemma failed_start_not_undone_witness:
  "\<exists>d'. NvHaikuDevice_Open True (ex_start\<lparr>init_adapter := False\<rparr>) ex_device = (Inl B_IO_ERROR, d') \<and>
        handlers (hw d') = [33]"
proof -
  have "fOpenCount ex_device = 0" "handlers (hw ex_device) = []"
    by (simp_all add: ex_device_def NvHaikuDevice_new_def ex_hw_def)
  with failed_start_not_undone [of ex_device "ex_start\<lparr>init_adapter := False\<rparr>" 33]
  show ?thesis by (auto simp: ex_start_def)
qed

section \<open>Threads racing on the count\<close>

text \<open>The counter is atomic, \<open>Start\<close> and \<open>Stop\<close> run outside of it. A thread is idle, inside
  \<open>Start\<close> after its \<open>fetch_add\<close> returned 0, about to take a failed start back with
  \<open>fOpenCount--\<close>, or inside \<open>Stop\<close> after its \<open>fetch_sub\<close> returned 1. \<open>dev_refs\<close> counts the
  references handed out: handles may be closed by another thread than the one that opened them.\<close>

datatype dev_pc = AtRest | InStart | StartUndo | InStop

record dev_sys =
  dev :: nv_device
  dev_pcs :: "nat \<Rightarrow> dev_pc"
  dev_refs :: nat

inductive dev_step :: "nat \<Rightarrow> dev_sys \<Rightarrow> dev_sys \<Rightarrow> bool" for N :: nat where
  acquire_first: "t < N \<Longrightarrow> dev_pcs s t = AtRest \<Longrightarrow> fOpenCount (dev s) = 0 \<Longrightarrow>
     dev_step N s (s\<lparr>dev := (dev s)\<lparr>fOpenCount := fOpenCount (dev s) + 1\<rparr>,
                     dev_pcs := (dev_pcs s)(t := InStart)\<rparr>)"
| acquire_more: "t < N \<Longrightarrow> dev_pcs s t = AtRest \<Longrightarrow> fOpenCount (dev s) \<noteq> 0 \<Longrightarrow>
     dev_step N s (s\<lparr>dev := (dev s)\<lparr>fOpenCount := fOpenCount (dev s) + 1\<rparr>, dev_refs := dev_refs s + 1\<rparr>)"
| start_done: "t < N \<Longrightarrow> dev_pcs s t = InStart \<Longrightarrow> Start env (dev s) = (Inr u, d) \<Longrightarrow>
     dev_step N s (s\<lparr>dev := d, dev_pcs := (dev_pcs s)(t := AtRest), dev_refs := dev_refs s + 1\<rparr>)"
| start_refused: "t < N \<Longrightarrow> dev_pcs s t = InStart \<Longrightarrow> Start env (dev s) = (Inl e, d) \<Longrightarrow>
     dev_step N s (s\<lparr>dev := d, dev_pcs := (dev_pcs s)(t := StartUndo)\<rparr>)"
| start_undo: "t < N \<Longrightarrow> dev_pcs s t = StartUndo \<Longrightarrow>
     dev_step N s (s\<lparr>dev := (dev s)\<lparr>fOpenCount := fOpenCount (dev s) - 1\<rparr>,
                     dev_pcs := (dev_pcs s)(t := AtRest)\<rparr>)"
| release: "t < N \<Longrightarrow> dev_pcs s t = AtRest \<Longrightarrow> 0 < dev_refs s \<Longrightarrow>
     dev_step N s (s\<lparr>dev := (dev s)\<lparr>fOpenCount := fOpenCount (dev s) - 1\<rparr>, dev_refs := dev_refs s - 1,
                     dev_pcs := (dev_pcs s)(t := if fOpenCount (dev s) = 1 then InStop else AtRest)\<rparr>)"
| stop_done: "t < N \<Longrightarrow> dev_pcs s t = InStop \<Longrightarrow>
     dev_step N s (s\<lparr>dev := Stop (dev s), dev_pcs := (dev_pcs s)(t := AtRest)\<rparr>)"

inductive_cases dev_stepE: "dev_step N s s'"

definition dev_init :: "nv_device \<Rightarrow> dev_sys" where
  "dev_init d = \<lparr>dev = d, dev_pcs = (\<lambda>_. AtRest), dev_refs = 0\<rparr>"

inductive dev_reachable :: "nat \<Rightarrow> nv_device \<Rightarrow> dev_sys \<Rightarrow> bool" for N d where
  start: "dev_reachable N d (dev_init d)"
| step: "dev_reachable N d s \<Longrightarrow> dev_step N s s' \<Longrightarrow> dev_reachable N d s'"

text \<open>Threads that have added to the count and have not been given a reference.\<close>

definition in_flight :: "nat \<Rightarrow> (nat \<Rightarrow> dev_pc) \<Rightarrow> nat set" where
  "in_flight N p = {t. t < N \<and> (p t = InStart \<or> p t = StartUndo)}"

lemma in_flight_finite [simp]: "finite (in_flight N p)"
  by (simp add: in_flight_def)

lemma in_flight_upd:
  "t < N \<Longrightarrow> in_flight N (p(t := x)) =
     (if x = InStart \<or> x = StartUndo then insert t (in_flight N p) else in_flight N p - {t})"
  by (auto simp: in_flight_def)

lemma in_flight_mem: "t \<in> in_flight N p \<longleftrightarrow> t < N \<and> (p t = InStart \<or> p t = StartUndo)"
  by (simp add: in_flight_def)

definition count_exact :: "nat \<Rightarrow> dev_sys \<Rightarrow> bool" where
  "count_exact N s \<longleftrightarrow> fOpenCount (dev s) = int (dev_refs s) + int (card (in_flight N (dev_pcs s)))"

definition one_starter :: "nat \<Rightarrow> dev_sys \<Rightarrow> bool" where
  "one_starter N s \<longleftrightarrow>
     (\<forall>t u. t < N \<longrightarrow> u < N \<longrightarrow> dev_pcs s t = InStart \<longrightarrow> dev_pcs s u = InStart \<longrightarrow> t = u)"

lemma Start_countD: "Start env d = (r, d') \<Longrightarrow> fOpenCount d' = fOpenCount d"
  using Start_count [of env d] by simp

lemma card_in_flight_minus:
  "t \<in> in_flight N p \<Longrightarrow> int (card (in_flight N p)) = int (card (in_flight N p - {t})) + 1"
  using card.remove [OF in_flight_finite] by fastforce

lemma const_upd [simp]: "(\<lambda>_. c)(x := c) = (\<lambda>_. c)"
  by (rule ext) simp

lemma count_exact_step: "dev_step N s s' \<Longrightarrow> count_exact N s \<Longrightarrow> count_exact N s'"
proof (induction rule: dev_step.induct)
  case (acquire_first t s)
  then show ?case by (simp add: count_exact_def in_flight_upd in_flight_mem)
next
  case (acquire_more t s)
  then show ?case by (simp add: count_exact_def)
next
  case (start_done t s env u d)
  then have "t \<in> in_flight N (dev_pcs s)" by (simp add: in_flight_mem)
  from card_in_flight_minus [OF this] start_done Start_countD [OF start_done.hyps(3)]
  show ?case by (simp add: count_exact_def in_flight_upd)
next
  case (start_refused t s env e d)
  then show ?case
    by (simp add: count_exact_def in_flight_upd in_flight_mem insert_absorb
        Start_countD [OF start_refused.hyps(3)])
next
  case (start_undo t s)
  then have "t \<in> in_flight N (dev_pcs s)" by (simp add: in_flight_mem)
  from card_in_flight_minus [OF this] start_undo
  show ?case by (simp add: count_exact_def in_flight_upd)
next
  case (release t s)
  then show ?case by (simp add: count_exact_def in_flight_upd in_flight_mem)
next
  case (stop_done t s)
  then show ?case by (simp add: count_exact_def in_flight_upd in_flight_mem)
qed

lemma one_starter_step:
  "dev_step N s s' \<Longrightarrow> count_exact N s \<Longrightarrow> one_starter N s \<Longrightarrow> one_starter N s'"
proof (induction rule: dev_step.induct)
  case (acquire_first t s)
  then have "card (in_flight N (dev_pcs s)) = 0" unfolding count_exact_def by linarith
  then have "in_flight N (dev_pcs s) = {}" by simp
  then have "\<And>u. u < N \<Longrightarrow> dev_pcs s u \<noteq> InStart" using in_flight_mem by blast
  then show ?case by (simp add: one_starter_def)
qed (auto simp: one_starter_def)

interpretation dev: invariant_system "\<lambda>s. fOpenCount d = 0 \<and> s = dev_init d" "dev_step N"
    "\<lambda>s. fOpenCount d = 0 \<and> dev_reachable N d s" "\<lambda>s. count_exact N s \<and> one_starter N s"
proof
  fix s I
  assume reach: "fOpenCount d = 0 \<and> dev_reachable N d s" and first: "\<And>s. fOpenCount d = 0 \<and> s = dev_init d \<Longrightarrow> I s"
    and next_one: "\<And>s t. fOpenCount d = 0 \<and> dev_reachable N d s \<Longrightarrow> I s \<Longrightarrow> dev_step N s t \<Longrightarrow> I t"
  from reach have "dev_reachable N d s" "fOpenCount d = 0" by blast+
  then show "I s" by (induction rule: dev_reachable.induct) (blast intro: first next_one)+
next
  show "count_exact N s \<and> one_starter N s" if "fOpenCount d = 0 \<and> s = dev_init d" for s
    using that by (simp add: count_exact_def one_starter_def dev_init_def in_flight_def)
qed (auto intro: dev_reachable.intros count_exact_step one_starter_step)

lemma dev_reachable_inv:
  "dev_reachable N d s \<Longrightarrow> fOpenCount d = 0 \<Longrightarrow> count_exact N s \<and> one_starter N s"
  using dev.inv_reach by blast

text \<open>
  The open count is exact under every interleaving: it is the number of references handed out
  plus the number of threads that are inside a start or about to take a failed one back; and two
  threads are never inside \<open>Start\<close> at the same time.
\<close>

theorem device_count_exact:
  assumes "dev_reachable N d s" "fOpenCount d = 0"
  shows "fOpenCount (dev s) = int (dev_refs s) + int (card (in_flight N (dev_pcs s))) \<and>
         card {t. t < N \<and> dev_pcs s t = InStart} \<le> 1"
proof -
  from dev_reachable_inv [OF assms] have *: "count_exact N s" "one_starter N s" by simp_all
  have "card {t. t < N \<and> dev_pcs s t = InStart} \<le> Suc 0"
    by (rule card_le_Suc0_iff_eq [THEN iffD2]) (use *(2) in \<open>auto simp: one_starter_def\<close>)
  with *(1) show ?thesis by (simp add: count_exact_def)
qed

text \<open>Two opens race: the second thread finds the count at one while the first is still inside
  \<open>Start\<close>, which then fails.\<close>

definition ex_refused :: start_env where "ex_refused = ex_start\<lparr>init_adapter := False\<rparr>"

definition race1 :: dev_sys where
  "race1 = (dev_init ex_device)\<lparr>dev := ex_device\<lparr>fOpenCount := 1\<rparr>, dev_pcs := (\<lambda>_. AtRest)(0 := InStart)\<rparr>"
definition race2 :: dev_sys where
  "race2 = race1\<lparr>dev := ex_device\<lparr>fOpenCount := 2\<rparr>, dev_refs := 1\<rparr>"
definition race3 :: dev_sys where
  "race3 = race2\<lparr>dev := snd (Start ex_refused (ex_device\<lparr>fOpenCount := 2\<rparr>)),
                 dev_pcs := (\<lambda>_. AtRest)(0 := StartUndo)\<rparr>"
definition race4 :: dev_sys where
  "race4 = race3\<lparr>dev := (dev race3)\<lparr>fOpenCount := 1\<rparr>, dev_pcs := (\<lambda>_. AtRest)\<rparr>"

lemma ex_device_count: "fOpenCount ex_device = 0" "\<not> fInitHardware ex_device" "\<not> adapter_up (hw ex_device)"
  by (simp_all add: ex_device_def NvHaikuDevice_new_def ex_hw_def)

lemma Start_refused:
  "fst (Start ex_refused d) = Inl B_IO_ERROR"
  "fInitHardware (snd (Start ex_refused d)) = fInitHardware d"
  "adapter_up (hw (snd (Start ex_refused d))) = adapter_up (hw d)"
  by (simp_all add: Start_def Let_def ex_refused_def ex_start_def os_pci_write_dword_def)

lemma race_reachable: "dev_reachable 2 ex_device race4"
proof -
  have "dev_reachable 2 ex_device (dev_init ex_device)" by (rule dev_reachable.start)
  moreover have "dev_step 2 (dev_init ex_device) race1"
    using acquire_first [of 0 2 "dev_init ex_device"]
    by (simp add: race1_def dev_init_def ex_device_count)
  moreover have "dev_step 2 race1 race2"
    using acquire_more [of 1 2 race1] by (simp add: race1_def race2_def dev_init_def)
  moreover have "dev_step 2 race2 race3"
  proof -
    have "Start ex_refused (dev race2) = (Inl B_IO_ERROR, snd (Start ex_refused (dev race2)))"
      using Start_refused(1) by (metis prod.collapse)
    from start_refused [of 0 2 race2, OF _ _ this] show ?thesis
      by (simp add: race1_def race2_def race3_def dev_init_def)
  qed
  moreover have "dev_step 2 race3 race4"
    using start_undo [of 0 2 race3]
    by (simp add: race1_def race2_def race3_def race4_def dev_init_def)
  ultimately show ?thesis by (meson dev_reachable.step)
qed

lemma device_count_exact_witness:
  "fOpenCount (dev race4) = int (dev_refs race4) + int (card (in_flight 2 (dev_pcs race4)))"
  using device_count_exact [OF race_reachable] ex_device_count by simp

text \<open>
  An open can succeed on a device that was never started: some interleaving of two opens, the
  first of which fails inside \<open>Start\<close>, ends with all threads idle and one reference handed out
  although the hardware is not initialised; and every further open of that device then succeeds
  without starting it.
\<close>

theorem device_open_race:
  "\<exists>s. dev_reachable 2 ex_device s \<and> (\<forall>t. dev_pcs s t = AtRest) \<and> dev_refs s = 1 \<and>
       \<not> fInitHardware (dev s) \<and> \<not> adapter_up (hw (dev s)) \<and>
       (\<forall>env. fst (AcquireRef env (dev s)) = B_OK \<and> \<not> fInitHardware (snd (AcquireRef env (dev s))))"
proof (intro exI [of _ race4] conjI allI)
  show "dev_reachable 2 ex_device race4" by (rule race_reachable)
qed (simp_all add: race1_def race2_def race3_def race4_def dev_init_def AcquireRef_open
      Start_refused ex_device_count)

end
