(* ===== verification/Interrupts.thy ===== *)
theory Interrupts
  imports DeviceRefs
begin

text \<open>
  The interrupt handler of a GPU and its deferred half (\<open>nvidia_gsp/nvidia/Device.cpp\<close>), together with
  the opens and closes that install and remove it. \<open>rm_isr\<close> and \<open>rm_isr_bh\<close> are the resource manager's;
  the model keeps whether the adapter was up when they were called.
\<close>

section \<open>The handlers\<close>

datatype interrupt_answer = B_UNHANDLED_INTERRUPT | B_HANDLED_INTERRUPT

text \<open>\<open>rm_isr\<close> is the answer of the resource manager: whether the interrupt was its own, and whether it
  needs the bottom half. The result tells whether the deferred call is added to the queue.\<close>

definition InterruptHandlerInt :: "bool \<times> bool \<Rightarrow> interrupt_answer \<times> bool" where
  "InterruptHandlerInt rm_isr =
     (case rm_isr of (isIsrHandled, needBottomHalf) \<Rightarrow>
        (B_HANDLED_INTERRUPT, isIsrHandled \<and> needBottomHalf))"

record intr_device =
  gpu :: nv_device
  queued :: nat
  asked :: nat
  isr_calls :: "bool list"
  bottom_halves :: "bool list"

definition up :: "intr_device \<Rightarrow> bool" where "up d = adapter_up (hw (gpu d))"

definition InterruptHandler :: "bool \<times> bool \<Rightarrow> intr_device \<Rightarrow> interrupt_answer \<times> intr_device" where
  "InterruptHandler rm_isr d =
     (case InterruptHandlerInt rm_isr of (answer, add) \<Rightarrow>
        (answer, d\<lparr>isr_calls := isr_calls d @ [up d], queued := queued d + of_bool add, asked := asked d + of_bool add\<rparr>))"

text \<open>The queue of deferred calls takes the entry out before it calls \<open>DoDPC\<close>.\<close>

definition DoDPC :: "intr_device \<Rightarrow> intr_device" where
  "DoDPC d = d\<lparr>bottom_halves := bottom_halves d @ [up d]\<rparr>"

text \<open>Interrupts arrive while a handler is installed at the vector in use; the queue runs when it
  likes; \<open>Start\<close> and \<open>Stop\<close> are one step each. \<open>waits\<close> is what the driver does not do: to close only
  when no deferred call is queued.\<close>

inductive intr_step :: "bool \<Rightarrow> intr_device \<Rightarrow> intr_device \<Rightarrow> bool" for waits where
  irq: "fIrq (gpu d) \<in> set (handlers (hw (gpu d))) \<Longrightarrow> intr_step waits d (snd (InterruptHandler rm_isr d))"
| dpc: "0 < queued d \<Longrightarrow> intr_step waits d (DoDPC (d\<lparr>queued := queued d - 1\<rparr>))"
| opens: "start_succeeds env \<Longrightarrow> intr_step waits d (d\<lparr>gpu := dev_client (OpOpen env) (gpu d)\<rparr>)"
| closes: "waits \<longrightarrow> queued d = 0 \<Longrightarrow> intr_step waits d (d\<lparr>gpu := dev_client OpClose (gpu d)\<rparr>)"

inductive_cases intr_stepE: "intr_step waits d d'"

abbreviation intr_reach :: "bool \<Rightarrow> intr_device \<Rightarrow> intr_device \<Rightarrow> bool" where
  "intr_reach waits \<equiv> (intr_step waits)\<^sup>*\<^sup>*"

definition intr_new :: "nv_device \<Rightarrow> intr_device" where
  "intr_new g = \<lparr>gpu = g, queued = 0, asked = 0, isr_calls = [], bottom_halves = []\<rparr>"

section \<open>When the handlers run\<close>

text \<open>An interrupt is claimed whether or not the resource manager knows it.\<close>

lemma every_interrupt_claimed: "fst (InterruptHandler rm_isr d) = B_HANDLED_INTERRUPT"
  by (simp add: InterruptHandler_def InterruptHandlerInt_def split: prod.split)

lemma handler_means_up:
  "device_ok g \<Longrightarrow> fIrq g \<in> set (handlers (hw g)) \<Longrightarrow> adapter_up (hw g)"
  by (auto simp: device_ok_def hw_on_def hw_off_def split: if_splits)

definition intr_ok :: "bool \<Rightarrow> intr_device \<Rightarrow> bool" where
  "intr_ok waits d \<longleftrightarrow>
     device_ok (gpu d) \<and> asked d = queued d + length (bottom_halves d) \<and> (\<forall>b \<in> set (isr_calls d). b) \<and>
     (waits \<longrightarrow> (\<forall>b \<in> set (bottom_halves d). b) \<and> (0 < queued d \<longrightarrow> up d))"

lemma open_keeps_up:
  assumes "device_ok g" "adapter_up (hw g)" "start_succeeds env"
  shows "adapter_up (hw (dev_client (OpOpen env) g))"
proof -
  have "fOpenCount g \<noteq> 0" using assms(1,2) by (auto simp: device_ok_def hw_off_def split: if_splits)
  then show ?thesis using assms(2) by (simp add: NvHaikuDevice_Open_def AcquireRef_open)
qed

lemma intr_ok_step:
  assumes "intr_ok waits d" "intr_step waits d d'"
  shows "intr_ok waits d'"
  using assms(2)
proof cases
  case (irq rm_isr)
  then have "up d" using assms(1) handler_means_up by (simp add: intr_ok_def up_def)
  then show ?thesis using assms(1) irq(1)
    by (auto simp: intr_ok_def up_def InterruptHandler_def InterruptHandlerInt_def split: prod.splits)
next
  case dpc
  then show ?thesis using assms(1) by (auto simp: intr_ok_def up_def DoDPC_def)
next
  case (opens env)
  have "device_ok (dev_client (OpOpen env) (gpu d))"
    using device_ok_step [of "gpu d" "OpOpen env"] opens(2) assms(1) by (simp add: intr_ok_def)
  then show ?thesis using assms(1) opens open_keeps_up [of "gpu d" env] by (auto simp: intr_ok_def up_def)
next
  case closes
  have "device_ok (dev_client OpClose (gpu d))"
    using device_ok_step [of "gpu d" OpClose] assms(1) by (simp add: intr_ok_def)
  then show ?thesis using assms(1) closes by (auto simp: intr_ok_def up_def)
qed

interpretation intr: preserved "intr_step waits" "intr_ok waits"
  by unfold_locales (rule intr_ok_step)

lemma late_run:
  assumes "device_ok g" "fOpenCount g = 0" "start_succeeds env"
  shows "\<exists>d. intr_reach False (intr_new g) d \<and> bottom_halves d = [False]"
proof -
  let ?d0 = "intr_new g"
  let ?d1 = "?d0\<lparr>gpu := dev_client (OpOpen env) g\<rparr>"
  let ?d2 = "snd (InterruptHandler (True, True) ?d1)"
  let ?d3 = "?d2\<lparr>gpu := dev_client OpClose (gpu ?d2)\<rparr>"
  have off: "hw_off (hw (g\<lparr>fOpenCount := 1\<rparr>))" using assms(1,2) by (simp add: device_ok_def)
  from Start_ok [OF assms(3) off] assms(2) have open1: "fOpenCount (gpu ?d1) = 1"
    by (auto simp: NvHaikuDevice_Open_def AcquireRef_def Let_def)
  have ok1: "device_ok (gpu ?d1)" using device_ok_step [of g "OpOpen env"] assms(1,3) by simp
  then have handler: "fIrq (gpu ?d1) \<in> set (handlers (hw (gpu ?d1)))"
    using open1 by (simp add: device_ok_def hw_on_def)
  have "gpu ?d2 = gpu ?d1" "queued ?d2 = 1" "bottom_halves ?d2 = []"
    by (simp_all add: InterruptHandler_def InterruptHandlerInt_def intr_new_def)
  moreover have ok3: "device_ok (dev_client OpClose (gpu ?d1))" using device_ok_step [OF ok1, of OpClose] by simp
  moreover have "fOpenCount (dev_client OpClose (gpu ?d1)) = 0"
    using open1 by (simp add: NvHaikuDevice_Closed_def ReleaseRef_simps)
  ultimately have d3: "\<not> up ?d3" "queued ?d3 = 1" "bottom_halves ?d3 = []"
    by (simp_all add: device_ok_def hw_off_def up_def)
  have "intr_step False ?d0 ?d1" using intr_step.opens [OF assms(3), of False ?d0] by (simp add: intr_new_def)
  moreover have "intr_step False ?d1 ?d2" by (rule intr_step.irq) (rule handler)
  moreover have "intr_step False ?d2 ?d3" by (rule intr_step.closes) simp
  moreover have "intr_step False ?d3 (DoDPC (?d3\<lparr>queued := queued ?d3 - 1\<rparr>))" by (rule intr_step.dpc) (use d3(2) in simp)
  ultimately have "intr_reach False ?d0 (DoDPC (?d3\<lparr>queued := queued ?d3 - 1\<rparr>))"
    by (meson converse_rtranclp_into_rtranclp rtranclp.rtrancl_refl)
  moreover have "bottom_halves (DoDPC (?d3\<lparr>queued := queued ?d3 - 1\<rparr>)) = [False]"
    using d3(1,3) by (simp add: DoDPC_def up_def)
  ultimately show ?thesis by blast
qed

text \<open>
  The bottom half can come too late. As long as all starts succeed, \<open>rm_isr\<close> is called only on an
  adapter that is up, and every bottom half that was asked for has run or is still queued. If closing
  waited for the queue, the bottom half would also run on an adapter that is up only. But \<open>Stop\<close> does
  not look at the queue: whatever device it is, an interrupt before the last close makes the driver
  call \<open>rm_isr_bh\<close> on an adapter that has been shut down.
\<close>

theorem bottom_half_late:
  assumes "device_ok g" "fOpenCount g = 0" "start_succeeds env"
  shows "(\<forall>waits d. intr_reach waits (intr_new g) d \<longrightarrow>
       (\<forall>b \<in> set (isr_calls d). b) \<and> asked d = queued d + length (bottom_halves d) \<and>
       (waits \<longrightarrow> (\<forall>b \<in> set (bottom_halves d). b))) \<and>
    (\<exists>d. intr_reach False (intr_new g) d \<and> bottom_halves d = [False])"
proof -
  have "intr_ok waits (intr_new g)" for waits using assms(1) by (simp add: intr_ok_def intr_new_def)
  then have "intr_ok waits d" if "intr_reach waits (intr_new g) d" for waits d using intr.inv_run that by blast
  then show ?thesis using late_run [OF assms] unfolding intr_ok_def by blast
qed

lemma bottom_half_late_witness:
  "\<exists>d. intr_reach False (intr_new ex_device) d \<and> bottom_halves d = [False]"
proof -
  have "device_ok ex_device" "fOpenCount ex_device = 0"
    by (simp_all add: device_ok_def ex_device_def NvHaikuDevice_new_def hw_off_def ex_hw_def bus_master_def)
  moreover have "start_succeeds ex_start" by (simp add: start_succeeds_def ex_start_def)
  ultimately show ?thesis using bottom_half_late [of ex_device ex_start] by blast
qed

end
