(* ===== verification/GpuSteps.thy ===== *)
theory GpuSteps
  imports Interrupts
begin

text \<open>
  One GPU under threads and interrupts, in single operations: \<open>AcquireRef\<close>, \<open>ReleaseRef\<close>, \<open>Start\<close> and
  \<open>Stop\<close> of \<open>nvidia_gsp/nvidia/Device.cpp\<close>. Neither the open count, which is atomic, nor a lock keeps
  \<open>Start\<close> and \<open>Stop\<close> apart, and the interrupt handler may run between any two of their operations. The
  theory first shows that the operations in sequence are \<open>Start\<close> and \<open>Stop\<close>, then what still holds when
  they interleave, and what does not.
\<close>

section \<open>The operations\<close>

text \<open>Where a thread is: the next operation it does. \<open>StartWrite\<close> and \<open>StopWrite\<close> carry the local variable
  \<open>pciConfig\<close>.\<close>

datatype gpu_pc =
    Idle
  | StartRead | StartWrite u32 | StartCount | StartConfigure | StartEnable | StartInstall
  | StartAdapter | StartFlag | StartTakeBack
  | StopTest | StopShutdown | StopFlag | StopIrq | StopRemove | StopDisable | StopUnconfigure
  | StopRead | StopWrite u32

fun op_step :: "start_env \<Rightarrow> gpu_pc \<Rightarrow> nv_device \<Rightarrow> gpu_pc \<times> nv_device" where
  "op_step env Idle d = (Idle, d)"
| "op_step env StartRead d =
     (StartWrite (os_pci_read_dword PCI_command (hw d) OR (PCI_command_io OR PCI_command_memory OR PCI_command_master)), d)"
| "op_step env (StartWrite pciConfig) d = (StartCount, d\<lparr>hw := os_pci_write_dword PCI_command pciConfig (hw d)\<rparr>)"
| "op_step env StartCount d = (if msi_count env < 1 then StartTakeBack else StartConfigure, d)"
| "op_step env StartConfigure d =
     (StartEnable, d\<lparr>fIrq := (case msi_vector env of None \<Rightarrow> fIrq d | Some v \<Rightarrow> v),
                     hw := (hw d)\<lparr>msi_configured := (msi_vector env \<noteq> None \<or> msi_configured (hw d))\<rparr>\<rparr>)"
| "op_step env StartEnable d = (StartInstall, d\<lparr>hw := (hw d)\<lparr>msi_enabled := True\<rparr>\<rparr>)"
| "op_step env StartInstall d = (StartAdapter, d\<lparr>hw := (hw d)\<lparr>handlers := fIrq d # handlers (hw d)\<rparr>\<rparr>)"
| "op_step env StartAdapter d =
     (if init_adapter env then (StartFlag, d\<lparr>hw := (hw d)\<lparr>adapter_up := True\<rparr>\<rparr>) else (StartTakeBack, d))"
| "op_step env StartFlag d = (Idle, d\<lparr>fInitHardware := True\<rparr>)"
| "op_step env StartTakeBack d = (Idle, d\<lparr>fOpenCount := fOpenCount d - 1\<rparr>)"
| "op_step env StopTest d = (if fInitHardware d then StopShutdown else StopIrq, d)"
| "op_step env StopShutdown d = (StopFlag, d\<lparr>hw := (hw d)\<lparr>adapter_up := False\<rparr>\<rparr>)"
| "op_step env StopFlag d = (StopIrq, d\<lparr>fInitHardware := False\<rparr>)"
| "op_step env StopIrq d = (if fIrq d \<noteq> 0 then StopRemove else StopRead, d)"
| "op_step env StopRemove d = (StopDisable, d\<lparr>hw := (hw d)\<lparr>handlers := remove1 (fIrq d) (handlers (hw d))\<rparr>\<rparr>)"
| "op_step env StopDisable d = (StopUnconfigure, d\<lparr>hw := (hw d)\<lparr>msi_enabled := False\<rparr>\<rparr>)"
| "op_step env StopUnconfigure d = (StopRead, d\<lparr>hw := (hw d)\<lparr>msi_configured := False\<rparr>\<rparr>)"
| "op_step env StopRead d = (StopWrite (os_pci_read_dword PCI_command (hw d) AND NOT PCI_command_master), d)"
| "op_step env (StopWrite pciConfig) d = (Idle, d\<lparr>hw := os_pci_write_dword PCI_command pciConfig (hw d)\<rparr>)"

text \<open>A thread with the references handed out so far: \<open>AcquireRef\<close> returns \<open>B_OK\<close> after the last operation
  of \<open>Start\<close>.\<close>

fun thread_op :: "start_env \<Rightarrow> gpu_pc \<times> nv_device \<times> nat \<Rightarrow> gpu_pc \<times> nv_device \<times> nat" where
  "thread_op env (p, d, r) = (let (p1, d1) = op_step env p d in (p1, d1, r + of_bool (p = StartFlag)))"

definition thread_run :: "start_env \<Rightarrow> nat \<Rightarrow> gpu_pc \<times> nv_device \<times> nat \<Rightarrow> gpu_pc \<times> nv_device \<times> nat" where
  "thread_run env n = (thread_op env ^^ n)"

lemma thread_run_0 [simp]: "thread_run env 0 x = x"
  by (simp add: thread_run_def)

lemma thread_run_Suc: "thread_run env (Suc n) x = thread_run env n (thread_op env x)"
  by (simp add: thread_run_def funpow_Suc_right del: funpow.simps)

lemma thread_run_step: "thread_run env (Suc n) x = thread_op env (thread_run env n x)"
  by (simp add: thread_run_def)

lemma thread_run_numeral: "thread_run env (numeral n) x = thread_run env (pred_numeral n) (thread_op env x)"
  by (simp add: numeral_eq_Suc thread_run_Suc)

lemmas thread_run_eval = thread_run_numeral thread_run_Suc

lemma Start_ops_ok:
  assumes "fst (Start env d) = B_OK"
  shows "thread_run env 8 (StartRead, d, r) = (Idle, snd (Start env d), Suc r)"
  using assms by (cases "msi_vector env") (auto simp: thread_run_eval Start_def Let_def os_pci_write_dword_def split: if_splits)

lemma Start_ops_refused:
  assumes "fst (Start env d) = Inl e"
  shows "\<exists>n. thread_run env n (StartRead, d, r) = (StartTakeBack, snd (Start env d), r)"
proof (cases "msi_count env < 1")
  case True
  then have "thread_run env 3 (StartRead, d, r) = (StartTakeBack, snd (Start env d), r)"
    by (simp add: thread_run_eval Start_def Let_def)
  then show ?thesis by blast
next
  case False
  with assms have "thread_run env 7 (StartRead, d, r) = (StartTakeBack, snd (Start env d), r)"
    by (cases "msi_vector env") (auto simp: thread_run_eval Start_def Let_def os_pci_write_dword_def split: if_splits)
  then show ?thesis by blast
qed

lemma Stop_ops: "\<exists>n. thread_run env n (StopTest, d, r) = (Idle, Stop d, r)"
proof -
  have "thread_run env (if fInitHardware d then if fIrq d \<noteq> 0 then 9 else 6 else if fIrq d \<noteq> 0 then 7 else 4) (StopTest, d, r) = (Idle, Stop d, r)"
    by (simp add: thread_run_eval Stop_def Let_def os_pci_read_dword_def os_pci_write_dword_def)
  then show ?thesis by blast
qed


section \<open>Threads and interrupts\<close>

text \<open>\<open>N\<close> threads on one GPU; \<open>ok\<close> restricts what the outside answers to a start. A handle may be closed
  by another thread than the one that opened it, and only an open handle is closed. Interrupts arrive
  while a handler is installed at the vector in use.\<close>

record gpu_sys =
  g_dev :: nv_device
  g_pcs :: "nat \<Rightarrow> gpu_pc"
  g_refs :: nat
  g_queued :: nat

inductive gpu_move :: "nat \<Rightarrow> (start_env \<Rightarrow> bool) \<Rightarrow> gpu_sys \<Rightarrow> gpu_sys \<Rightarrow> bool" for N ok where
  acquire: "t < N \<Longrightarrow> g_pcs s t = Idle \<Longrightarrow>
     gpu_move N ok s (s\<lparr>g_dev := (g_dev s)\<lparr>fOpenCount := fOpenCount (g_dev s) + 1\<rparr>,
                       g_pcs := (g_pcs s)(t := if fOpenCount (g_dev s) = 0 then StartRead else Idle),
                       g_refs := g_refs s + of_bool (fOpenCount (g_dev s) \<noteq> 0)\<rparr>)"
| operation: "t < N \<Longrightarrow> ok env \<Longrightarrow> thread_op env (g_pcs s t, g_dev s, g_refs s) = (p, d, r) \<Longrightarrow>
     gpu_move N ok s (s\<lparr>g_dev := d, g_pcs := (g_pcs s)(t := p), g_refs := r\<rparr>)"
| release: "t < N \<Longrightarrow> g_pcs s t = Idle \<Longrightarrow> 0 < g_refs s \<Longrightarrow>
     gpu_move N ok s (s\<lparr>g_dev := (g_dev s)\<lparr>fOpenCount := fOpenCount (g_dev s) - 1\<rparr>,
                       g_pcs := (g_pcs s)(t := if fOpenCount (g_dev s) = 1 then StopTest else Idle),
                       g_refs := g_refs s - 1\<rparr>)"
| irq: "fIrq (g_dev s) \<in> set (handlers (hw (g_dev s))) \<Longrightarrow> InterruptHandlerInt rm_isr = (answer, add) \<Longrightarrow>
     gpu_move N ok s (s\<lparr>g_queued := g_queued s + of_bool add\<rparr>)"
| dpc: "0 < g_queued s \<Longrightarrow> gpu_move N ok s (s\<lparr>g_queued := g_queued s - 1\<rparr>)"

inductive_cases gpu_moveE: "gpu_move N ok s s'"

definition gpu_start :: "nv_device \<Rightarrow> gpu_sys" where
  "gpu_start d = \<lparr>g_dev = d, g_pcs = (\<lambda>_. Idle), g_refs = 0, g_queued = 0\<rparr>"

inductive gpu_reachable :: "nat \<Rightarrow> (start_env \<Rightarrow> bool) \<Rightarrow> nv_device \<Rightarrow> gpu_sys \<Rightarrow> bool" for N ok d where
  start: "gpu_reachable N ok d (gpu_start d)"
| step: "gpu_reachable N ok d s \<Longrightarrow> gpu_move N ok s s' \<Longrightarrow> gpu_reachable N ok d s'"

text \<open>A thread runs on while the others wait.\<close>

lemma gpu_reachable_run:
  assumes "gpu_reachable N ok d0 s" "t < N" "ok env" "thread_run env n (g_pcs s t, g_dev s, g_refs s) = (p, d, r)"
  shows "gpu_reachable N ok d0 (s\<lparr>g_dev := d, g_pcs := (g_pcs s)(t := p), g_refs := r\<rparr>)"
  using assms(4)
proof (induction n arbitrary: p d r)
  case 0
  have "s\<lparr>g_dev := g_dev s, g_pcs := (g_pcs s)(t := g_pcs s t), g_refs := g_refs s\<rparr> = s" by simp
  then show ?case using assms(1) 0 by (metis prod.inject thread_run_0)
next
  case (Suc n)
  obtain p1 d1 r1 where run: "thread_run env n (g_pcs s t, g_dev s, g_refs s) = (p1, d1, r1)" by (cases "thread_run env n (g_pcs s t, g_dev s, g_refs s)")
  let ?s1 = "s\<lparr>g_dev := d1, g_pcs := (g_pcs s)(t := p1), g_refs := r1\<rparr>"
  have op: "thread_op env (g_pcs ?s1 t, g_dev ?s1, g_refs ?s1) = (p, d, r)"
    using Suc.prems run by (simp add: thread_run_step)
  have "gpu_reachable N ok d0 (?s1\<lparr>g_dev := d, g_pcs := (g_pcs ?s1)(t := p), g_refs := r\<rparr>)"
    by (rule gpu_reachable.step [OF Suc.IH [OF run] gpu_move.operation [where s = ?s1 and t = t and ok = ok and env = env and p = p and d = d and r = r, OF assms(2,3) op]])
  moreover have "?s1\<lparr>g_dev := d, g_pcs := (g_pcs ?s1)(t := p), g_refs := r\<rparr> = s\<lparr>g_dev := d, g_pcs := (g_pcs s)(t := p), g_refs := r\<rparr>"
    by (rule gpu_sys.equality) auto
  ultimately show ?case by metis
qed

section \<open>The count stays exact\<close>

text \<open>Threads that have added to the count and have no reference.\<close>

fun starting :: "gpu_pc \<Rightarrow> bool" where
  "starting StartRead = True" | "starting (StartWrite v) = True" | "starting StartCount = True"
| "starting StartConfigure = True" | "starting StartEnable = True" | "starting StartInstall = True"
| "starting StartAdapter = True" | "starting StartFlag = True" | "starting _ = False"

definition pending :: "gpu_pc \<Rightarrow> bool" where "pending p \<longleftrightarrow> starting p \<or> p = StartTakeBack"

definition pending_threads :: "nat \<Rightarrow> (nat \<Rightarrow> gpu_pc) \<Rightarrow> nat" where
  "pending_threads N f = card {t. t < N \<and> pending (f t)}"

definition gpu_count_exact :: "nat \<Rightarrow> gpu_sys \<Rightarrow> bool" where
  "gpu_count_exact N s \<longleftrightarrow>
     fOpenCount (g_dev s) = int (g_refs s) + int (pending_threads N (g_pcs s))"

definition gpu_one_starter :: "nat \<Rightarrow> gpu_sys \<Rightarrow> bool" where
  "gpu_one_starter N s \<longleftrightarrow>
     (\<forall>t < N. \<forall>u < N. starting (g_pcs s t) \<longrightarrow> starting (g_pcs s u) \<longrightarrow> t = u)"

lemma pending_threads_upd:
  assumes "t < N"
  shows "int (pending_threads N (f(t := p))) = int (pending_threads N f) - of_bool (pending (f t)) + of_bool (pending p)"
proof -
  let ?A = "{u. u < N \<and> u \<noteq> t \<and> pending (f u)}"
  have "{u. u < N \<and> pending (f u)} = (if pending (f t) then insert t ?A else ?A)"
    "{u. u < N \<and> pending ((f(t := p)) u)} = (if pending p then insert t ?A else ?A)"
    using assms by auto
  then show ?thesis unfolding pending_threads_def by simp
qed

lemma pending_simps [simp]: "\<not> pending Idle" "pending StartRead" "\<not> pending StopTest"
  by (simp_all add: pending_def)

lemma op_step_count:
  assumes "op_step env p d = (p1, d1)"
  shows "fOpenCount d1 = fOpenCount d - of_bool (p = StartTakeBack) \<and> (starting p1 \<longrightarrow> starting p) \<and>
    pending p1 = (pending p \<and> p \<noteq> StartTakeBack \<and> p \<noteq> StartFlag)"
  using assms by (cases p) (auto simp: pending_def split: if_splits)

lemma gpu_count_exact_step: "gpu_move N ok s s' \<Longrightarrow> gpu_count_exact N s \<Longrightarrow> gpu_count_exact N s'"
proof (induction rule: gpu_move.induct)
  case (operation t env s p d r)
  then have op: "op_step env (g_pcs s t) (g_dev s) = (p, d)" and r: "r = g_refs s + of_bool (g_pcs s t = StartFlag)"
    by (auto split: prod.splits)
  from op_step_count [OF op] operation(1,4) show ?case
    by (simp add: gpu_count_exact_def pending_threads_upd r) (auto simp: pending_def)
qed (auto simp: gpu_count_exact_def pending_threads_upd)

lemma gpu_one_starter_step:
  "gpu_move N ok s s' \<Longrightarrow> gpu_count_exact N s \<Longrightarrow> gpu_one_starter N s \<Longrightarrow> gpu_one_starter N s'"
proof (induction rule: gpu_move.induct)
  case (acquire t s)
  have none: "\<not> starting (g_pcs s u)" if "u < N" "fOpenCount (g_dev s) = 0" for u
  proof -
    have "pending_threads N (g_pcs s) = 0" using acquire that(2) by (simp add: gpu_count_exact_def)
    then have "{t. t < N \<and> pending (g_pcs s t)} = {}" by (simp add: pending_threads_def)
    then show ?thesis using that(1) by (auto simp: pending_def)
  qed
  then show ?case using acquire by (auto simp: gpu_one_starter_def)
next
  case (operation t env s p d r)
  then have "op_step env (g_pcs s t) (g_dev s) = (p, d)" by (auto split: prod.splits)
  from op_step_count [OF this] operation(5) show ?case
    by (auto simp: gpu_one_starter_def operation(1))
qed (auto simp: gpu_one_starter_def)

interpretation gpu: invariant_system "\<lambda>s. fOpenCount d = 0 \<and> s = gpu_start d" "gpu_move N ok"
    "\<lambda>s. fOpenCount d = 0 \<and> gpu_reachable N ok d s" "\<lambda>s. gpu_count_exact N s \<and> gpu_one_starter N s"
proof
  fix s I
  assume reach: "fOpenCount d = 0 \<and> gpu_reachable N ok d s" and first: "\<And>s. fOpenCount d = 0 \<and> s = gpu_start d \<Longrightarrow> I s"
    and next_one: "\<And>s t. fOpenCount d = 0 \<and> gpu_reachable N ok d s \<Longrightarrow> I s \<Longrightarrow> gpu_move N ok s t \<Longrightarrow> I t"
  from reach have "gpu_reachable N ok d s" "fOpenCount d = 0" by blast+
  then show "I s" by (induction rule: gpu_reachable.induct) (blast intro: first next_one)+
next
  show "gpu_count_exact N s \<and> gpu_one_starter N s" if "fOpenCount d = 0 \<and> s = gpu_start d" for s
    using that by (simp add: gpu_count_exact_def gpu_one_starter_def gpu_start_def pending_threads_def)
qed (auto intro: gpu_reachable.intros gpu_count_exact_step gpu_one_starter_step)

lemma gpu_reachable_inv:
  "gpu_reachable N ok d s \<Longrightarrow> fOpenCount d = 0 \<Longrightarrow> gpu_count_exact N s \<and> gpu_one_starter N s"
  using gpu.inv_reach by blast

text \<open>
  The open count is exact under every interleaving of the single operations, interrupts included:
  it is the number of references handed out plus the number of threads that are inside a start or about
  to take a failed one back, and two threads are never inside \<open>Start\<close>.
\<close>

theorem gpu_count_in_operations:
  assumes "gpu_reachable N ok d s" "fOpenCount d = 0"
  shows "fOpenCount (g_dev s) = int (g_refs s) + int (card {t. t < N \<and> pending (g_pcs s t)}) \<and>
    (\<forall>t < N. \<forall>u < N. starting (g_pcs s t) \<longrightarrow> starting (g_pcs s u) \<longrightarrow> t = u)"
  using gpu_reachable_inv [OF assms]
  by (simp add: gpu_count_exact_def gpu_one_starter_def pending_threads_def)

text \<open>Two threads, one of which opens the device.\<close>

lemma gpu_count_in_operations_witness:
  "\<exists>s. gpu_reachable 2 start_succeeds ex_device s \<and> g_pcs s 1 = StartRead \<and>
     fOpenCount (g_dev s) = int (g_refs s) + int (card {t. t < 2 \<and> pending (g_pcs s t)}) \<and> fOpenCount (g_dev s) = 1"
proof -
  let ?s = "\<lparr>g_dev = ex_device\<lparr>fOpenCount := 1\<rparr>, g_pcs = (\<lambda>_. Idle)(1 := StartRead), g_refs = 0, g_queued = 0\<rparr>"
  have off: "fOpenCount ex_device = 0" by (simp add: ex_device_def NvHaikuDevice_new_def)
  have s: "gpu_reachable 2 start_succeeds ex_device ?s"
    using gpu_reachable.step [OF gpu_reachable.start gpu_move.acquire [where s = "gpu_start ex_device" and t = 1]] off
    by (simp add: gpu_start_def)
  from gpu_count_in_operations [OF s off] s show ?thesis by (intro exI [of _ ?s]) simp
qed

section \<open>A close overtaken by an open\<close>

text \<open>A thread closes the last handle and is stopped before the first operation of \<open>Stop\<close>; another one
  opens the device, and runs \<open>Start\<close> to its end; then the first goes on.\<close>

lemma overtaken:
  assumes env: "start_succeeds env" and off: "fOpenCount d = 0" "hw_off (hw d)"
  shows "\<exists>s. gpu_reachable 2 start_succeeds d s \<and> (\<forall>t. g_pcs s t = Idle) \<and> g_refs s = 1 \<and> fOpenCount (g_dev s) = 1 \<and>
    \<not> powered (g_dev s) \<and> \<not> msi_enabled (hw (g_dev s)) \<and> \<not> bus_master (hw (g_dev s))"
proof -
  let ?R = "gpu_reachable 2 start_succeeds d"
  have acquire: "?R (s\<lparr>g_dev := (g_dev s)\<lparr>fOpenCount := 1\<rparr>, g_pcs := (g_pcs s)(t := StartRead)\<rparr>)"
    if "?R s" "t < 2" "g_pcs s t = Idle" "fOpenCount (g_dev s) = 0" for s t
    using gpu_reachable.step [OF that(1) gpu_move.acquire [OF that(2,3)]] that(4) by simp
  define d1 where "d1 = snd (Start env (d\<lparr>fOpenCount := 1\<rparr>))"
  define d2 where "d2 = snd (Start env (d1\<lparr>fOpenCount := 1\<rparr>))"
  have ok: "fst (Start env x) = B_OK" for x using env by (auto simp: start_succeeds_def Start_def Let_def split: option.splits)
  note run1 = Start_ops_ok [OF ok, of "d\<lparr>fOpenCount := 1\<rparr>" 0, folded d1_def]
  note run2 = Start_ops_ok [OF ok, of "d1\<lparr>fOpenCount := 1\<rparr>" 0, folded d2_def]
  obtain n where stop: "thread_run env n (StopTest, d2, 1) = (Idle, Stop d2, 1)" using Stop_ops by blast
  have count: "fOpenCount d1 = 1" "fOpenCount d2 = 1" by (simp_all add: d1_def d2_def)
  let ?s1 = "\<lparr>g_dev = d\<lparr>fOpenCount := 1\<rparr>, g_pcs = (\<lambda>_. Idle)(0 := StartRead), g_refs = 0, g_queued = 0\<rparr>"
  let ?s2 = "\<lparr>g_dev = d1, g_pcs = (\<lambda>_. Idle), g_refs = 1, g_queued = 0\<rparr>"
  let ?s3 = "\<lparr>g_dev = d1\<lparr>fOpenCount := 0\<rparr>, g_pcs = (\<lambda>_. Idle)(0 := StopTest), g_refs = 0, g_queued = 0\<rparr>"
  let ?s4 = "\<lparr>g_dev = d1\<lparr>fOpenCount := 1\<rparr>, g_pcs = (\<lambda>_. Idle)(0 := StopTest, 1 := StartRead), g_refs = 0, g_queued = 0\<rparr>"
  let ?s5 = "\<lparr>g_dev = d2, g_pcs = (\<lambda>_. Idle)(0 := StopTest), g_refs = 1, g_queued = 0\<rparr>"
  let ?s6 = "\<lparr>g_dev = Stop d2, g_pcs = (\<lambda>_. Idle), g_refs = 1, g_queued = 0\<rparr>"
  have "?R ?s1" using acquire [OF gpu_reachable.start, of 0] off(1) by (simp add: gpu_start_def)
  then have "?R ?s2" using gpu_reachable_run [of 2 start_succeeds d ?s1 0 env 8] env run1 by simp
  then have "?R ?s3" using gpu_reachable.step [OF \<open>?R ?s2\<close> gpu_move.release [where s = ?s2 and t = 0]] count by simp
  then have "?R ?s4" using acquire [OF \<open>?R ?s3\<close>, of 1] by simp
  then have "?R ?s5"
    using gpu_reachable_run [of 2 start_succeeds d ?s4 1 env 8] env run2 by (simp add: fun_upd_twist)
  then have "?R ?s6" using gpu_reachable_run [of 2 start_succeeds d ?s5 0 env n] env stop by simp
  moreover have "fOpenCount (Stop d2) = 1" "\<not> powered (Stop d2)" "\<not> msi_enabled (hw (Stop d2))" "\<not> bus_master (hw (Stop d2))"
  proof -
    have "fIrq d2 \<noteq> 0" "fInitHardware d2"
      using env by (auto simp: d2_def start_succeeds_def Start_def Let_def split: option.splits)
    then show "fOpenCount (Stop d2) = 1" "\<not> powered (Stop d2)" "\<not> msi_enabled (hw (Stop d2))" "\<not> bus_master (hw (Stop d2))"
      using count by (simp_all add: Stop_def Let_def powered_def bus_master_def command_bits os_pci_write_dword_def)
  qed
  ultimately show ?thesis by (intro exI [of _ ?s6]) simp
qed

text \<open>
  C7: a GPU can be shut down under the client that has just opened it. Even when every start succeeds, some
  interleaving of two threads ends with all threads idle, one handle open and the open count at one, but
  with the adapter shut down, MSI disabled and bus mastering off: \<open>Stop\<close> of the last close runs after
  \<open>Start\<close> of the next open. Every further open then joins without starting the GPU.
\<close>

theorem close_overtaken_by_open:
  assumes "start_succeeds env" "fOpenCount d = 0" "hw_off (hw d)"
  shows "\<exists>s. gpu_reachable 2 start_succeeds d s \<and> (\<forall>t. g_pcs s t = Idle) \<and> g_refs s = 1 \<and>
    fOpenCount (g_dev s) = 1 \<and> \<not> powered (g_dev s) \<and> \<not> msi_enabled (hw (g_dev s)) \<and> \<not> bus_master (hw (g_dev s)) \<and>
    (\<forall>env. fst (AcquireRef env (g_dev s)) = B_OK \<and> \<not> powered (snd (AcquireRef env (g_dev s))))"
proof -
  from overtaken [OF assms] obtain s where s: "gpu_reachable 2 start_succeeds d s" "\<forall>t. g_pcs s t = Idle" "g_refs s = 1"
    "fOpenCount (g_dev s) = 1" "\<not> powered (g_dev s)" "\<not> msi_enabled (hw (g_dev s))" "\<not> bus_master (hw (g_dev s))"
    by blast
  moreover have "fst (AcquireRef env' (g_dev s)) = B_OK \<and> \<not> powered (snd (AcquireRef env' (g_dev s)))" for env'
    using s(4,5) by (simp add: AcquireRef_open powered_def)
  ultimately show ?thesis by blast
qed

lemma close_overtaken_by_open_witness:
  "\<exists>s. gpu_reachable 2 start_succeeds ex_device s \<and> fOpenCount (g_dev s) = 1 \<and> \<not> powered (g_dev s)"
proof -
  have "start_succeeds ex_start" "fOpenCount ex_device = 0" "hw_off (hw ex_device)"
    by (simp_all add: start_succeeds_def ex_start_def ex_device_def NvHaikuDevice_new_def hw_off_def ex_hw_def bus_master_def)
  from close_overtaken_by_open [OF this] show ?thesis by blast
qed

section \<open>One open or close at a time\<close>

text \<open>What holds of the hardware at each operation when opens and closes do not overlap and all starts
  succeed: the adapter, the handler, MSI enabled and configured, bus mastering.\<close>

definition hw_is :: "nv_device \<Rightarrow> bool \<Rightarrow> bool \<Rightarrow> bool \<Rightarrow> bool \<Rightarrow> bool \<Rightarrow> bool" where
  "hw_is d a h e c m \<longleftrightarrow>
     adapter_up (hw d) = a \<and> handlers (hw d) = (if h then [fIrq d] else []) \<and> msi_enabled (hw d) = e \<and>
     msi_configured (hw d) = c \<and> bus_master (hw d) = m \<and> (c \<longrightarrow> fIrq d \<noteq> 0)"

fun serial :: "gpu_pc \<Rightarrow> nv_device \<Rightarrow> bool" where
  "serial Idle d = device_ok d"
| "serial StartRead d = (fOpenCount d = 1 \<and> \<not> fInitHardware d \<and> hw_is d False False False False False)"
| "serial (StartWrite v) d = (fOpenCount d = 1 \<and> \<not> fInitHardware d \<and> hw_is d False False False False False \<and> bit v 2)"
| "serial StartCount d = (fOpenCount d = 1 \<and> \<not> fInitHardware d \<and> hw_is d False False False False True)"
| "serial StartConfigure d = (fOpenCount d = 1 \<and> \<not> fInitHardware d \<and> hw_is d False False False False True)"
| "serial StartEnable d = (fOpenCount d = 1 \<and> \<not> fInitHardware d \<and> hw_is d False False False True True)"
| "serial StartInstall d = (fOpenCount d = 1 \<and> \<not> fInitHardware d \<and> hw_is d False False True True True)"
| "serial StartAdapter d = (fOpenCount d = 1 \<and> \<not> fInitHardware d \<and> hw_is d False True True True True)"
| "serial StartFlag d = (fOpenCount d = 1 \<and> \<not> fInitHardware d \<and> hw_is d True True True True True)"
| "serial StartTakeBack d = False"
| "serial StopTest d = (fOpenCount d = 0 \<and> fInitHardware d \<and> hw_is d True True True True True)"
| "serial StopShutdown d = (fOpenCount d = 0 \<and> fInitHardware d \<and> hw_is d True True True True True)"
| "serial StopFlag d = (fOpenCount d = 0 \<and> fInitHardware d \<and> hw_is d False True True True True)"
| "serial StopIrq d = (fOpenCount d = 0 \<and> \<not> fInitHardware d \<and> hw_is d False True True True True)"
| "serial StopRemove d = (fOpenCount d = 0 \<and> \<not> fInitHardware d \<and> hw_is d False True True True True)"
| "serial StopDisable d = (fOpenCount d = 0 \<and> \<not> fInitHardware d \<and> hw_is d False False True True True)"
| "serial StopUnconfigure d = (fOpenCount d = 0 \<and> \<not> fInitHardware d \<and> hw_is d False False False True True)"
| "serial StopRead d = (fOpenCount d = 0 \<and> \<not> fInitHardware d \<and> hw_is d False False False False True)"
| "serial (StopWrite v) d = (fOpenCount d = 0 \<and> \<not> fInitHardware d \<and> hw_is d False False False False True \<and> \<not> bit v 2)"

lemma serial_op_step:
  assumes "serial p d" "start_succeeds env" "op_step env p d = (p1, d1)"
  shows "serial p1 d1"
proof -
  obtain v where env: "msi_vector env = Some v" "v \<noteq> 0" "\<not> msi_count env < 1" "init_adapter env"
    using assms(2) by (auto simp: start_succeeds_def split: option.splits)
  show ?thesis using assms(1,3) env
    by (cases p)
      (auto simp: hw_is_def bus_master_def command_bits os_pci_write_dword_def device_ok_def hw_on_def hw_off_def)
qed

lemma serial_step:
  assumes "gpu_move 1 start_succeeds s s'" "serial (g_pcs s 0) (g_dev s)" "gpu_count_exact 1 s"
  shows "serial (g_pcs s' 0) (g_dev s')"
  using assms
proof (induction rule: gpu_move.induct)
  case (acquire t s)
  then show ?case by (auto simp: device_ok_def hw_is_def hw_off_def)
next
  case (operation t env s p d r)
  then have t: "t = 0" and "op_step env (g_pcs s 0) (g_dev s) = (p, d)" by (auto split: prod.splits)
  then show ?case using serial_op_step operation(2,4) by simp
next
  case (release t s)
  then show ?case by (auto simp: device_ok_def hw_is_def hw_on_def gpu_count_exact_def split: if_splits)
qed simp_all

lemma serial_reachable:
  "gpu_reachable 1 start_succeeds d s \<Longrightarrow> device_ok d \<Longrightarrow> fOpenCount d = 0 \<Longrightarrow> serial (g_pcs s 0) (g_dev s)"
proof (induction rule: gpu_reachable.induct)
  case (step s s')
  then show ?case using serial_step gpu_reachable_inv [OF step.hyps(1)] by blast
qed (simp add: gpu_start_def)

definition windows :: "gpu_pc set" where
  "windows = {StartAdapter, StopFlag, StopIrq, StopRemove}"

lemma serial_windows:
  "serial p d \<Longrightarrow> fIrq d \<in> set (handlers (hw d)) \<Longrightarrow> adapter_up (hw d) \<or> p \<in> windows"
  by (cases p) (auto simp: hw_is_def windows_def device_ok_def hw_on_def hw_off_def split: if_splits)

text \<open>The three moments exist.\<close>

lemma windows_reached:
  assumes env: "start_succeeds env" and d: "device_ok d" "fOpenCount d = 0"
  shows "\<exists>s. gpu_reachable 1 start_succeeds d s \<and> g_pcs s 0 = StartAdapter"
    and "\<exists>s. gpu_reachable 1 start_succeeds d s \<and> g_pcs s 0 = StopRemove"
    and "\<exists>s. gpu_reachable 1 start_succeeds d s \<and> g_pcs s 0 = Idle \<and> fOpenCount (g_dev s) = 0 \<and> 0 < g_queued s"
proof -
  let ?R = "gpu_reachable 1 start_succeeds d"
  define d1 where "d1 = snd (Start env (d\<lparr>fOpenCount := 1\<rparr>))"
  have answers: "\<not> msi_count env < 1" "init_adapter env" using env by (auto simp: start_succeeds_def)
  have ok: "fst (Start env x) = B_OK" for x using answers by (simp add: Start_def Let_def)
  let ?s1 = "\<lparr>g_dev = d\<lparr>fOpenCount := 1\<rparr>, g_pcs = (\<lambda>_. Idle)(0 := StartRead), g_refs = 0, g_queued = 0\<rparr>"
  let ?s2 = "\<lparr>g_dev = d1, g_pcs = (\<lambda>_. Idle), g_refs = 1, g_queued = 0\<rparr>"
  have s1: "?R ?s1"
    using gpu_reachable.step [OF gpu_reachable.start gpu_move.acquire [where s = "gpu_start d" and t = 0]] d(2)
    by (simp add: gpu_start_def)
  obtain d' where "thread_run env 6 (StartRead, d\<lparr>fOpenCount := 1\<rparr>, 0) = (StartAdapter, d', 0)"
    using answers by (simp add: thread_run_eval)
  then show "\<exists>s. ?R s \<and> g_pcs s 0 = StartAdapter"
    using gpu_reachable_run [OF s1, of 0 env 6] env by fastforce
  have s2: "?R ?s2"
    using gpu_reachable_run [OF s1, of 0 env 8] env Start_ops_ok [OF ok, of "d\<lparr>fOpenCount := 1\<rparr>" 0, folded d1_def] by simp
  from serial_reachable [OF this d] have "device_ok d1" by simp
  moreover have count: "fOpenCount d1 = 1" by (simp add: d1_def)
  ultimately have on: "fInitHardware d1" "hw_on (fIrq d1) (hw d1)" by (simp_all add: device_ok_def)
  let ?s3 = "\<lparr>g_dev = d1, g_pcs = (\<lambda>_. Idle), g_refs = 1, g_queued = 1\<rparr>"
  have "gpu_move 1 start_succeeds ?s2 ?s3"
    using gpu_move.irq [of ?s2 "(True, True)" B_HANDLED_INTERRUPT True 1 start_succeeds] on
    by (simp add: hw_on_def InterruptHandlerInt_def)
  with s2 have s3: "?R ?s3" by (rule gpu_reachable.step)
  let ?s4 = "\<lparr>g_dev = d1\<lparr>fOpenCount := 0\<rparr>, g_pcs = (\<lambda>_. Idle)(0 := StopTest), g_refs = 0, g_queued = 1\<rparr>"
  have s4: "?R ?s4" using gpu_reachable.step [OF s3 gpu_move.release [where s = ?s3 and t = 0]] count by simp
  obtain d'' where "thread_run env 4 (StopTest, d1\<lparr>fOpenCount := 0\<rparr>, 0) = (StopRemove, d'', 0)"
    using on by (simp add: thread_run_eval hw_on_def)
  then show "\<exists>s. ?R s \<and> g_pcs s 0 = StopRemove"
    using gpu_reachable_run [OF s4, of 0 env 4] env by fastforce
  obtain n where "thread_run env n (StopTest, d1\<lparr>fOpenCount := 0\<rparr>, 0) = (Idle, Stop (d1\<lparr>fOpenCount := 0\<rparr>), 0)"
    using Stop_ops by blast
  then have "?R \<lparr>g_dev = Stop (d1\<lparr>fOpenCount := 0\<rparr>), g_pcs = (\<lambda>_. Idle), g_refs = 0, g_queued = 1\<rparr>"
    using gpu_reachable_run [OF s4, of 0 env n] env by simp
  moreover have "fOpenCount (Stop (d1\<lparr>fOpenCount := 0\<rparr>)) = 0" by (simp add: Stop_def Let_def)
  ultimately show "\<exists>s. ?R s \<and> g_pcs s 0 = Idle \<and> fOpenCount (g_dev s) = 0 \<and> 0 < g_queued s" by force
qed



end
