(* ===== verification/DeviceNames.thy ===== *)
theory DeviceNames
  imports Prelude
begin

text \<open>
  Device names: \<open>ParseUint32\<close> and \<open>ParseDeviceName\<close> of \<open>nvidia_gsp/nvidia/Driver.cpp\<close>, the
  names array of \<open>nvidia_gsp/DeviceNamesArray.{h,cpp}\<close>, and the use \<open>NvHaikuDriver\<close> makes of
  both when it publishes and looks up its devices. A C string is a \<open>string\<close> without the
  terminating zero; \<open>*strEnd == '\0'\<close> is \<open>strEnd = []\<close>.
\<close>

section \<open>Decimal numbers of the C library\<close>

definition is_digit :: "char \<Rightarrow> bool" where
  "is_digit c \<longleftrightarrow> 48 \<le> (of_char c :: nat) \<and> (of_char c :: nat) \<le> 57"

definition is_space :: "char \<Rightarrow> bool" where
  "is_space c \<longleftrightarrow> (of_char c :: nat) = 32 \<or> (9 \<le> (of_char c :: nat) \<and> (of_char c :: nat) \<le> 13)"

definition digit_val :: "char \<Rightarrow> nat" where
  "digit_val c = of_char c - 48"

definition digit_char :: "nat \<Rightarrow> char" where
  "digit_char d = char_of (48 + d)"

definition digits_val :: "string \<Rightarrow> nat" where
  "digits_val ds = foldl (\<lambda>v c. 10 * v + digit_val c) 0 ds"

definition LONG_MAX :: int where "LONG_MAX = 2 ^ 63 - 1"
definition LONG_MIN :: int where "LONG_MIN = - (2 ^ 63)"
definition UINT32_MAX :: int where "UINT32_MAX = 2 ^ 32 - 1"

text \<open>\<open>strtol(str, &strEnd, 10)\<close>: the value, the rest of the string and whether \<open>errno\<close> was set
  to \<open>ERANGE\<close>.\<close>

definition strtol10 :: "string \<Rightarrow> int \<times> string \<times> bool" where
  "strtol10 str =
     (let s1 = dropWhile is_space str;
          neg = (s1 \<noteq> [] \<and> hd s1 = CHR ''-'');
          s2 = (if s1 \<noteq> [] \<and> (hd s1 = CHR ''-'' \<or> hd s1 = CHR ''+'') then tl s1 else s1);
          ds = takeWhile is_digit s2;
          rest = dropWhile is_digit s2;
          v = (if neg then - int (digits_val ds) else int (digits_val ds))
      in if ds = [] then (0, str, False)
         else if v > LONG_MAX then (LONG_MAX, rest, True)
         else if v < LONG_MIN then (LONG_MIN, rest, True)
         else (v, rest, False))"

text \<open>\<open>sprintf("%d", n)\<close> of a number that is not negative.\<close>

fun show_nat :: "nat \<Rightarrow> string" where
  "show_nat n = (if n < 10 then [digit_char n] else show_nat (n div 10) @ [digit_char (n mod 10)])"

declare show_nat.simps [simp del]

section \<open>Parsing a device name\<close>

definition NVIDIA_CONTROL_DEVIVE_NAME :: string where
  "NVIDIA_CONTROL_DEVIVE_NAME = ''nvidiactl''"

definition NVIDIA_DEVIVE_NAME :: string where
  "NVIDIA_DEVIVE_NAME = ''graphics/nvidia''"

text \<open>The code never clears \<open>errno\<close>: \<open>errno0\<close> says whether it is \<open>ERANGE\<close> already.\<close>

definition ParseUint32 :: "bool \<Rightarrow> string \<Rightarrow> (string \<times> u32) option" where
  "ParseUint32 errno0 str =
     (if \<not> (str = ''0'' \<or> (str \<noteq> [] \<and> is_digit (hd str) \<and> hd str \<noteq> CHR ''0'')) then None
      else let (val, strEnd, erange) = strtol10 str
           in if strEnd = str then None
              else if (val = LONG_MIN \<or> val = LONG_MAX) \<and> (erange \<or> errno0) then None
              else if val < 0 \<or> val > UINT32_MAX then None
              else Some (strEnd, word_of_int val))"

definition ParseDeviceName :: "bool \<Rightarrow> string \<Rightarrow> u32 option" where
  "ParseDeviceName errno0 name =
     (let deviceNamePrefix = NVIDIA_DEVIVE_NAME; deviceNamePrefixLen = length deviceNamePrefix
      in if take deviceNamePrefixLen name \<noteq> deviceNamePrefix then None
         else case ParseUint32 errno0 (drop deviceNamePrefixLen name) of
                None \<Rightarrow> None
              | Some (strEnd, index) \<Rightarrow> if strEnd \<noteq> [] then None else Some index)"

text \<open>\<open>sprintf(name, NVIDIA_DEVIVE_NAME "%d", i)\<close> in \<open>NvHaikuDriver::Init\<close>.\<close>

definition device_name :: "nat \<Rightarrow> string" where
  "device_name i = NVIDIA_DEVIVE_NAME @ show_nat i"

section \<open>Printing and reading decimal numbers\<close>

lemma of_char_digit_char: "d < 10 \<Longrightarrow> (of_char (digit_char d) :: nat) = 48 + d"
  by (simp add: digit_char_def)

lemma digit_char_simps [simp]:
  "d < 10 \<Longrightarrow> is_digit (digit_char d)" "d < 10 \<Longrightarrow> digit_val (digit_char d) = d"
  by (simp_all add: is_digit_def digit_val_def of_char_digit_char)

lemma digit_char_val: "is_digit c \<Longrightarrow> digit_char (digit_val c) = c"
  by (simp add: digit_char_def digit_val_def is_digit_def)

lemma digit_val_less: "is_digit c \<Longrightarrow> digit_val c < 10"
  unfolding digit_val_def is_digit_def by linarith

lemma digit_char_0: "digit_char 0 = CHR ''0''"
proof -
  have "digit_char 0 = char_of (of_char (CHR ''0'') :: nat)" by (simp add: digit_char_def)
  then show ?thesis by (simp only: char_of_char)
qed

lemma digits_val_snoc [simp]: "digits_val (ds @ [c]) = 10 * digits_val ds + digit_val c"
  by (simp add: digits_val_def)

lemma digits_val_Nil [simp]: "digits_val [] = 0"
  by (simp add: digits_val_def)

lemma digits_val_show: "digits_val (show_nat n) = n"
proof (induction n rule: show_nat.induct)
  case (1 n)
  show ?case
  proof (cases "n < 10")
    case True
    then show ?thesis using digits_val_snoc [of "[]" "digit_char n"] by (subst show_nat.simps) simp
  next
    case False
    with 1 show ?thesis by (subst show_nat.simps) simp
  qed
qed

lemma show_nat_digits: "show_nat n \<noteq> [] \<and> (\<forall>c \<in> set (show_nat n). is_digit c)"
proof (induction n rule: show_nat.induct)
  case (1 n)
  then show ?case by (subst (1 2) show_nat.simps) auto
qed

lemma show_nat_hd: "n \<noteq> 0 \<Longrightarrow> hd (show_nat n) \<noteq> CHR ''0''"
proof (induction n rule: show_nat.induct)
  case (1 n)
  show ?case
  proof (cases "n < 10")
    case True
    have "digit_char n \<noteq> digit_char 0"
      using "1.prems" True of_char_digit_char [of n] of_char_digit_char [of 0] by auto
    with True show ?thesis by (subst show_nat.simps) (simp add: digit_char_0)
  next
    case False
    with 1 show_nat_digits [of "n div 10"] show ?thesis by (subst show_nat.simps) simp
  qed
qed

text \<open>A digit string without a leading zero is what printing its value gives.\<close>

lemma digits_val_pos: "ds \<noteq> [] \<Longrightarrow> \<forall>c \<in> set ds. is_digit c \<Longrightarrow> hd ds \<noteq> CHR ''0'' \<Longrightarrow> 0 < digits_val ds"
proof (induction ds rule: rev_induct)
  case (snoc c ds)
  show ?case
  proof (cases "ds = []")
    case True
    have "digit_val c \<noteq> 0"
    proof
      assume "digit_val c = 0"
      with snoc.prems True digit_char_val [of c] digit_char_0 show False by simp
    qed
    with True show ?thesis using digits_val_snoc [of "[]" c] by simp
  qed (use snoc in simp)
qed simp

lemma show_digits_val:
  "ds \<noteq> [] \<Longrightarrow> \<forall>c \<in> set ds. is_digit c \<Longrightarrow> hd ds \<noteq> CHR ''0'' \<Longrightarrow> show_nat (digits_val ds) = ds"
proof (induction ds rule: rev_induct)
  case (snoc c ds)
  from snoc.prems have c: "digit_val c < 10" "digit_char (digit_val c) = c"
    by (simp_all add: digit_val_less digit_char_val)
  show ?case
  proof (cases "ds = []")
    case True
    with c show ?thesis using digits_val_snoc [of "[]" c] by (subst show_nat.simps) simp
  next
    case False
    with snoc have "show_nat (digits_val ds) = ds" "0 < digits_val ds"
      by (auto intro: digits_val_pos)
    with c show ?thesis by (subst show_nat.simps) simp
  qed
qed simp

lemma show_nat_inj: "show_nat m = show_nat n \<longleftrightarrow> m = n"
  by (metis digits_val_show)

lemma device_name_inj: "device_name m = device_name n \<longleftrightarrow> m = n"
  by (simp add: device_name_def show_nat_inj)

lemma control_name_not_device: "device_name n \<noteq> NVIDIA_CONTROL_DEVIVE_NAME"
  by (simp add: device_name_def NVIDIA_DEVIVE_NAME_def NVIDIA_CONTROL_DEVIVE_NAME_def)

section \<open>What the parser accepts\<close>

lemma digit_not_space: "is_digit c \<Longrightarrow> \<not> is_space c"
  by (auto simp: is_digit_def is_space_def)

lemma digit_not_sign: "is_digit c \<Longrightarrow> c \<noteq> CHR ''-'' \<and> c \<noteq> CHR ''+''"
  by (auto simp: is_digit_def)

lemma is_digit_0: "is_digit (CHR ''0'')"
  by (simp add: is_digit_def)

lemma strtol10_digits:
  assumes "str \<noteq> []" "is_digit (hd str)"
  shows "strtol10 str =
    (let v = int (digits_val (takeWhile is_digit str)); rest = dropWhile is_digit str
     in if v > LONG_MAX then (LONG_MAX, rest, True) else (v, rest, False))"
proof -
  obtain c cs where str: "str = c # cs" "is_digit c" using assms by (cases str) auto
  have "LONG_MIN < 0" by (simp add: LONG_MIN_def)
  then show ?thesis
    using str digit_not_space [of c] digit_not_sign [of c]
    by (simp add: strtol10_def Let_def)
qed

lemma ParseUint32_accepts:
  "ParseUint32 e str = Some ([], w) \<longleftrightarrow> str = show_nat (unat w)"
proof
  assume parse: "ParseUint32 e str = Some ([], w)"
  then have start: "str = ''0'' \<or> (str \<noteq> [] \<and> is_digit (hd str) \<and> hd str \<noteq> CHR ''0'')"
    by (auto simp: ParseUint32_def split: if_splits)
  then have ne: "str \<noteq> []" and hd: "is_digit (hd str)" using is_digit_0 by auto
  define v where "v = digits_val (takeWhile is_digit str)"
  from parse start have "dropWhile is_digit str = []" "w = word_of_int (int v)" "int v \<le> UINT32_MAX"
    by (auto simp: ParseUint32_def strtol10_digits [OF ne hd] v_def Let_def LONG_MAX_def
        UINT32_MAX_def split: if_splits)
  then have "takeWhile is_digit str = str" and w: "unat w = v"
    by (metis append_Nil2 takeWhile_dropWhile_id)
      (use \<open>w = word_of_int (int v)\<close> \<open>int v \<le> UINT32_MAX\<close> in
        \<open>simp add: UINT32_MAX_def unat_of_nat_lt\<close>)
  then have all: "\<forall>c \<in> set str. is_digit c" and v: "v = digits_val str"
    by (metis set_takeWhileD) (simp add: v_def \<open>takeWhile is_digit str = str\<close>)
  show "str = show_nat (unat w)"
  proof (cases "str = ''0''")
    case True
    then have "v = 0" using v digits_val_snoc [of "[]" "CHR ''0''"] by (simp add: digit_val_def)
    with True w show ?thesis by (subst show_nat.simps) (simp add: digit_char_0)
  next
    case False
    with start all ne v w show ?thesis by (simp add: show_digits_val)
  qed
next
  assume str: "str = show_nat (unat w)"
  have ne: "str \<noteq> []" and all: "\<forall>c \<in> set str. is_digit c" using str show_nat_digits by auto
  then have hd: "is_digit (hd str)" by simp
  have tw: "takeWhile is_digit str = str" "dropWhile is_digit str = []" using all by auto
  have start: "str = ''0'' \<or> hd str \<noteq> CHR ''0''"
  proof (cases "unat w = 0")
    case True
    with str show ?thesis by (subst (asm) show_nat.simps) (simp add: digit_char_0)
  qed (use str show_nat_hd in auto)
  have v: "digits_val str = unat w" using str digits_val_show by simp
  have le: "int (unat w) \<le> UINT32_MAX" using unsigned_less [of w, where ?'a = int]
    by (simp add: UINT32_MAX_def)
  have le2: "UINT32_MAX < LONG_MAX" "LONG_MIN < 0"
    by (simp_all add: UINT32_MAX_def LONG_MAX_def LONG_MIN_def)
  have "0 \<le> int (unat w)" by simp
  with le le2 have range: "\<not> int (unat w) > LONG_MAX" "int (unat w) \<noteq> LONG_MAX"
    "int (unat w) \<noteq> LONG_MIN" "\<not> (int (unat w) < 0 \<or> int (unat w) > UINT32_MAX)"
    by linarith+
  have "strtol10 str = (int (unat w), [], False)"
    unfolding strtol10_digits [OF ne hd] Let_def tw v using range(1) by simp
  then have "ParseUint32 e str =
      (if \<not> (str = ''0'' \<or> str \<noteq> [] \<and> is_digit (hd str) \<and> hd str \<noteq> CHR ''0'') then None
       else if [] = str then None
       else if (int (unat w) = LONG_MIN \<or> int (unat w) = LONG_MAX) \<and> (False \<or> e) then None
       else if int (unat w) < 0 \<or> int (unat w) > UINT32_MAX then None
       else Some ([], word_of_int (int (unat w))))"
    unfolding ParseUint32_def Let_def by (simp only: prod.case)
  also have "\<dots> = Some ([], w)"
    unfolding if_not_P [OF range(4)] using start ne hd range(2,3) by simp
  finally show "ParseUint32 e str = Some ([], w)" .
qed

text \<open>
  C14: the parser of device names is the inverse of the printer: \<open>ParseDeviceName\<close> accepts exactly
  the strings \<open>graphics/nvidia<n>\<close> that \<open>Init\<close> prints for a number that fits an \<open>uint32\<close>, and
  yields that number. Leading zeros, signs, spaces, trailing characters and overlong numbers are
  all refused, whatever \<open>errno\<close> holds before.
\<close>

theorem ParseDeviceName_inverts_device_name:
  "ParseDeviceName errno0 name = Some w \<longleftrightarrow> name = device_name (unat w)"
proof
  assume parse: "ParseDeviceName errno0 name = Some w"
  let ?n = "length NVIDIA_DEVIVE_NAME"
  from parse have "take ?n name = NVIDIA_DEVIVE_NAME"
    "ParseUint32 errno0 (drop ?n name) = Some ([], w)"
    by (auto simp: ParseDeviceName_def Let_def split: if_splits option.splits)
  then show "name = device_name (unat w)"
    by (metis ParseUint32_accepts append_take_drop_id device_name_def)
next
  assume "name = device_name (unat w)"
  then show "ParseDeviceName errno0 name = Some w"
    using ParseUint32_accepts [of errno0 "show_nat (unat w)" w]
    by (simp add: ParseDeviceName_def device_name_def Let_def)
qed

lemma ParseDeviceName_device_name:
  "n < 2 ^ 32 \<Longrightarrow> ParseDeviceName e (device_name n) = Some (of_nat n)"
  unfolding ParseDeviceName_def device_name_def Let_def
  using ParseUint32_accepts [of e "show_nat n" "of_nat n"] by (simp add: unat_of_nat_lt)

lemma ParseDeviceName_SomeD: "ParseDeviceName e name = Some w \<Longrightarrow> name = device_name (unat w)"
  unfolding ParseDeviceName_def device_name_def Let_def
  by (auto simp: ParseUint32_accepts split: if_splits option.splits)
    (metis append_take_drop_id)

section \<open>DeviceNamesArray\<close>

text \<open>The array of C strings handed to devfs. Strings live on a heap; the array itself is
  \<open>None\<close> before \<open>Init\<close> (a null pointer). Where the C++ code would read or write outside the
  array the model has no value (\<open>None\<close>).\<close>

record DeviceNamesArray =
  fNames :: "ptr list option"
  strings :: "ptr \<rightharpoonup> string"

definition DeviceNamesArray_new :: DeviceNamesArray where
  "DeviceNamesArray_new = \<lparr>fNames = None, strings = Map.empty\<rparr>"

fun free_names :: "ptr list \<Rightarrow> (ptr \<rightharpoonup> string) \<Rightarrow> (ptr \<rightharpoonup> string) option" where
  "free_names [] h = None"
| "free_names (p # ps) h = (if p = nullptr then Some h else free_names ps (h(p := None)))"

definition DeviceNamesArray_Delete :: "DeviceNamesArray \<Rightarrow> DeviceNamesArray option" where
  "DeviceNamesArray_Delete a =
     (case fNames a of None \<Rightarrow> None
      | Some ps \<Rightarrow> map_option (\<lambda>h. a\<lparr>strings := h\<rparr>) (free_names ps (strings a)))"

text \<open>\<open>ok\<close> is whether \<open>new(std::nothrow)\<close> succeeds.\<close>

definition DeviceNamesArray_Init ::
    "bool \<Rightarrow> nat \<Rightarrow> DeviceNamesArray \<Rightarrow> (unit status \<times> DeviceNamesArray) option" where
  "DeviceNamesArray_Init ok count a =
     map_option (\<lambda>a1. if \<not> ok then (Inl B_NO_MEMORY, a1\<lparr>fNames := None\<rparr>)
                      else (B_OK, a1\<lparr>fNames := Some (replicate (count + 1) nullptr)\<rparr>))
       (if fNames a \<noteq> None then DeviceNamesArray_Delete a else Some a)"

text \<open>\<open>newName\<close> is the pointer that \<open>strdup\<close> answers, null when there is no memory. Freeing a null
  pointer does nothing.\<close>

definition DeviceNamesArray_SetName ::
    "ptr \<Rightarrow> nat \<Rightarrow> string \<Rightarrow> DeviceNamesArray \<Rightarrow> (unit status \<times> DeviceNamesArray) option" where
  "DeviceNamesArray_SetName newName index name a =
     (if newName = nullptr then Some (Inl B_NO_MEMORY, a)
      else case fNames a of None \<Rightarrow> None
           | Some ps \<Rightarrow>
               if index < length ps
               then let h = (strings a)(newName \<mapsto> name);
                        old = ps ! index
                    in Some (B_OK, a\<lparr>strings := (if old = nullptr then h else h(old := None)),
                                      fNames := Some (ps[index := newName])\<rparr>)
               else None)"

definition DeviceNamesArray_dtor :: "DeviceNamesArray \<Rightarrow> DeviceNamesArray option" where
  "DeviceNamesArray_dtor a = (if fNames a = None then Some a else DeviceNamesArray_Delete a)"

text \<open>What devfs reads from \<open>Names()\<close>: the strings up to the first null pointer.\<close>

definition published :: "DeviceNamesArray \<Rightarrow> string list" where
  "published a = (case fNames a of None \<Rightarrow> []
                  | Some ps \<Rightarrow> map (\<lambda>p. the (strings a p)) (takeWhile (\<lambda>p. p \<noteq> nullptr) ps))"

end
