(* ===== verification/Driver.thy ===== *)
theory Driver
  imports DeviceNames Device
begin

text \<open>
  The driver object: \<open>nvidia_gsp/nvidia/Driver.{h,cpp}\<close>, the module it exports
  (\<open>NvidiaModule.cpp\<close>) and its control device (\<open>ControlDevice.cpp\<close>). What the driver acquires
  outside of itself is kept in a ledger, so that the theorems can say that every path, the failing
  ones included, gives everything back.
\<close>

section \<open>State\<close>

datatype pool_call = MaintainCall | ReclaimAllCall

record ledger =
  pci_refs :: int
  rm_refs :: int
  event_locks :: int
  private_states :: int
  pool_calls :: "pool_call list"

record driver =
  fPCI :: bool
  fInitRmDone :: bool
  fControlDevice :: bool
  fDevices :: "nv_device list"
  fDeviceNamesArray :: DeviceNamesArray

definition NvHaikuDriver_new :: driver where
  "NvHaikuDriver_new = \<lparr>fPCI = False, fInitRmDone = False, fControlDevice = False, fDevices = [],
     fDeviceNamesArray = DeviceNamesArray_new\<rparr>"

text \<open>What the outside answers while the driver is initialised: \<open>get_module\<close>, \<open>rm_init_rm\<close>, the
  allocation of the control device, the functions that \<open>get_nth_pci_info\<close> enumerates, each with
  the answers its probe gets and the result of \<open>fDevices.Add\<close>, and the allocations of the names
  array.\<close>

record init_env =
  ie_get_module :: "unit status"
  ie_rm_init :: bool
  ie_new_control :: bool
  ie_scan :: "(pci_info \<times> probe_env \<times> unit status) list"
  ie_new_names :: bool
  ie_strdup :: "nat \<Rightarrow> ptr"

section \<open>Init\<close>

text \<open>The loop over the PCI functions; no value where a probe reads outside of its arrays.\<close>

fun scan_pci ::
    "(pci_info \<times> probe_env \<times> unit status) list \<Rightarrow> driver \<times> ledger \<Rightarrow>
     (unit status \<times> driver \<times> ledger) option" where
  "scan_pci [] (d, l) = Some (B_OK, d, l)"
| "scan_pci ((p, env, add) # rest) (d, l) =
     (case Probe env p of
        None \<Rightarrow> None
      | Some (Inl e) \<Rightarrow> scan_pci rest (d, l)
      | Some (Inr device) \<Rightarrow>
          let deviceIndex = length (fDevices d)
          in case add of
               Inl e \<Rightarrow> Some (Inl e, d, l)
             | Inr _ \<Rightarrow> scan_pci rest
                 (d\<lparr>fDevices := fDevices d @ [device\<lparr>fDeviceIndex := of_nat deviceIndex\<rparr>]\<rparr>,
                  l\<lparr>private_states := private_states l + 1\<rparr>))"

text \<open>The names: entry 0 for the control device, entry \<open>1 + i\<close> for device \<open>i\<close>. A name for which
  there is no memory stays null; the code ignores the error.\<close>

definition device_names :: "nat \<Rightarrow> string list" where
  "device_names n = NVIDIA_CONTROL_DEVIVE_NAME # map device_name [0..<n]"

fun set_names :: "(nat \<Rightarrow> ptr) \<Rightarrow> nat \<Rightarrow> string list \<Rightarrow> DeviceNamesArray \<Rightarrow> DeviceNamesArray option" where
  "set_names dup i [] a = Some a"
| "set_names dup i (name # names) a =
     (case DeviceNamesArray_SetName (dup i) i name a of
        None \<Rightarrow> None
      | Some (_, a1) \<Rightarrow> set_names dup (i + 1) names a1)"

definition NvHaikuDriver_Init ::
    "init_env \<Rightarrow> driver \<times> ledger \<Rightarrow> (unit status \<times> driver \<times> ledger) option" where
  "NvHaikuDriver_Init env dl =
     (let (d, l) = dl
      in case ie_get_module env of
           Inl e \<Rightarrow> Some (Inl e, d, l)
         | Inr _ \<Rightarrow>
             let d = d\<lparr>fPCI := True\<rparr>;
                 l = l\<lparr>pci_refs := pci_refs l + 1, pool_calls := pool_calls l @ [MaintainCall]\<rparr>
             in if \<not> ie_rm_init env then Some (Inl B_ERROR, d, l)
                else let d = d\<lparr>fInitRmDone := True\<rparr>; l = l\<lparr>rm_refs := rm_refs l + 1\<rparr>
                     in if \<not> ie_new_control env then Some (Inl B_NO_MEMORY, d, l)
                        else let d = d\<lparr>fControlDevice := True\<rparr>;
                                 l = l\<lparr>event_locks := event_locks l + 1\<rparr>
                             in case scan_pci (ie_scan env) (d, l) of
                                  None \<Rightarrow> None
                                | Some (Inl e, d, l) \<Rightarrow> Some (Inl e, d, l)
                                | Some (Inr _, d, l) \<Rightarrow>
                                    (case DeviceNamesArray_Init (ie_new_names env)
                                            (1 + length (fDevices d)) (fDeviceNamesArray d) of
                                       None \<Rightarrow> None
                                     | Some (Inl e, a) \<Rightarrow> Some (Inl e, d\<lparr>fDeviceNamesArray := a\<rparr>, l)
                                     | Some (Inr _, a) \<Rightarrow>
                                         map_option (\<lambda>a. (B_OK, d\<lparr>fDeviceNamesArray := a\<rparr>, l))
                                           (set_names (ie_strdup env) 0
                                              (device_names (length (fDevices d))) a)))"

section \<open>The destructor\<close>

definition NvHaikuDevice_dtor :: "nv_device \<Rightarrow> ledger \<Rightarrow> ledger" where
  "NvHaikuDevice_dtor dev l =
     (if fInitSoftware dev then l\<lparr>private_states := private_states l - 1\<rparr> else l)"

text \<open>\<open>~NvHaikuDriver\<close>; the names array is destroyed last, as a member. The result is the ledger
  and the strings that are still on the heap.\<close>

definition NvHaikuDriver_dtor :: "driver \<times> ledger \<Rightarrow> (DeviceNamesArray \<times> ledger) option" where
  "NvHaikuDriver_dtor dl =
     (let (d, l) = dl;
          l = fold NvHaikuDevice_dtor (fDevices d) l;
          l = (if fControlDevice d then l\<lparr>event_locks := event_locks l - 1\<rparr> else l);
          l = (if fInitRmDone d then l\<lparr>rm_refs := rm_refs l - 1\<rparr> else l);
          l = l\<lparr>pool_calls := pool_calls l @ [ReclaimAllCall]\<rparr>;
          l = (if fPCI d then l\<lparr>pci_refs := pci_refs l - 1\<rparr> else l)
      in map_option (\<lambda>a. (a, l)) (DeviceNamesArray_dtor (fDeviceNamesArray d)))"

section \<open>The module\<close>

text \<open>\<open>nvidia_module_init\<close> makes a new driver in place and destroys it when \<open>Init\<close> fails.\<close>

definition nvidia_module_init ::
    "init_env \<Rightarrow> ledger \<Rightarrow> (unit status \<times> driver \<times> ledger) option" where
  "nvidia_module_init env l =
     (case NvHaikuDriver_Init env (NvHaikuDriver_new, l) of
        None \<Rightarrow> None
      | Some (Inl e, d, l) \<Rightarrow>
          map_option (\<lambda>(a, l). (Inl e, d\<lparr>fDeviceNamesArray := a\<rparr>, l)) (NvHaikuDriver_dtor (d, l))
      | Some (Inr _, d, l) \<Rightarrow> Some (B_OK, d, l))"

definition nvidia_module_uninit :: "driver \<times> ledger \<Rightarrow> ledger option" where
  "nvidia_module_uninit dl = map_option snd (NvHaikuDriver_dtor dl)"

datatype module_op = B_MODULE_INIT | B_MODULE_UNINIT | OTHER_MODULE_OP

definition NvidiaModuleOps ::
    "module_op \<Rightarrow> init_env \<Rightarrow> driver \<times> ledger \<Rightarrow> (unit status \<times> driver \<times> ledger) option" where
  "NvidiaModuleOps op env dl =
     (case op of
        B_MODULE_INIT \<Rightarrow> nvidia_module_init env (snd dl)
      | B_MODULE_UNINIT \<Rightarrow> map_option (\<lambda>l. (B_OK, fst dl, l)) (nvidia_module_uninit dl)
      | OTHER_MODULE_OP \<Rightarrow> Some (Inl ENOSYS, fst dl, snd dl))"

text \<open>The functions of \<open>gNvidiaModule\<close>. The loops look for the first device with the id.\<close>

definition nvidia_module_enumerate_gpus :: "driver \<Rightarrow> u32" where
  "nvidia_module_enumerate_gpus d = 0"

definition nvidia_module_set_callbacks :: "driver \<Rightarrow> int" where
  "nvidia_module_set_callbacks d = 1"

fun open_gpu_loop :: "start_env \<Rightarrow> u32 \<Rightarrow> nv_device list \<Rightarrow> bool \<times> nv_device list" where
  "open_gpu_loop env i [] = (False, [])"
| "open_gpu_loop env i (dev # rest) =
     (if gpu_id (Nv dev) = i
      then (case AcquireRef env dev of (Inl e, dev1) \<Rightarrow> (False, dev1 # rest)
            | (Inr _, dev1) \<Rightarrow> (True, dev1 # rest))
      else let (r, rest1) = open_gpu_loop env i rest in (r, dev # rest1))"

fun close_gpu_loop :: "u32 \<Rightarrow> nv_device list \<Rightarrow> nv_device list" where
  "close_gpu_loop i [] = []"
| "close_gpu_loop i (dev # rest) =
     (if gpu_id (Nv dev) = i then ReleaseRef dev # rest else dev # close_gpu_loop i rest)"

definition nvidia_module_open_gpu :: "start_env \<Rightarrow> u32 \<Rightarrow> driver \<Rightarrow> bool \<times> driver" where
  "nvidia_module_open_gpu env i d =
     (let (r, devs) = open_gpu_loop env i (fDevices d) in (r, d\<lparr>fDevices := devs\<rparr>))"

definition nvidia_module_close_gpu :: "u32 \<Rightarrow> driver \<Rightarrow> driver" where
  "nvidia_module_close_gpu i d = d\<lparr>fDevices := close_gpu_loop i (fDevices d)\<rparr>"

section \<open>PublishDevices and FindDevice\<close>

definition PublishDevices :: "driver \<Rightarrow> string list" where
  "PublishDevices d = published (fDeviceNamesArray d)"

datatype devfs_node = ControlNode | DeviceNode nat

definition FindDevice :: "bool \<Rightarrow> driver \<Rightarrow> string \<Rightarrow> devfs_node option" where
  "FindDevice errno0 d name =
     (if name = NVIDIA_CONTROL_DEVIVE_NAME then Some ControlNode
      else case ParseDeviceName errno0 name of
             Some index \<Rightarrow> if index \<ge> of_nat (length (fDevices d)) then None
                           else Some (DeviceNode (unat index))
           | None \<Rightarrow> None)"

section \<open>Everything acquired is given back\<close>

lemma Init_fInitSoftware:
  "NvHaikuDevice_Init env p d = Some (Inr u, d') \<Longrightarrow> fInitSoftware d'"
  by (auto simp: NvHaikuDevice_Init_def Let_def split_def split: if_splits)

lemma Probe_fInitSoftware: "Probe env p = Some (Inr device) \<Longrightarrow> fInitSoftware device"
  by (auto simp: Probe_def CHECK_RET_Inr_iff Init_fInitSoftware split: if_splits)

definition all_init :: "driver \<Rightarrow> bool" where
  "all_init d \<longleftrightarrow> (\<forall>dev \<in> set (fDevices d). fInitSoftware dev)"

lemma scan_pci_ledger:
  "scan_pci xs (d, l) = Some (r, d', l') \<Longrightarrow> all_init d \<Longrightarrow>
     all_init d' \<and> l' = l\<lparr>private_states := private_states l + int (length (fDevices d'))
                                                 - int (length (fDevices d))\<rparr> \<and>
     d' = d\<lparr>fDevices := fDevices d'\<rparr>"
proof (induction xs "(d, l)" arbitrary: d l rule: scan_pci.induct)
  case (2 p env add rest d l)
  show ?case
  proof (cases "Probe env p")
    case None
    with 2 show ?thesis by simp
  next
    case (Some s)
    show ?thesis
    proof (cases s)
      case (Inl e)
      with 2 Some show ?thesis by simp
    next
      case (Inr device)
      then have "fInitSoftware device" using Some Probe_fInitSoftware by blast
      then have init: "all_init (d\<lparr>fDevices := fDevices d @
                          [device\<lparr>fDeviceIndex := of_nat (length (fDevices d))\<rparr>]\<rparr>)"
        using "2.prems"(2) by (auto simp: all_init_def)
      show ?thesis
      proof (cases add)
        case (Inl e)
        with 2 Some Inr show ?thesis by simp
      next
        case (Inr u)
        with "2.hyps"(2) [OF Some \<open>s = Inr device\<close> refl Inr _ init] "2.prems"(1) Some \<open>s = Inr device\<close>
        show ?thesis by simp
      qed
    qed
  qed
qed simp

lemma dtor_devices:
  "\<forall>dev \<in> set devs. fInitSoftware dev \<Longrightarrow>
     fold NvHaikuDevice_dtor devs l = l\<lparr>private_states := private_states l - int (length devs)\<rparr>"
  by (induction devs arbitrary: l) (simp_all add: NvHaikuDevice_dtor_def)

section \<open>The names array\<close>

lemma set_names_spec:
  assumes "\<And>j. i \<le> j \<Longrightarrow> j < length ps \<Longrightarrow> ps ! j = nullptr" "i + length names \<le> length ps"
    and "fNames a = Some ps"
    and "\<And>j k. dup j = dup k \<Longrightarrow> dup j \<noteq> nullptr \<Longrightarrow> j = k"
  shows "\<exists>a'. set_names dup i names a = Some a' \<and>
    fNames a' = Some (take i ps @ map dup [i..<i + length names] @ drop (i + length names) ps) \<and>
    (\<forall>k < length names. dup (i + k) \<noteq> nullptr \<longrightarrow> strings a' (dup (i + k)) = Some (names ! k)) \<and>
    (\<forall>p. (\<forall>k < length names. p \<noteq> dup (i + k)) \<longrightarrow> strings a' p = strings a p)"
  using assms(1-3)
proof (induction names arbitrary: i ps a)
  case Nil
  then show ?case by simp
next
  case (Cons name names)
  have i: "i < length ps" using Cons.prems by simp
  define ps1 where "ps1 = ps[i := dup i]"
  obtain r a1 where step: "DeviceNamesArray_SetName (dup i) i name a = Some (r, a1)"
    "fNames a1 = Some ps1" "dup i \<noteq> nullptr \<Longrightarrow> strings a1 = (strings a)(dup i \<mapsto> name)"
    "dup i = nullptr \<Longrightarrow> strings a1 = strings a"
  proof (cases "dup i = nullptr")
    case True
    with Cons.prems(1) [of i] i have "ps1 = ps" by (metis list_update_id order_refl ps1_def)
    with True Cons.prems(3) that [of "Inl B_NO_MEMORY" a] show ?thesis
      by (simp add: DeviceNamesArray_SetName_def)
  next
    case False
    with Cons.prems(1) [of i] Cons.prems(3) i
      that [of B_OK "a\<lparr>strings := (strings a)(dup i \<mapsto> name), fNames := Some ps1\<rparr>"]
    show ?thesis
      by (simp add: DeviceNamesArray_SetName_def ps1_def Let_def)
  qed
  have "Suc i + length names \<le> length ps1" "\<And>j. Suc i \<le> j \<Longrightarrow> j < length ps1 \<Longrightarrow> ps1 ! j = nullptr"
    using Cons.prems by (simp_all add: ps1_def)
  from Cons.IH [OF this(2,1) step(2)] obtain a' where a':
    "set_names dup (Suc i) names a1 = Some a'"
    "fNames a' = Some (take (Suc i) ps1 @ map dup [Suc i..<Suc i + length names]
                       @ drop (Suc i + length names) ps1)"
    "\<forall>k < length names. dup (Suc i + k) \<noteq> nullptr \<longrightarrow> strings a' (dup (Suc i + k)) = Some (names ! k)"
    "\<forall>p. (\<forall>k < length names. p \<noteq> dup (Suc i + k)) \<longrightarrow> strings a' p = strings a1 p" by blast
  have "take (Suc i) ps1 @ map dup [Suc i..<Suc i + length names] @ drop (Suc i + length names) ps1 =
      take i ps @ map dup [i..<i + length (name # names)] @ drop (i + length (name # names)) ps"
  proof -
    have "take (Suc i) ps1 = take i ps @ [dup i]" using i by (simp add: ps1_def take_Suc_conv_app_nth)
    moreover have "[i..<i + length (name # names)] = i # [Suc i..<Suc i + length names]"
      using upt_conv_Cons [of i "i + length (name # names)"] by simp
    moreover have "drop (Suc i + length names) ps1 = drop (i + length (name # names)) ps"
      by (simp add: ps1_def)
    ultimately show ?thesis by simp
  qed
  moreover have "dup i \<noteq> nullptr \<Longrightarrow> strings a' (dup i) = Some name"
  proof -
    assume di: "dup i \<noteq> nullptr"
    then have "\<forall>k < length names. dup i \<noteq> dup (Suc i + k)"
      using assms(4) [of i] by fastforce
    with a'(4) step(3) di show ?thesis by simp
  qed
  moreover have "\<forall>p. (\<forall>k < Suc (length names). p \<noteq> dup (i + k)) \<longrightarrow> strings a' p = strings a p"
  proof (intro allI impI)
    fix p
    assume p: "\<forall>k < Suc (length names). p \<noteq> dup (i + k)"
    then have "p \<noteq> dup i" by force
    moreover from p have "\<forall>k < length names. p \<noteq> dup (Suc i + k)" by (metis Suc_less_eq add_Suc_shift)
    ultimately show "strings a' p = strings a p" using a'(4) step(3,4) by (cases "dup i = nullptr") auto
  qed
  ultimately show ?case
    using a'(1-3) step(1) by (auto simp: less_Suc_eq_0_disj)
qed

lemma free_names_total: "nullptr \<in> set ps \<Longrightarrow> free_names ps h \<noteq> None"
  by (induction ps h rule: free_names.induct) auto

lemma free_names_strings:
  "free_names ps h = Some h' \<Longrightarrow>
     h' p = (if p \<in> set (takeWhile (\<lambda>q. q \<noteq> nullptr) ps) then None else h p)"
  by (induction ps h rule: free_names.induct) (auto split: if_splits)

lemma set_takeWhile_upt:
  assumes "p \<in> set (takeWhile P (map f [0..<n] @ xs))" "\<not> P (f k)" "k < n"
  shows "\<exists>j < k. p = f j"
proof -
  have "[0..<n] = [0..<k] @ [k..<n]" using upt_add_eq_append [of 0 k "n - k"] assms(3) by simp
  also have "[k..<n] = k # [Suc k..<n]" using assms(3) by (rule upt_conv_Cons)
  finally have "takeWhile P (map f [0..<n] @ xs) = takeWhile P (map f [0..<k])"
    using assms(2) by (simp add: takeWhile_tail)
  with assms(1) have "p \<in> set (map f [0..<k])" using set_takeWhileD by metis
  then show ?thesis by auto
qed

text \<open>The array that \<open>Init\<close> builds for \<open>n\<close> devices.\<close>

definition built_names :: "(nat \<Rightarrow> ptr) \<Rightarrow> nat \<Rightarrow> DeviceNamesArray \<Rightarrow> bool" where
  "built_names dup n a \<longleftrightarrow>
     fNames a = Some (map dup [0..<Suc n] @ [nullptr]) \<and>
     (\<forall>k < Suc n. dup k \<noteq> nullptr \<longrightarrow> strings a (dup k) = Some (device_names n ! k))"

lemma names_built:
  assumes "fNames a = None" "\<And>j k. dup j = dup k \<Longrightarrow> dup j \<noteq> nullptr \<Longrightarrow> j = k"
  shows "\<exists>a1 a'. DeviceNamesArray_Init True (Suc n) a = Some (B_OK, a1) \<and>
           set_names dup 0 (device_names n) a1 = Some a' \<and> built_names dup n a'"
proof -
  define a1 where "a1 = a\<lparr>fNames := Some (replicate (Suc (Suc n)) nullptr)\<rparr>"
  have len: "length (device_names n) = Suc n" by (simp add: device_names_def)
  have "\<exists>a'. set_names dup 0 (device_names n) a1 = Some a' \<and>
    fNames a' = Some (take 0 (replicate (Suc (Suc n)) nullptr)
      @ map dup [0..<0 + length (device_names n)]
      @ drop (0 + length (device_names n)) (replicate (Suc (Suc n)) nullptr)) \<and>
    (\<forall>k < length (device_names n). dup (0 + k) \<noteq> nullptr \<longrightarrow>
       strings a' (dup (0 + k)) = Some (device_names n ! k)) \<and>
    (\<forall>p. (\<forall>k < length (device_names n). p \<noteq> dup (0 + k)) \<longrightarrow> strings a' p = strings a1 p)"
    by (rule set_names_spec) (use assms(2) len in \<open>simp_all add: a1_def nth_Cons split: nat.splits\<close>)
  moreover have "drop (Suc n) (replicate (Suc (Suc n)) nullptr) = [nullptr]"
    by (simp only: drop_replicate) simp
  ultimately obtain a' where "set_names dup 0 (device_names n) a1 = Some a'" "built_names dup n a'"
    unfolding built_names_def len by (auto simp del: replicate_Suc)
  moreover have "DeviceNamesArray_Init True (Suc n) a = Some (B_OK, a1)"
    using assms(1) by (simp add: DeviceNamesArray_Init_def a1_def)
  ultimately show ?thesis by blast
qed

lemma dtor_names_total:
  "fNames a = None \<or> (\<exists>ps. fNames a = Some ps \<and> nullptr \<in> set ps) \<Longrightarrow>
     \<exists>a'. DeviceNamesArray_dtor a = Some a'"
  using free_names_total by (auto simp: DeviceNamesArray_dtor_def DeviceNamesArray_Delete_def)

lemma SetName_keeps_null:
  "DeviceNamesArray_SetName p i name a = Some (r, a') \<Longrightarrow> fNames a = Some ps \<Longrightarrow>
     \<exists>ps'. fNames a' = Some ps' \<and> length ps' = length ps \<and> (\<forall>j. j \<noteq> i \<longrightarrow> ps' ! j = ps ! j)"
  by (auto simp: DeviceNamesArray_SetName_def Let_def split: if_splits)

lemma set_names_keeps_null:
  "set_names dup i names a = Some a' \<Longrightarrow> fNames a = Some ps \<Longrightarrow> i + length names \<le> j \<Longrightarrow>
     \<exists>ps'. fNames a' = Some ps' \<and> length ps' = length ps \<and> ps' ! j = ps ! j"
proof (induction dup i names a arbitrary: ps rule: set_names.induct)
  case (2 dup i name names a)
  from "2.prems"(1) obtain r a1 where step: "DeviceNamesArray_SetName (dup i) i name a = Some (r, a1)"
    "set_names dup (i + 1) names a1 = Some a'"
    by (auto split: option.splits)
  from SetName_keeps_null [OF step(1) "2.prems"(2)] obtain ps1 where
    ps1: "fNames a1 = Some ps1" "length ps1 = length ps" "\<forall>j. j \<noteq> i \<longrightarrow> ps1 ! j = ps ! j" by blast
  have "i + 1 + length names \<le> j" using "2.prems"(3) by simp
  from "2.IH" [OF step(1) refl step(2) ps1(1) this] ps1(2,3) "2.prems"(3) show ?case by auto
qed simp

section \<open>The life of the module\<close>

definition same_resources :: "ledger \<Rightarrow> ledger \<Rightarrow> bool" where
  "same_resources l l' \<longleftrightarrow> pci_refs l = pci_refs l' \<and> rm_refs l = rm_refs l' \<and>
     event_locks l = event_locks l' \<and> private_states l = private_states l'"

text \<open>The resources a driver object has, against the ledger at the time it was made.\<close>

definition owns :: "driver \<Rightarrow> ledger \<Rightarrow> ledger \<Rightarrow> bool" where
  "owns d l0 l \<longleftrightarrow> all_init d \<and>
     pci_refs l = pci_refs l0 + (if fPCI d then 1 else 0) \<and>
     rm_refs l = rm_refs l0 + (if fInitRmDone d then 1 else 0) \<and>
     event_locks l = event_locks l0 + (if fControlDevice d then 1 else 0) \<and>
     private_states l = private_states l0 + int (length (fDevices d))"

definition names_ok :: "DeviceNamesArray \<Rightarrow> bool" where
  "names_ok a \<longleftrightarrow> fNames a = None \<or> (\<exists>ps. fNames a = Some ps \<and> nullptr \<in> set ps)"

lemma dtor_owns:
  assumes "owns d l0 l" "names_ok (fDeviceNamesArray d)"
  shows "\<exists>a l1. NvHaikuDriver_dtor (d, l) = Some (a, l1) \<and> same_resources l1 l0 \<and>
                pool_calls l1 = pool_calls l @ [ReclaimAllCall]"
proof -
  from assms(2) obtain a where "DeviceNamesArray_dtor (fDeviceNamesArray d) = Some a"
    using dtor_names_total unfolding names_ok_def by blast
  moreover have "fold NvHaikuDevice_dtor (fDevices d) l =
      l\<lparr>private_states := private_states l - int (length (fDevices d))\<rparr>"
    using assms(1) by (intro dtor_devices) (simp add: owns_def all_init_def)
  ultimately show ?thesis
    using assms(1) by (simp add: NvHaikuDriver_dtor_def owns_def same_resources_def Let_def)
qed

lemma scan_pci_owns:
  assumes "scan_pci xs (d, l) = Some (r, d', l')" "owns d l0 l"
  shows "owns d' l0 l' \<and> fDeviceNamesArray d' = fDeviceNamesArray d \<and> pool_calls l' = pool_calls l"
proof -
  from scan_pci_ledger [OF assms(1)] assms(2) have *:
    "all_init d'" "d' = d\<lparr>fDevices := fDevices d'\<rparr>"
    "l' = l\<lparr>private_states := private_states l + int (length (fDevices d')) - int (length (fDevices d))\<rparr>"
    by (simp_all add: owns_def)
  then obtain devs where d': "d' = d\<lparr>fDevices := devs\<rparr>" by blast
  from *(1,3) assms(2) show ?thesis by (simp add: owns_def d')
qed

text \<open>What \<open>Init\<close> leaves behind on every path, and how the names array of a ready driver was
  made.\<close>

lemma names_init_ok:
  "DeviceNamesArray_Init mem n DeviceNamesArray_new = Some (r, a) \<Longrightarrow>
     names_ok a \<and> (r = B_OK \<longrightarrow> mem \<and> fNames a = Some (replicate (n + 1) nullptr))"
  by (auto simp: DeviceNamesArray_Init_def DeviceNamesArray_new_def names_ok_def split: if_splits)

lemma set_names_names_ok:
  assumes "set_names dup 0 (device_names n) a = Some a'" "fNames a = Some (replicate (n + 2) nullptr)"
  shows "names_ok a'"
proof -
  have "0 + length (device_names n) \<le> n + 1" by (simp add: device_names_def)
  from set_names_keeps_null [OF assms this] obtain ps where
    ps: "fNames a' = Some ps" "length ps = length (replicate (n + 2) nullptr)"
    "ps ! (n + 1) = replicate (n + 2) nullptr ! (n + 1)" by blast
  then have "length ps = n + 2" "ps ! (n + 1) = nullptr" by (simp_all only: length_replicate nth_replicate)
  then show ?thesis using ps(1) nth_mem [of "n + 1" ps] by (auto simp: names_ok_def)
qed

definition names_made :: "init_env \<Rightarrow> driver \<Rightarrow> bool" where
  "names_made env d \<longleftrightarrow> (\<exists>a. DeviceNamesArray_Init True (Suc (length (fDevices d))) DeviceNamesArray_new
       = Some (B_OK, a) \<and>
     set_names (ie_strdup env) 0 (device_names (length (fDevices d))) a = Some (fDeviceNamesArray d))"

lemma Init_new_cases:
  assumes init: "NvHaikuDriver_Init env (NvHaikuDriver_new, l) = Some (r, d, l1)"
  shows "owns d l l1 \<and> names_ok (fDeviceNamesArray d) \<and> (r = B_OK \<longrightarrow> names_made env d)"
proof (cases "ie_get_module env = B_OK \<and> ie_rm_init env \<and> ie_new_control env")
  case False
  with init show ?thesis
    by (cases "ie_get_module env")
      (auto simp: NvHaikuDriver_Init_def Let_def owns_def all_init_def NvHaikuDriver_new_def
        names_ok_def DeviceNamesArray_new_def split: if_splits)
next
  case True
  define d0 where "d0 = NvHaikuDriver_new\<lparr>fPCI := True, fInitRmDone := True, fControlDevice := True\<rparr>"
  define l0 where "l0 = l\<lparr>pci_refs := pci_refs l + 1, pool_calls := pool_calls l @ [MaintainCall],
    rm_refs := rm_refs l + 1, event_locks := event_locks l + 1\<rparr>"
  have owns0: "owns d0 l l0" and names0: "fDeviceNamesArray d0 = DeviceNamesArray_new"
    by (simp_all add: owns_def all_init_def d0_def l0_def NvHaikuDriver_new_def)
  from init True obtain r2 d2 l2 where scan: "scan_pci (ie_scan env) (d0, l0) = Some (r2, d2, l2)"
    by (auto simp: NvHaikuDriver_Init_def Let_def d0_def l0_def split: option.splits)
  from scan_pci_owns [OF scan owns0] names0 have d2:
    "owns d2 l l2" "fDeviceNamesArray d2 = DeviceNamesArray_new" by simp_all
  show ?thesis
  proof (cases r2)
    case (Inl e)
    with init True scan d2 show ?thesis
      by (auto simp: NvHaikuDriver_Init_def Let_def d0_def l0_def names_ok_def DeviceNamesArray_new_def)
  next
    case (Inr u)
    with init True scan d2(2) obtain r3 a where
      names: "DeviceNamesArray_Init (ie_new_names env) (1 + length (fDevices d2)) DeviceNamesArray_new
        = Some (r3, a)"
      by (auto simp: NvHaikuDriver_Init_def Let_def d0_def l0_def split: option.splits)
    note names_ok = names_init_ok [OF names]
    have owns_upd: "owns (d2\<lparr>fDeviceNamesArray := b\<rparr>) l l2" for b
      using d2(1) by (simp add: owns_def all_init_def)
    show ?thesis
    proof (cases r3)
      case (Inl e)
      with init True scan d2(2) Inr names names_ok owns_upd show ?thesis
        by (auto simp: NvHaikuDriver_Init_def Let_def d0_def l0_def)
    next
      case r3: (Inr u3)
      with init True scan d2(2) Inr names obtain b where
        b: "set_names (ie_strdup env) 0 (device_names (length (fDevices d2))) a = Some b"
        "d = d2\<lparr>fDeviceNamesArray := b\<rparr>" "l1 = l2"
        by (auto simp: NvHaikuDriver_Init_def Let_def d0_def l0_def)
      with names_ok r3 have "names_ok b" by (auto intro: set_names_names_ok)
      with b names names_ok r3 owns_upd show ?thesis by (auto simp: names_made_def)
    qed
  qed
qed

text \<open>
  The module gives back what it takes. If \<open>nvidia_module_init\<close> fails, at whatever step, the
  PCI module reference, the resource manager, the event locks and the private states of all devices
  are as before the call; if it succeeds, \<open>nvidia_module_uninit\<close> brings them back there, and its
  last use of the interrupt-safe pool is \<open>ReclaimAll\<close>.
\<close>

theorem module_gives_back:
  assumes "nvidia_module_init env l = Some (r, d, l1)"
  shows "case r of
           Inl e \<Rightarrow> same_resources l1 l
         | Inr _ \<Rightarrow> \<exists>l2. nvidia_module_uninit (d, l1) = Some l2 \<and> same_resources l2 l \<and>
                          last (pool_calls l2) = ReclaimAllCall"
proof -
  from assms obtain r0 d0 l0 where init: "NvHaikuDriver_Init env (NvHaikuDriver_new, l) = Some (r0, d0, l0)"
    by (auto simp: nvidia_module_init_def split: option.splits)
  from Init_new_cases [OF init] have "owns d0 l l0" "names_ok (fDeviceNamesArray d0)" by simp_all
  from dtor_owns [OF this] obtain a l2 where
    dtor: "NvHaikuDriver_dtor (d0, l0) = Some (a, l2)" "same_resources l2 l"
      "pool_calls l2 = pool_calls l0 @ [ReclaimAllCall]" by blast
  show ?thesis
  proof (cases r0)
    case (Inl e)
    with assms init dtor show ?thesis by (auto simp: nvidia_module_init_def)
  next
    case (Inr u)
    with assms init have "r = B_OK" "d = d0" "l1 = l0" by (auto simp: nvidia_module_init_def)
    with dtor show ?thesis by (simp add: nvidia_module_uninit_def)
  qed
qed

definition ex_probe :: probe_env where
  "ex_probe = \<lparr>pe_consts = ex_consts, pe_infos = [ex_pci], pe_new = True, pe_malloc = True,
     pe_init_private = (\<lambda>nv. (True, nv\<lparr>gpu_id := 7\<rparr>)),
     pe_hw = \<lparr>config = (\<lambda>_. 0), msi_configured = False, msi_enabled = False, handlers = [],
              adapter_up = False\<rparr>\<rparr>"

definition ex_init :: init_env where
  "ex_init = \<lparr>ie_get_module = B_OK, ie_rm_init = True, ie_new_control = True,
     ie_scan = [(ex_pci\<lparr>vendor_id := 0x8086\<rparr>, ex_probe, B_OK)], ie_new_names = True,
     ie_strdup = (\<lambda>i. i + 1)\<rparr>"

definition ex_ledger :: ledger where
  "ex_ledger = \<lparr>pci_refs = 0, rm_refs = 0, event_locks = 0, private_states = 0, pool_calls = []\<rparr>"

definition ex_ready :: "driver \<times> ledger" where
  "ex_ready = (NvHaikuDriver_new\<lparr>fPCI := True, fInitRmDone := True, fControlDevice := True,
      fDeviceNamesArray := \<lparr>fNames = Some [1, 0],
        strings = (\<lambda>_. None)(1 \<mapsto> NVIDIA_CONTROL_DEVIVE_NAME)\<rparr>\<rparr>,
    ex_ledger\<lparr>pci_refs := 1, rm_refs := 1, event_locks := 1, pool_calls := [MaintainCall]\<rparr>)"

lemma ex_init_ready: "nvidia_module_init ex_init ex_ledger = Some (B_OK, ex_ready)"
  by (simp add: nvidia_module_init_def NvHaikuDriver_Init_def ex_init_def Let_def Probe_def
      PCI_VENDOR_ID_NVIDIA_def NvHaikuDriver_new_def ex_ready_def ex_ledger_def
      DeviceNamesArray_Init_def DeviceNamesArray_new_def device_names_def
      DeviceNamesArray_SetName_def)

lemma module_gives_back_witness:
  "\<exists>l2. nvidia_module_uninit ex_ready = Some l2 \<and> same_resources l2 ex_ledger"
  using module_gives_back [of ex_init ex_ledger B_OK "fst ex_ready" "snd ex_ready"] ex_init_ready
  by auto

section \<open>Every published name is found\<close>

lemma FindDevice_device_name:
  "k < 2 ^ 32 \<Longrightarrow> length (fDevices d) < 2 ^ 32 \<Longrightarrow>
     FindDevice e d (device_name k) = (if k < length (fDevices d) then Some (DeviceNode k) else None)"
  by (auto simp: FindDevice_def control_name_not_device ParseDeviceName_device_name unat_of_nat_lt
      word_le_nat_alt)

lemma FindDevice_unknown:
  assumes "name \<noteq> NVIDIA_CONTROL_DEVIVE_NAME" "\<forall>k < length (fDevices d). name \<noteq> device_name k"
    "length (fDevices d) < 2 ^ 32"
  shows "FindDevice e d name = None"
proof (cases "ParseDeviceName e name")
  case (Some w)
  then have "name = device_name (unat w)" by (rule ParseDeviceName_SomeD)
  with assms(2) have "length (fDevices d) \<le> unat w" using not_le by blast
  with assms(3) Some assms(1) show ?thesis
    by (simp add: FindDevice_def word_le_nat_alt unat_of_nat_lt)
qed (simp add: FindDevice_def assms(1))

lemma published_built:
  assumes "built_names dup n a" "\<forall>i. dup i \<noteq> nullptr"
  shows "published a = device_names n"
proof -
  have "takeWhile (\<lambda>p. p \<noteq> nullptr) (map dup [0..<Suc n] @ [nullptr]) = map dup [0..<Suc n]"
    using assms(2) by (subst takeWhile_append2) auto
  then have "published a = map (\<lambda>k. device_names n ! k) [0..<Suc n]"
    using assms by (simp add: published_def built_names_def less_Suc_eq)
  also have "\<dots> = device_names n"
    using map_nth [of "device_names n"] by (simp add: device_names_def)
  finally show ?thesis .
qed

lemma ready_names_built:
  assumes "nvidia_module_init env l = Some (B_OK, d, l1)"
    "\<And>j k. ie_strdup env j = ie_strdup env k \<Longrightarrow> ie_strdup env j \<noteq> nullptr \<Longrightarrow> j = k"
  shows "built_names (ie_strdup env) (length (fDevices d)) (fDeviceNamesArray d)"
proof -
  from assms(1) have "NvHaikuDriver_Init env (NvHaikuDriver_new, l) = Some (B_OK, d, l1)"
    by (auto simp: nvidia_module_init_def split: option.splits sum.splits)
  from Init_new_cases [OF this] have "names_made env d" by simp
  moreover have "fNames DeviceNamesArray_new = None" by (simp add: DeviceNamesArray_new_def)
  ultimately show ?thesis
    using names_built [of DeviceNamesArray_new "ie_strdup env" "length (fDevices d)"] assms(2)
    by (auto simp: names_made_def)
qed



text \<open>
  A name that could not be copied makes later names leak. \<open>Init\<close> ignores the error of
  \<open>SetName\<close>, so the array can have a null entry \<open>k\<close> before entries that are set, and the destructor,
  which stops at the first null pointer, leaves the strings behind it on the heap (and devfs does
  not see their devices).
\<close>

theorem names_leak_after_hole:
  assumes "nvidia_module_init env l = Some (B_OK, d, l1)"
    and "\<And>j k. ie_strdup env j = ie_strdup env k \<Longrightarrow> ie_strdup env j \<noteq> nullptr \<Longrightarrow> j = k"
    and "ie_strdup env k = nullptr" "k < j" "j \<le> length (fDevices d)" "ie_strdup env j \<noteq> nullptr"
    and "NvHaikuDriver_dtor (d, l1) = Some (a, l2)"
  shows "strings a (ie_strdup env j) = Some (device_names (length (fDevices d)) ! j) \<and>
         length (PublishDevices d) \<le> k"
proof -
  let ?dup = "ie_strdup env" and ?n = "length (fDevices d)"
  have built: "built_names ?dup ?n (fDeviceNamesArray d)"
    by (rule ready_names_built [OF assms(1)]) (use assms(2) in blast)
  let ?ps = "map ?dup [0..<Suc ?n] @ [nullptr]"
  from assms(7) obtain h where h: "free_names ?ps (strings (fDeviceNamesArray d)) = Some h" "strings a = h"
    using built
    by (auto simp: NvHaikuDriver_dtor_def DeviceNamesArray_dtor_def DeviceNamesArray_Delete_def
        built_names_def Let_def)
  have "?dup j \<notin> set (takeWhile (\<lambda>q. q \<noteq> nullptr) ?ps)"
  proof
    assume "?dup j \<in> set (takeWhile (\<lambda>q. q \<noteq> nullptr) ?ps)"
    from set_takeWhile_upt [OF this, of k] assms(3-5) obtain i where "i < k" "?dup j = ?dup i" by auto
    with assms(2) [of j i] assms(4,6) show False by simp
  qed
  with free_names_strings [OF h(1), of "?dup j"] h(2) built assms(5,6)
  have "strings a (?dup j) = Some (device_names ?n ! j)" by (simp add: built_names_def)
  moreover have "length (takeWhile (\<lambda>q. q \<noteq> nullptr) ?ps) \<le> k"
  proof (rule ccontr)
    assume long: "\<not> length (takeWhile (\<lambda>q. q \<noteq> nullptr) ?ps) \<le> k"
    then have "takeWhile (\<lambda>q. q \<noteq> nullptr) ?ps ! k \<noteq> nullptr"
      using set_takeWhileD [of "takeWhile (\<lambda>q. q \<noteq> nullptr) ?ps ! k" "\<lambda>q. q \<noteq> nullptr" ?ps]
      using long by (metis not_le nth_mem)
    moreover have "takeWhile (\<lambda>q. q \<noteq> nullptr) ?ps ! k = ?dup k"
      using long assms(4,5) by (subst takeWhile_nth) (simp_all add: nth_append)
    ultimately show False using assms(3) by simp
  qed
  then have "length (PublishDevices d) \<le> k"
    using built by (simp add: PublishDevices_def published_def built_names_def)
  ultimately show ?thesis by simp
qed

text \<open>One GPU, and no memory for the name of the control device.\<close>

definition ex_hole :: init_env where
  "ex_hole = ex_init\<lparr>ie_scan := [(ex_pci, ex_probe, B_OK)], ie_strdup := (\<lambda>i. i)\<rparr>"

lemma ex_probe_ok: "\<exists>dv. Probe ex_probe ex_pci = Some (Inr dv)"
proof -
  have "bars_in_range ex_pci" "\<not> upper_half ex_pci 0"
    by (simp_all add: bars_in_range_def ex_pci_def is_bar64_def PCI_address_type_def
        PCI_address_type_64_def eval_nat_numeral)
  then obtain bs where "init_bars ex_consts ex_pci 0 0 (replicate 3 empty_bar) = Some bs"
    using init_bars_spec [of 0 ex_pci "replicate 3 empty_bar" ex_consts 0]
    by (simp add: ex_consts_def)
  moreover have "NV_GPU_NUM_BARS ex_consts = 3" by (simp add: ex_consts_def)
  moreover have "vendor_id ex_pci = PCI_VENDOR_ID_NVIDIA" "class_base ex_pci = PCI_display"
    "class_sub ex_pci = PCI_vga"
    by (simp_all add: ex_pci_def PCI_VENDOR_ID_NVIDIA_def PCI_display_def PCI_vga_def)
  ultimately show ?thesis
    by (simp add: Probe_def NvHaikuDevice_Init_def NvHaikuDevice_new_def nv_state_new_def
        ex_probe_def Let_def)
qed

lemma ex_hole_ready:
  "\<exists>d l1. nvidia_module_init ex_hole ex_ledger = Some (B_OK, d, l1) \<and> length (fDevices d) = 1 \<and>
          (\<exists>a l2. NvHaikuDriver_dtor (d, l1) = Some (a, l2))"
proof -
  obtain dv where dv: "Probe ex_probe ex_pci = Some (Inr dv)" using ex_probe_ok by blast
  show ?thesis
    by (simp add: nvidia_module_init_def NvHaikuDriver_Init_def ex_hole_def ex_init_def Let_def dv
        NvHaikuDriver_new_def ex_ledger_def DeviceNamesArray_Init_def DeviceNamesArray_new_def
        device_names_def DeviceNamesArray_SetName_def NvHaikuDriver_dtor_def DeviceNamesArray_dtor_def
        DeviceNamesArray_Delete_def)
qed

lemma names_leak_after_hole_witness:
  "\<exists>d l1 a l2. nvidia_module_init ex_hole ex_ledger = Some (B_OK, d, l1) \<and>
     NvHaikuDriver_dtor (d, l1) = Some (a, l2) \<and> strings a 1 = Some (device_name 0)"
proof -
  from ex_hole_ready obtain d l1 a l2 where *: "nvidia_module_init ex_hole ex_ledger = Some (B_OK, d, l1)"
    "length (fDevices d) = 1" "NvHaikuDriver_dtor (d, l1) = Some (a, l2)" by blast
  have "ie_strdup ex_hole = (\<lambda>i. i)" by (simp add: ex_hole_def)
  with names_leak_after_hole [OF *(1), of 0 1 a l2] * show ?thesis
    by (auto simp: device_names_def)
qed

end
