(* ===== verification/GpuClients.thy ===== *)
theory GpuClients
  imports DeviceRefs Driver
begin

text \<open>
  The clients of the GPUs. A GPU is held by the open files of its device node and by the mode setting
  driver, which reaches it through the exported module: \<open>nvkms_open_gpu\<close> and \<open>nvkms_close_gpu\<close> of
  \<open>nvidia_gsp/nvidia-modeset/nvkms-haiku.cpp\<close> call \<open>nvidia_module_open_gpu\<close> and
  \<open>nvidia_module_close_gpu\<close> of \<open>nvidia_gsp/nvidia/NvidiaModule.cpp\<close>. Both kinds of client share the open
  count of the device; the theorem states what this sharing promises each of them.
\<close>

section \<open>The services of the mode setting driver\<close>

definition nvkms_open_gpu :: "start_env \<Rightarrow> u32 \<Rightarrow> driver \<Rightarrow> bool \<times> driver" where
  "nvkms_open_gpu env gpuId d = nvidia_module_open_gpu env gpuId d"

definition nvkms_close_gpu :: "u32 \<Rightarrow> driver \<Rightarrow> driver" where
  "nvkms_close_gpu gpuId d = nvidia_module_close_gpu gpuId d"

definition nvkms_enumerate_gpus :: "driver \<Rightarrow> u32" where
  "nvkms_enumerate_gpus d = nvidia_module_enumerate_gpus d"

text \<open>\<open>op\<close> is \<open>rm_kernel_rmapi_op\<close> of the resource manager.\<close>

definition nvidia_module_op :: "('ops \<Rightarrow> 'ops) \<Rightarrow> 'ops \<Rightarrow> 'ops" where
  "nvidia_module_op rm_kernel_rmapi_op ops_cmd = rm_kernel_rmapi_op ops_cmd"

definition nvkms_call_rm :: "('ops \<Rightarrow> 'ops) \<Rightarrow> 'ops \<Rightarrow> 'ops" where
  "nvkms_call_rm rm_kernel_rmapi_op ops = nvidia_module_op rm_kernel_rmapi_op ops"

text \<open>The field \<open>system_info\<close> of \<open>gNvidiaModule\<close>.\<close>

record nvidia_module_info =
  allow_write_combining :: bool

definition gNvidiaModule :: nvidia_module_info where "gNvidiaModule = \<lparr>allow_write_combining = True\<rparr>"

definition nvkms_allow_write_combining :: bool where
  "nvkms_allow_write_combining = allow_write_combining gNvidiaModule"

section \<open>The clients\<close>

text \<open>\<open>files\<close> are the open files, \<open>granted\<close> the GPUs that \<open>nvkms_open_gpu\<close> granted and that were not
  closed since. Files are closed once, and the mode setting module closes a GPU only when it was
  granted to it. Opening a node looks its name up and goes to the device behind it; the control device
  takes no reference.\<close>

record gpu_world =
  kernel_driver :: driver
  files :: "devfs_node list"
  granted :: "u32 list"

datatype gpu_op =
    OpenFile bool string bool start_env
  | CloseFile nat
  | NvkmsOpenGpu start_env u32
  | NvkmsCloseGpu u32

definition update_device :: "nat \<Rightarrow> nv_device \<Rightarrow> driver \<Rightarrow> driver" where
  "update_device i gpu d = d\<lparr>fDevices := (fDevices d)[i := gpu]\<rparr>"

definition remove_nth :: "nat \<Rightarrow> 'a list \<Rightarrow> 'a list" where
  "remove_nth k xs = take k xs @ drop (Suc k) xs"

fun gpu_step :: "gpu_op \<Rightarrow> gpu_world \<Rightarrow> gpu_world" where
  "gpu_step (OpenFile errno0 name mem env) w =
     (case FindDevice errno0 (kernel_driver w) name of
        None \<Rightarrow> w
      | Some ControlNode \<Rightarrow> if mem then w\<lparr>files := ControlNode # files w\<rparr> else w
      | Some (DeviceNode i) \<Rightarrow>
          (case NvHaikuDevice_Open mem env (fDevices (kernel_driver w) ! i) of
             (Inl _, gpu) \<Rightarrow> w\<lparr>kernel_driver := update_device i gpu (kernel_driver w)\<rparr>
           | (Inr _, gpu) \<Rightarrow> w\<lparr>kernel_driver := update_device i gpu (kernel_driver w),
                              files := DeviceNode i # files w\<rparr>))"
| "gpu_step (CloseFile k) w =
     (if k < length (files w)
      then let w1 = w\<lparr>files := remove_nth k (files w)\<rparr>
           in case files w ! k of
                ControlNode \<Rightarrow> w1
              | DeviceNode i \<Rightarrow>
                  w1\<lparr>kernel_driver := update_device i (NvHaikuDevice_Closed (fDevices (kernel_driver w) ! i)) (kernel_driver w)\<rparr>
      else w)"
| "gpu_step (NvkmsOpenGpu env gpuId) w =
     (let (r, d) = nvkms_open_gpu env gpuId (kernel_driver w)
      in w\<lparr>kernel_driver := d, granted := (if r then gpuId # granted w else granted w)\<rparr>)"
| "gpu_step (NvkmsCloseGpu gpuId) w =
     (if gpuId \<in> set (granted w)
      then w\<lparr>kernel_driver := nvkms_close_gpu gpuId (kernel_driver w), granted := remove1 gpuId (granted w)\<rparr>
      else w)"

definition gpu_run :: "gpu_op list \<Rightarrow> gpu_world \<Rightarrow> gpu_world" where
  "gpu_run ops w = fold gpu_step ops w"

section \<open>What a client may rely on\<close>

text \<open>The device that a GPU id leads to, and the references that the clients hold on a device.\<close>

fun gpu_index :: "u32 \<Rightarrow> nv_device list \<Rightarrow> nat option" where
  "gpu_index gpuId [] = None"
| "gpu_index gpuId (gpu # gpus) =
     (if gpu_id (Nv gpu) = gpuId then Some 0 else map_option Suc (gpu_index gpuId gpus))"

definition references :: "nv_device list \<Rightarrow> devfs_node list \<Rightarrow> u32 list \<Rightarrow> nat \<Rightarrow> nat" where
  "references gpus fs gs i =
     count_list fs (DeviceNode i) + length (filter (\<lambda>gpuId. gpu_index gpuId gpus = Some i) gs)"

definition held :: "nat \<Rightarrow> nv_device \<Rightarrow> bool" where
  "held n gpu \<longleftrightarrow> fOpenCount gpu = int n \<and> powered gpu = (0 < n) \<and> fInitHardware gpu = (0 < n)"

lemma held_AcquireRef:
  assumes "held n gpu" "AcquireRef env gpu = (r, gpu')"
  shows "held (if isl r then n else Suc n) gpu'" "Nv gpu' = Nv gpu"
proof -
  show "held (if isl r then n else Suc n) gpu'"
  proof (cases "n = 0")
    case True
    then show ?thesis using assms
      by (auto simp: held_def AcquireRef_def Start_def powered_def Let_def split: if_splits)
  next
    case False
    with assms(1) have "0 < fOpenCount gpu" by (simp add: held_def)
    with assms(2) have "gpu' = gpu\<lparr>fOpenCount := fOpenCount gpu + 1\<rparr>" "r = B_OK" by (auto simp: AcquireRef_open)
    then show ?thesis using assms(1) False by (auto simp: held_def powered_def)
  qed
  show "Nv gpu' = Nv gpu"
    using assms(2) by (auto simp: AcquireRef_def Start_def Let_def split: if_splits)
qed

lemma held_ReleaseRef:
  assumes "held (Suc n) gpu"
  shows "held n (ReleaseRef gpu)" "Nv (ReleaseRef gpu) = Nv gpu"
proof -
  show "held n (ReleaseRef gpu)"
  proof (cases "n = 0")
    case True
    then show ?thesis using assms by (auto simp: held_def ReleaseRef_simps powered_def)
  next
    case False
    then show ?thesis using assms by (auto simp: held_def ReleaseRef_simps powered_def)
  qed
  show "Nv (ReleaseRef gpu) = Nv gpu" by (simp add: ReleaseRef_def Stop_def Let_def)
qed

lemma Open_AcquireRef: "NvHaikuDevice_Open True env gpu = AcquireRef env gpu"
  by (auto simp: NvHaikuDevice_Open_def CHECK_RET_st_def split: prod.splits sum.splits)

lemma gpu_index_less: "gpu_index gpuId gpus = Some i \<Longrightarrow> i < length gpus"
  by (induction gpus arbitrary: i) (auto split: if_splits)

lemma gpu_index_update:
  "Nv gpu = Nv (gpus ! i) \<Longrightarrow> gpu_index gpuId (gpus[i := gpu]) = gpu_index gpuId gpus"
  by (induction gpus arbitrary: i) (auto split: nat.splits)

lemma open_gpu_loop_index:
  "open_gpu_loop env gpuId gpus =
     (case gpu_index gpuId gpus of None \<Rightarrow> (False, gpus)
      | Some i \<Rightarrow> (\<not> isl (fst (AcquireRef env (gpus ! i))), gpus[i := snd (AcquireRef env (gpus ! i))]))"
  by (induction gpus) (auto split: prod.splits sum.splits option.splits)

lemma close_gpu_loop_index:
  "close_gpu_loop gpuId gpus =
     (case gpu_index gpuId gpus of None \<Rightarrow> gpus | Some i \<Rightarrow> gpus[i := ReleaseRef (gpus ! i)])"
  by (induction gpus) (auto split: option.splits)

definition clients_ok :: "nv_device list \<Rightarrow> devfs_node list \<Rightarrow> u32 list \<Rightarrow> bool" where
  "clients_ok gpus fs gs \<longleftrightarrow>
     (\<forall>i < length gpus. held (references gpus fs gs i) (gpus ! i)) \<and>
     (\<forall>i. DeviceNode i \<in> set fs \<longrightarrow> i < length gpus) \<and> (\<forall>gpuId \<in> set gs. gpu_index gpuId gpus \<noteq> None)"

lemma clients_ok_update:
  assumes "clients_ok gpus fs gs" "held (references gpus fs' gs' i) gpu" "Nv gpu = Nv (gpus ! i)"
    and "\<And>j. j \<noteq> i \<Longrightarrow> references gpus fs' gs' j = references gpus fs gs j"
    and "\<And>j. DeviceNode j \<in> set fs' \<Longrightarrow> j < length gpus"
    and "\<And>gpuId. gpuId \<in> set gs' \<Longrightarrow> gpu_index gpuId gpus \<noteq> None"
  shows "clients_ok (gpus[i := gpu]) fs' gs'"
proof -
  have refs: "references (gpus[i := gpu]) fs' gs' = references gpus fs' gs'"
    by (simp add: fun_eq_iff references_def gpu_index_update [OF assms(3)])
  have "held (references gpus fs' gs' j) (gpus[i := gpu] ! j)" if "j < length gpus" for j
    using assms(1,2,4) that by (cases "j = i") (auto simp: clients_ok_def)
  then show ?thesis
    using assms(5,6) by (simp add: clients_ok_def refs gpu_index_update [OF assms(3)])
qed

lemma count_remove_nth:
  assumes "k < length xs"
  shows "count_list xs x = count_list (remove_nth k xs) x + (if xs ! k = x then 1 else 0)"
    and "set (remove_nth k xs) \<subseteq> set xs"
proof -
  have "count_list xs x = count_list (take k xs @ xs ! k # drop (Suc k) xs) x" using id_take_nth_drop [OF assms] by simp
  then show "count_list xs x = count_list (remove_nth k xs) x + (if xs ! k = x then 1 else 0)"
    by (simp add: remove_nth_def)
  show "set (remove_nth k xs) \<subseteq> set xs"
    using set_take_subset [of k xs] set_drop_subset [of "Suc k" xs] by (auto simp: remove_nth_def)
qed

lemma length_filter_remove1:
  "x \<in> set xs \<Longrightarrow> length (filter P xs) = length (filter P (remove1 x xs)) + (if P x then 1 else 0)"
  by (induction xs) auto

section \<open>Every operation keeps it\<close>

definition world_ok :: "gpu_world \<Rightarrow> bool" where
  "world_ok w \<longleftrightarrow> clients_ok (fDevices (kernel_driver w)) (files w) (granted w)"

lemma FindDevice_less: "FindDevice errno0 d name = Some (DeviceNode i) \<Longrightarrow> i < length (fDevices d)"
proof -
  assume "FindDevice errno0 d name = Some (DeviceNode i)"
  then obtain index where index: "\<not> index \<ge> of_nat (length (fDevices d))" "i = unat (index :: u32)"
    by (auto simp: FindDevice_def split: if_splits option.splits)
  then have "unat index < unat (of_nat (length (fDevices d)) :: u32)" by (simp add: word_less_nat_alt not_le)
  also have "\<dots> \<le> length (fDevices d)" by (simp add: unat_of_nat)
  finally show ?thesis by (simp add: index(2))
qed

lemma world_ok_device:
  assumes "world_ok w" "i < length (fDevices (kernel_driver w))"
  shows "held (references (fDevices (kernel_driver w)) (files w) (granted w) i) (fDevices (kernel_driver w) ! i)"
  using assms by (simp add: world_ok_def clients_ok_def)

lemma OpenFile_ok:
  assumes "world_ok w"
  shows "world_ok (gpu_step (OpenFile errno0 name mem env) w)"
proof (cases "FindDevice errno0 (kernel_driver w) name")
  case (Some node)
  let ?gpus = "fDevices (kernel_driver w)"
  show ?thesis
  proof (cases node)
    case ControlNode
    then show ?thesis using assms Some by (auto simp: world_ok_def clients_ok_def references_def)
  next
    case (DeviceNode i)
    then have i: "i < length ?gpus" using Some FindDevice_less by simp
    obtain r gpu where open_gpu: "NvHaikuDevice_Open mem env (?gpus ! i) = (r, gpu)" by fastforce
    let ?n = "references ?gpus (files w) (granted w) i"
    let ?files = "if isl r then files w else DeviceNode i # files w"
    have keep: "held (if isl r then ?n else Suc ?n) gpu \<and> Nv gpu = Nv (?gpus ! i)"
    proof (cases mem)
      case True
      then have "AcquireRef env (?gpus ! i) = (r, gpu)" using open_gpu by (simp add: Open_AcquireRef)
      then show ?thesis using held_AcquireRef [OF world_ok_device [OF assms i]] by blast
    next
      case False
      then show ?thesis using open_gpu world_ok_device [OF assms i] by (auto simp: NvHaikuDevice_Open_def)
    qed
    have "clients_ok (?gpus[i := gpu]) ?files (granted w)"
    proof (rule clients_ok_update [OF assms [unfolded world_ok_def]])
      show "held (references ?gpus ?files (granted w) i) gpu"
        using keep by (auto simp: references_def split: if_splits)
      show "j < length ?gpus" if "DeviceNode j \<in> set ?files" for j
        using that i assms by (auto simp: world_ok_def clients_ok_def split: if_splits)
    qed (use keep assms in \<open>auto simp: references_def world_ok_def clients_ok_def\<close>)
    then show ?thesis using Some DeviceNode open_gpu
      by (cases r) (simp_all add: world_ok_def update_device_def)
  qed
qed (use assms in simp)

lemma CloseFile_ok:
  assumes "world_ok w"
  shows "world_ok (gpu_step (CloseFile k) w)"
proof (cases "k < length (files w)")
  case k: True
  let ?gpus = "fDevices (kernel_driver w)" and ?files = "remove_nth k (files w)"
  note removed = count_remove_nth(1) [OF k] count_remove_nth(2) [OF k]
  show ?thesis
  proof (cases "files w ! k")
    case ControlNode
    then show ?thesis using assms k removed by (auto simp: world_ok_def clients_ok_def references_def)
  next
    case (DeviceNode i)
    then have i: "i < length ?gpus" using assms k by (auto simp: world_ok_def clients_ok_def dest: nth_mem)
    have "references ?gpus (files w) (granted w) i = Suc (references ?gpus ?files (granted w) i)"
      using removed(1) [of "DeviceNode i"] DeviceNode by (simp add: references_def)
    then have "held (Suc (references ?gpus ?files (granted w) i)) (?gpus ! i)"
      using world_ok_device [OF assms i] by simp
    note release = held_ReleaseRef [OF this]
    have "clients_ok (?gpus[i := ReleaseRef (?gpus ! i)]) ?files (granted w)"
      by (rule clients_ok_update [OF assms [unfolded world_ok_def] release])
        (use removed DeviceNode assms in \<open>auto simp: references_def world_ok_def clients_ok_def\<close>)
    then show ?thesis using k DeviceNode by (simp add: world_ok_def update_device_def NvHaikuDevice_Closed_def)
  qed
qed (use assms in simp)

lemma NvkmsOpenGpu_ok:
  assumes "world_ok w"
  shows "world_ok (gpu_step (NvkmsOpenGpu env gpuId) w)"
proof (cases "gpu_index gpuId (fDevices (kernel_driver w))")
  case None
  then show ?thesis using assms
    by (simp add: nvkms_open_gpu_def nvidia_module_open_gpu_def open_gpu_loop_index world_ok_def)
next
  case (Some i)
  let ?gpus = "fDevices (kernel_driver w)"
  have i: "i < length ?gpus" by (rule gpu_index_less [OF Some])
  obtain r gpu where acquire: "AcquireRef env (?gpus ! i) = (r, gpu)" by fastforce
  note keep = held_AcquireRef [OF world_ok_device [OF assms i] acquire]
  let ?granted = "if isl r then granted w else gpuId # granted w"
  have "clients_ok (?gpus[i := gpu]) (files w) ?granted"
    by (rule clients_ok_update [OF assms [unfolded world_ok_def] _ keep(2)])
      (use keep(1) Some assms in \<open>auto simp: references_def world_ok_def clients_ok_def split: if_splits\<close>)
  then show ?thesis using Some acquire
    by (auto simp: nvkms_open_gpu_def nvidia_module_open_gpu_def open_gpu_loop_index world_ok_def)
qed

lemma NvkmsCloseGpu_ok:
  assumes "world_ok w"
  shows "world_ok (gpu_step (NvkmsCloseGpu gpuId) w)"
proof (cases "gpuId \<in> set (granted w)")
  case True
  let ?gpus = "fDevices (kernel_driver w)" and ?granted = "remove1 gpuId (granted w)"
  obtain i where index: "gpu_index gpuId ?gpus = Some i"
    using True assms by (auto simp: world_ok_def clients_ok_def)
  have i: "i < length ?gpus" by (rule gpu_index_less [OF index])
  note removed = length_filter_remove1 [OF True]
  have "references ?gpus (files w) (granted w) i = Suc (references ?gpus (files w) ?granted i)"
    using removed [of "\<lambda>gpuId. gpu_index gpuId ?gpus = Some i"] index by (simp add: references_def)
  then have "held (Suc (references ?gpus (files w) ?granted i)) (?gpus ! i)"
    using world_ok_device [OF assms i] by simp
  note release = held_ReleaseRef [OF this]
  have "clients_ok (?gpus[i := ReleaseRef (?gpus ! i)]) (files w) ?granted"
  proof (rule clients_ok_update [OF assms [unfolded world_ok_def] release])
    show "references ?gpus (files w) ?granted j = references ?gpus (files w) (granted w) j" if "j \<noteq> i" for j
      using removed [of "\<lambda>gpuId. gpu_index gpuId ?gpus = Some j"] index that by (simp add: references_def)
  qed (use assms set_remove1_subset in \<open>fastforce simp: world_ok_def clients_ok_def\<close>)+
  then show ?thesis using True index
    by (simp add: nvkms_close_gpu_def nvidia_module_close_gpu_def close_gpu_loop_index world_ok_def)
qed (use assms in simp)

lemma gpu_run_ok: "world_ok w \<Longrightarrow> world_ok (gpu_run ops w)"
proof (induction ops arbitrary: w)
  case (Cons op ops)
  have "world_ok (gpu_step op w)"
    by (cases op) (use Cons.prems OpenFile_ok CloseFile_ok NvkmsOpenGpu_ok NvkmsCloseGpu_ok in simp_all)
  then show ?case using Cons.IH by (simp add: gpu_run_def)
qed (simp add: gpu_run_def)

section \<open>A driver that is loaded\<close>

lemma Init_held: "NvHaikuDevice_Init env p gpu = Some (r, gpu') \<Longrightarrow> held n gpu' = held n gpu"
  by (auto simp: NvHaikuDevice_Init_def Let_def held_def powered_def split_beta split: if_splits)

lemma Probe_held:
  assumes "Probe env p = Some (Inr gpu)" "\<not> adapter_up (pe_hw env)"
  shows "held 0 gpu"
proof -
  have "held 0 (NvHaikuDevice_new (pe_consts env) (pe_hw env))"
    using assms(2) by (simp add: held_def powered_def NvHaikuDevice_new_def)
  with assms(1) show ?thesis by (auto simp: Probe_def CHECK_RET_Inr_iff Init_held split: if_splits)
qed

lemma scan_pci_held:
  "scan_pci xs (d, l) = Some (r, d', l') \<Longrightarrow> \<forall>(p, env, add) \<in> set xs. \<not> adapter_up (pe_hw env) \<Longrightarrow>
     \<forall>gpu \<in> set (fDevices d). held 0 gpu \<Longrightarrow> \<forall>gpu \<in> set (fDevices d'). held 0 gpu"
proof (induction xs "(d, l)" arbitrary: d l rule: scan_pci.induct)
  case (2 p env add rest d l)
  show ?case
  proof (cases "Probe env p")
    case None
    then show ?thesis using 2(3) by simp
  next
    case (Some s)
    show ?thesis
    proof (cases s)
      case (Inl e)
      then show ?thesis using 2 Some by simp
    next
      case (Inr gpu)
      then have "held 0 (gpu\<lparr>fDeviceIndex := of_nat (length (fDevices d))\<rparr>)"
        using Probe_held [of env p gpu] Some 2(4) by (auto simp: held_def powered_def)
      then show ?thesis using "2.hyps"(2) [OF Some Inr refl] "2.prems" Some Inr by (cases add) auto
    qed
  qed
qed simp

lemma loaded_held:
  assumes "nvidia_module_init env l = Some (B_OK, d, l1)" "\<forall>(p, pe, add) \<in> set (ie_scan env). \<not> adapter_up (pe_hw pe)"
  shows "\<forall>gpu \<in> set (fDevices d). held 0 gpu"
proof -
  from assms(1) have "NvHaikuDriver_Init env (NvHaikuDriver_new, l) = Some (B_OK, d, l1)"
    by (auto simp: nvidia_module_init_def split: option.splits sum.splits)
  then obtain d0 l0 d1 l2 where "scan_pci (ie_scan env) (d0, l0) = Some (B_OK, d1, l2)" "fDevices d0 = []"
    "fDevices d = fDevices d1"
    by (auto simp: NvHaikuDriver_Init_def NvHaikuDriver_new_def Let_def split: sum.splits option.splits if_splits)
  then show ?thesis using scan_pci_held [OF _ assms(2)] by simp
qed

text \<open>
  C11: device files and mode setting share a GPU without taking it from each other. From the
  moment the driver is loaded, with the adapters down, and along every sequence of opened and closed
  device files and of GPUs that \<open>nvkms_open_gpu\<close> grants and \<open>nvkms_close_gpu\<close> gives back, failed opens
  and failed starts included, the open count of every GPU is the number of open files on it plus the
  grants of its id, and the GPU is up exactly while that number is not zero. So a GPU is up for
  everyone who has it open or granted, whatever the other clients do.
\<close>

theorem gpu_clients_share:
  assumes "nvidia_module_init env l = Some (B_OK, d, l1)" "\<forall>(p, pe, add) \<in> set (ie_scan env). \<not> adapter_up (pe_hw pe)"
    and "w = gpu_run ops \<lparr>kernel_driver = d, files = [], granted = []\<rparr>"
    and "gpus = fDevices (kernel_driver w)"
  shows "(\<forall>i < length gpus. fOpenCount (gpus ! i) = int (references gpus (files w) (granted w) i) \<and>
            powered (gpus ! i) = (0 < references gpus (files w) (granted w) i)) \<and>
         (\<forall>i. DeviceNode i \<in> set (files w) \<longrightarrow> i < length gpus \<and> powered (gpus ! i)) \<and>
         (\<forall>gpuId \<in> set (granted w). \<exists>i. gpu_index gpuId gpus = Some i \<and> i < length gpus \<and> powered (gpus ! i))"
proof -
  have "references (fDevices d) [] [] i = 0" for i by (simp add: references_def)
  then have "world_ok \<lparr>kernel_driver = d, files = [], granted = []\<rparr>"
    using loaded_held [OF assms(1,2)] by (simp add: world_ok_def clients_ok_def)
  then have "world_ok w" unfolding assms(3) by (rule gpu_run_ok)
  then have ok: "clients_ok gpus (files w) (granted w)" by (simp add: world_ok_def assms(4))
  then have count: "fOpenCount (gpus ! i) = int (references gpus (files w) (granted w) i) \<and>
      powered (gpus ! i) = (0 < references gpus (files w) (granted w) i)" if "i < length gpus" for i
    using that by (simp add: clients_ok_def held_def)
  have "i < length gpus \<and> powered (gpus ! i)" if "DeviceNode i \<in> set (files w)" for i
  proof -
    have "0 < references gpus (files w) (granted w) i"
      using that by (simp add: references_def) (metis count_list_0_iff gr0I)
    then show ?thesis using ok count that by (simp add: clients_ok_def)
  qed
  moreover have "\<exists>i. gpu_index gpuId gpus = Some i \<and> i < length gpus \<and> powered (gpus ! i)"
    if "gpuId \<in> set (granted w)" for gpuId
  proof -
    obtain i where i: "gpu_index gpuId gpus = Some i" using ok \<open>gpuId \<in> set (granted w)\<close> by (auto simp: clients_ok_def)
    then have "gpuId \<in> set (filter (\<lambda>gpuId. gpu_index gpuId gpus = Some i) (granted w))" using that by simp
    then have "filter (\<lambda>gpuId. gpu_index gpuId gpus = Some i) (granted w) \<noteq> []" by (metis empty_iff empty_set)
    then have "0 < references gpus (files w) (granted w) i" by (simp add: references_def)
    then show ?thesis using i gpu_index_less [OF i] count by auto
  qed
  ultimately show ?thesis using count by blast
qed

text \<open>One GPU: mode setting takes it, a file is opened and closed.\<close>

definition ex_clients :: "gpu_op list" where
  "ex_clients = [NvkmsOpenGpu ex_start 7, OpenFile False (device_name 0) True ex_start, CloseFile 0]"

lemma gpu_clients_share_witness:
  "\<exists>d l1 w. nvidia_module_init ex_hole ex_ledger = Some (B_OK, d, l1) \<and>
     w = gpu_run ex_clients \<lparr>kernel_driver = d, files = [], granted = []\<rparr> \<and>
     (\<forall>i < length (fDevices (kernel_driver w)). powered (fDevices (kernel_driver w) ! i) =
        (0 < references (fDevices (kernel_driver w)) (files w) (granted w) i))"
proof -
  from ex_hole_ready obtain d l1 where "nvidia_module_init ex_hole ex_ledger = Some (B_OK, d, l1)" by blast
  moreover have "\<forall>(p, pe, add) \<in> set (ie_scan ex_hole). \<not> adapter_up (pe_hw pe)"
    by (simp add: ex_hole_def ex_probe_def)
  ultimately show ?thesis using gpu_clients_share [OF _ _ refl refl, of ex_hole ex_ledger d l1 ex_clients] by metis
qed

end
