(* ===== verification/GpuFleet.thy ===== *)
theory GpuFleet
  imports GpuSteps GpuClients
begin

text \<open>
  All GPUs of the driver at once, in single operations. \<open>GpuClients\<close> runs the opens and closes of device
  files and the grants of mode setting one after the other; \<open>GpuSteps\<close> runs one GPU in single operations.
  Here any number of threads open, close, take and give back any of the GPUs, in single operations and with
  interrupts in between. The flag \<open>apart\<close> keeps the runs in which no thread enters \<open>AcquireRef\<close> or \<open>ReleaseRef\<close>
  of a GPU while another thread is inside them for the same GPU. The driver does nothing to ensure it. In all
  runs the counts are right; in these the interleavings are no more than the sequences of \<open>GpuClients\<close>.
\<close>

section \<open>Threads on several GPUs\<close>

text \<open>Who an open is made for: a file by its name, or mode setting by the id of the GPU. A thread that is
  inside \<open>AcquireRef\<close> or \<open>ReleaseRef\<close> works on one GPU.\<close>

datatype client = ByName bool string | ById u32

datatype worker = Resting | Busy nat client gpu_pc

record fleet =
  world :: gpu_world
  workers :: "nat \<Rightarrow> worker"
  calls :: "nat \<Rightarrow> nat"

abbreviation gpus :: "fleet \<Rightarrow> nv_device list" where
  "gpus s \<equiv> fDevices (kernel_driver (world s))"

fun client_target :: "client \<Rightarrow> driver \<Rightarrow> nat option" where
  "client_target (ByName errno0 name) d =
     (case FindDevice errno0 d name of Some (DeviceNode i) \<Rightarrow> Some i | _ \<Rightarrow> None)"
| "client_target (ById gpuId) d = gpu_index gpuId (fDevices d)"

fun hand_out :: "client \<Rightarrow> nat \<Rightarrow> gpu_world \<Rightarrow> gpu_world" where
  "hand_out (ByName errno0 name) i w = w\<lparr>files := DeviceNode i # files w\<rparr>"
| "hand_out (ById gpuId) i w = w\<lparr>granted := gpuId # granted w\<rparr>"

definition with_gpu :: "nat \<Rightarrow> nv_device \<Rightarrow> gpu_world \<Rightarrow> gpu_world" where
  "with_gpu i d w = w\<lparr>kernel_driver := update_device i d (kernel_driver w)\<rparr>"

text \<open>The \<open>fetch_add\<close> of \<open>AcquireRef\<close>, the \<open>fetch_sub\<close> of \<open>ReleaseRef\<close>, an operation of \<open>Start\<close> or \<open>Stop\<close>.\<close>

definition fleet_acquire :: "nat \<Rightarrow> client \<Rightarrow> nat \<Rightarrow> fleet \<Rightarrow> fleet" where
  "fleet_acquire t c i s =
     (let d = gpus s ! i; w = with_gpu i (d\<lparr>fOpenCount := fOpenCount d + 1\<rparr>) (world s)
      in if fOpenCount d = 0 then s\<lparr>world := w, workers := (workers s)(t := Busy i c StartRead)\<rparr>
         else s\<lparr>world := hand_out c i w\<rparr>)"

definition fleet_release :: "nat \<Rightarrow> client \<Rightarrow> nat \<Rightarrow> fleet \<Rightarrow> fleet" where
  "fleet_release t c i s =
     (let d = gpus s ! i; w = with_gpu i (d\<lparr>fOpenCount := fOpenCount d - 1\<rparr>) (world s)
      in if fOpenCount d = 1 then s\<lparr>world := w, workers := (workers s)(t := Busy i c StopTest)\<rparr>
         else s\<lparr>world := w\<rparr>)"

definition fleet_operate :: "start_env \<Rightarrow> nat \<Rightarrow> nat \<Rightarrow> client \<Rightarrow> gpu_pc \<Rightarrow> fleet \<Rightarrow> fleet" where
  "fleet_operate env t i c p s =
     (let (p', d) = op_step env p (gpus s ! i); w = with_gpu i d (world s)
      in s\<lparr>world := (if p = StartFlag then hand_out c i w else w),
           workers := (workers s)(t := if p' = Idle then Resting else Busy i c p')\<rparr>)"

definition on_gpu :: "nat \<Rightarrow> worker \<Rightarrow> bool" where
  "on_gpu i w \<longleftrightarrow> (\<exists>c p. w = Busy i c p)"

definition may_enter :: "bool \<Rightarrow> nat \<Rightarrow> fleet \<Rightarrow> bool" where
  "may_enter apart i s \<longleftrightarrow> (apart \<longrightarrow> (\<forall>t. \<not> on_gpu i (workers s t)))"

text \<open>Opens of unknown names and opens without memory for the handle change nothing and are no moves. The
  control device takes no reference.\<close>

inductive fleet_move :: "bool \<Rightarrow> nat \<Rightarrow> fleet \<Rightarrow> fleet \<Rightarrow> bool" for apart N where
  acquire: "t < N \<Longrightarrow> workers s t = Resting \<Longrightarrow> client_target c (kernel_driver (world s)) = Some i \<Longrightarrow>
     may_enter apart i s \<Longrightarrow> fleet_move apart N s (fleet_acquire t c i s)"
| open_control: "t < N \<Longrightarrow> workers s t = Resting \<Longrightarrow> FindDevice errno0 (kernel_driver (world s)) name = Some ControlNode \<Longrightarrow>
     fleet_move apart N s (s\<lparr>world := (world s)\<lparr>files := ControlNode # files (world s)\<rparr>\<rparr>)"
| operation: "t < N \<Longrightarrow> workers s t = Busy i c p \<Longrightarrow> fleet_move apart N s (fleet_operate env t i c p s)"
| close_file: "t < N \<Longrightarrow> workers s t = Resting \<Longrightarrow> k < length (files (world s)) \<Longrightarrow> files (world s) ! k = DeviceNode i \<Longrightarrow>
     may_enter apart i s \<Longrightarrow>
     fleet_move apart N s (fleet_release t (ByName errno0 name) i (s\<lparr>world := (world s)\<lparr>files := remove_nth k (files (world s))\<rparr>\<rparr>))"
| close_control: "t < N \<Longrightarrow> workers s t = Resting \<Longrightarrow> k < length (files (world s)) \<Longrightarrow> files (world s) ! k = ControlNode \<Longrightarrow>
     fleet_move apart N s (s\<lparr>world := (world s)\<lparr>files := remove_nth k (files (world s))\<rparr>\<rparr>)"
| give_back: "t < N \<Longrightarrow> workers s t = Resting \<Longrightarrow> gpuId \<in> set (granted (world s)) \<Longrightarrow> gpu_index gpuId (gpus s) = Some i \<Longrightarrow>
     may_enter apart i s \<Longrightarrow>
     fleet_move apart N s (fleet_release t (ById gpuId) i (s\<lparr>world := (world s)\<lparr>granted := remove1 gpuId (granted (world s))\<rparr>\<rparr>))"
| irq: "i < length (gpus s) \<Longrightarrow> fIrq (gpus s ! i) \<in> set (handlers (hw (gpus s ! i))) \<Longrightarrow>
     InterruptHandlerInt rm_isr = (answer, add) \<Longrightarrow>
     fleet_move apart N s (s\<lparr>calls := (calls s)(i := calls s i + of_bool add)\<rparr>)"
| dpc: "0 < calls s i \<Longrightarrow> fleet_move apart N s (s\<lparr>calls := (calls s)(i := calls s i - 1)\<rparr>)"

definition fleet_start :: "gpu_world \<Rightarrow> fleet" where
  "fleet_start w = \<lparr>world = w, workers = (\<lambda>_. Resting), calls = (\<lambda>_. 0)\<rparr>"

inductive fleet_reach :: "bool \<Rightarrow> nat \<Rightarrow> gpu_world \<Rightarrow> fleet \<Rightarrow> bool" for apart N w where
  start: "fleet_reach apart N w (fleet_start w)"
| step: "fleet_reach apart N w s \<Longrightarrow> fleet_move apart N s s' \<Longrightarrow> fleet_reach apart N w s'"

section \<open>Each GPU for itself\<close>

text \<open>What one GPU sees of the fleet.\<close>

fun pc_on :: "nat \<Rightarrow> worker \<Rightarrow> gpu_pc" where
  "pc_on i Resting = Idle"
| "pc_on i (Busy j c p) = (if j = i then p else Idle)"

definition gpu_view :: "nat \<Rightarrow> fleet \<Rightarrow> gpu_sys" where
  "gpu_view i s =
     \<lparr>g_dev = gpus s ! i, g_pcs = (\<lambda>t. pc_on i (workers s t)),
      g_refs = references (gpus s) (files (world s)) (granted (world s)) i, g_queued = calls s i\<rparr>"

text \<open>The identity of the devices never changes, and who starts a GPU came as a client of it.\<close>

definition world_good :: "driver \<Rightarrow> gpu_world \<Rightarrow> bool" where
  "world_good d w \<longleftrightarrow>
     (\<exists>gs. kernel_driver w = d\<lparr>fDevices := gs\<rparr> \<and> map Nv gs = map Nv (fDevices d)) \<and>
     (\<forall>i. DeviceNode i \<in> set (files w) \<longrightarrow> i < length (fDevices d)) \<and>
     (\<forall>gpuId \<in> set (granted w). gpu_index gpuId (fDevices d) \<noteq> None)"

fun worker_ok :: "driver \<Rightarrow> worker \<Rightarrow> bool" where
  "worker_ok d Resting = True"
| "worker_ok d (Busy i c p) \<longleftrightarrow>
     i < length (fDevices d) \<and> p \<noteq> Idle \<and> (pending p \<longrightarrow> client_target c d = Some i)"

definition fleet_ok :: "driver \<Rightarrow> fleet \<Rightarrow> bool" where
  "fleet_ok d s \<longleftrightarrow> world_good d (world s) \<and> (\<forall>t. worker_ok d (workers s t))"

lemma gpu_index_Nv: "map Nv gs = map Nv gs' \<Longrightarrow> gpu_index gpuId gs = gpu_index gpuId gs'"
proof (induction gs arbitrary: gs')
  case (Cons g gs)
  then show ?case by (cases gs') auto
qed simp

lemma references_Nv: "map Nv gs = map Nv gs' \<Longrightarrow> references gs fs ids = references gs' fs ids"
  by (simp add: fun_eq_iff references_def gpu_index_Nv [of gs gs'])

lemma map_Nv_update: "Nv d = Nv (gs ! i) \<Longrightarrow> map Nv (gs[i := d]) = map Nv gs"
  by (metis list_update_id map_update)

lemma FindDevice_devices: "length gs = length (fDevices d) \<Longrightarrow> FindDevice errno0 (d\<lparr>fDevices := gs\<rparr>) name = FindDevice errno0 d name"
  by (auto simp: FindDevice_def split: option.splits)

lemma client_target_Nv:
  assumes "map Nv gs = map Nv (fDevices d)"
  shows "client_target c (d\<lparr>fDevices := gs\<rparr>) = client_target c d"
proof -
  have "length gs = length (fDevices d)" using assms by (metis length_map)
  then show ?thesis by (cases c) (simp_all add: FindDevice_devices gpu_index_Nv [OF assms])
qed

fun_cases client_targetE: "client_target c d = Some i"

lemma client_target_less: "client_target c d = Some i \<Longrightarrow> i < length (fDevices d)"
  by (elim client_targetE) (auto dest: FindDevice_less gpu_index_less gpu_index_less [OF sym] split: option.splits devfs_node.splits)

lemma op_step_Nv: "op_step env p d = (p', d') \<Longrightarrow> Nv d' = Nv d"
  by (cases p) (auto split: if_splits)

lemma with_gpu_simps [simp]:
  "fDevices (kernel_driver (with_gpu i d w)) = (fDevices (kernel_driver w))[i := d]"
  "files (with_gpu i d w) = files w" "granted (with_gpu i d w) = granted w"
  by (simp_all add: with_gpu_def update_device_def)

lemma hand_out_kernel_driver [simp]: "kernel_driver (hand_out c i w) = kernel_driver w"
  by (cases c) simp_all

lemma hand_out_references:
  assumes "client_target c d = Some i" "map Nv gs = map Nv (fDevices d)"
  shows "references gs (files (hand_out c i w)) (granted (hand_out c i w)) j =
    references gs (files w) (granted w) j + of_bool (j = i)"
  using assms gpu_index_Nv [OF assms(2)]
  by (cases c) (auto simp: references_def split: option.splits devfs_node.splits)

lemma with_gpu_driver: "kernel_driver (with_gpu i g w) = (kernel_driver w)\<lparr>fDevices := (fDevices (kernel_driver w))[i := g]\<rparr>"
  by (simp add: with_gpu_def update_device_def)

lemma references_same [simp]:
  "Nv d = Nv (gs ! i) \<Longrightarrow> references (gs[i := d]) fs ids = references gs fs ids"
  by (rule references_Nv) (rule map_Nv_update)

lemma world_goodD:
  assumes "world_good d w"
  shows "kernel_driver w = d\<lparr>fDevices := fDevices (kernel_driver w)\<rparr>" "map Nv (fDevices (kernel_driver w)) = map Nv (fDevices d)"
    "length (fDevices (kernel_driver w)) = length (fDevices d)"
proof -
  from assms obtain gs where gs: "kernel_driver w = d\<lparr>fDevices := gs\<rparr>" "map Nv gs = map Nv (fDevices d)"
    by (auto simp: world_good_def)
  then show "kernel_driver w = d\<lparr>fDevices := fDevices (kernel_driver w)\<rparr>" "map Nv (fDevices (kernel_driver w)) = map Nv (fDevices d)"
    by simp_all
  then show "length (fDevices (kernel_driver w)) = length (fDevices d)" by (metis length_map)
qed

lemma world_good_with_gpu:
  assumes "world_good d w" "Nv g = Nv (fDevices (kernel_driver w) ! i)"
  shows "world_good d (with_gpu i g w)"
proof -
  have "map Nv ((fDevices (kernel_driver w))[i := g]) = map Nv (fDevices d)"
    using assms world_goodD(2) by (simp add: map_Nv_update)
  moreover have "kernel_driver (with_gpu i g w) = d\<lparr>fDevices := (fDevices (kernel_driver w))[i := g]\<rparr>"
    using world_goodD(1) [OF assms(1)] by (metis driver.update_convs(4) driver.select_convs(4) driver.surjective with_gpu_driver)
  ultimately show ?thesis using assms(1) by (auto simp: world_good_def)
qed

lemma world_good_hand_out:
  "world_good d w \<Longrightarrow> client_target c d = Some i \<Longrightarrow> world_good d (hand_out c i w)"
  by (cases c) (auto simp: world_good_def dest: FindDevice_less split: option.splits devfs_node.splits)

lemma world_good_fewer:
  assumes "world_good d w" "kernel_driver w' = kernel_driver w" "set (files w') \<subseteq> insert ControlNode (set (files w))"
    "set (granted w') \<subseteq> set (granted w)"
  shows "world_good d w'"
  using assms unfolding world_good_def by auto

lemma world_good_remove:
  assumes "world_good d w" "k < length (files w)"
  shows "world_good d (w\<lparr>files := remove_nth k (files w)\<rparr>)"
  by (rule world_good_fewer [OF assms(1)]; use count_remove_nth(2) [OF assms(2)] in auto)

lemma client_target_good: "world_good d w \<Longrightarrow> client_target c (kernel_driver w) = client_target c d"
  using client_target_Nv world_goodD(1,2) by metis

lemma pc_on_upd:
  "(\<lambda>u. pc_on j ((f(t := w)) u)) = (\<lambda>u. pc_on j (f u))(t := pc_on j w)"
  by (rule ext) simp

text \<open>A move on one GPU is a move of that GPU, and the others do not see it.\<close>

lemma view_acquire:
  assumes "fleet_ok d s" "workers s t = Resting" "client_target c (kernel_driver (world s)) = Some i"
  shows "gpu_view j (fleet_acquire t c i s) =
    (if j = i then (gpu_view i s)\<lparr>g_dev := (g_dev (gpu_view i s))\<lparr>fOpenCount := fOpenCount (g_dev (gpu_view i s)) + 1\<rparr>,
       g_pcs := (g_pcs (gpu_view i s))(t := if fOpenCount (g_dev (gpu_view i s)) = 0 then StartRead else Idle),
       g_refs := g_refs (gpu_view i s) + of_bool (fOpenCount (g_dev (gpu_view i s)) \<noteq> 0)\<rparr>
     else gpu_view j s)"
proof -
  have i: "i < length (gpus s)" using client_target_less [OF assms(3)] by simp
  have c: "client_target c d = Some i" and Nv: "map Nv (gpus s) = map Nv (fDevices d)"
    using assms(1,3) client_target_good world_goodD(2) by (auto simp: fleet_ok_def)
  show ?thesis
    using i assms(2) hand_out_references [OF c, of "(gpus s)[i := (gpus s ! i)\<lparr>fOpenCount := fOpenCount (gpus s ! i) + 1\<rparr>]"] Nv
    by (auto simp: gpu_view_def fleet_acquire_def Let_def map_Nv_update pc_on_upd fun_eq_iff)
qed

lemma view_release:
  assumes "workers s t = Resting" "i < length (gpus s)" "kernel_driver w = kernel_driver (world s)"
    and refs: "\<And>j. references (gpus s) (files (world s)) (granted (world s)) j =
      references (gpus s) (files w) (granted w) j + of_bool (j = i)"
  shows "gpu_view j (fleet_release t c i (s\<lparr>world := w\<rparr>)) =
    (if j = i then (gpu_view i s)\<lparr>g_dev := (g_dev (gpu_view i s))\<lparr>fOpenCount := fOpenCount (g_dev (gpu_view i s)) - 1\<rparr>,
       g_pcs := (g_pcs (gpu_view i s))(t := if fOpenCount (g_dev (gpu_view i s)) = 1 then StopTest else Idle),
       g_refs := g_refs (gpu_view i s) - 1\<rparr>
     else gpu_view j s)"
  using assms by (auto simp: gpu_view_def fleet_release_def Let_def pc_on_upd fun_eq_iff refs)

lemma release_move:
  assumes "t < N" "workers s t = Resting" "i < length (gpus s)" "kernel_driver w = kernel_driver (world s)"
    and refs: "\<And>j. references (gpus s) (files (world s)) (granted (world s)) j =
      references (gpus s) (files w) (granted w) j + of_bool (j = i)"
  shows "gpu_view j (fleet_release t c i (s\<lparr>world := w\<rparr>)) = gpu_view j s \<or>
    gpu_move N (\<lambda>_. True) (gpu_view j s) (gpu_view j (fleet_release t c i (s\<lparr>world := w\<rparr>)))"
proof -
  have "0 < g_refs (gpu_view i s)" "g_pcs (gpu_view i s) t = Idle" using refs [of i] assms(2) by (simp_all add: gpu_view_def)
  then show ?thesis
    using gpu_move.release [of t N "gpu_view i s" "\<lambda>_. True"] view_release [OF assms(2-5), of j c] assms(1) by auto
qed

lemma references_close:
  assumes "k < length fs" "fs ! k = DeviceNode i"
  shows "references gs fs ids j = references gs (remove_nth k fs) ids j + of_bool (j = i)"
  using count_remove_nth(1) [OF assms(1), of "DeviceNode j"] assms(2) by (auto simp: references_def)

lemma references_give_back:
  assumes "gpuId \<in> set ids" "gpu_index gpuId gs = Some i"
  shows "references gs fs ids j = references gs fs (remove1 gpuId ids) j + of_bool (j = i)"
  using length_filter_remove1 [OF assms(1), of "\<lambda>gpuId. gpu_index gpuId gs = Some j"] assms(2) by (auto simp: references_def)

lemma view_operate:
  assumes "fleet_ok d s" "workers s t = Busy i c p" "op_step env p (gpus s ! i) = (p', g)"
  shows "gpu_view j (fleet_operate env t i c p s) =
    (if j = i then (gpu_view i s)\<lparr>g_dev := g, g_pcs := (g_pcs (gpu_view i s))(t := p'),
       g_refs := g_refs (gpu_view i s) + of_bool (p = StartFlag)\<rparr>
     else gpu_view j s)"
proof -
  have Nv: "map Nv (gpus s) = map Nv (fDevices d)" and len: "length (gpus s) = length (fDevices d)"
    using assms(1) world_goodD(2,3) by (simp_all add: fleet_ok_def)
  have "worker_ok d (Busy i c p)" using assms(1,2) by (metis fleet_ok_def)
  then have i: "i < length (gpus s)" and c: "p = StartFlag \<Longrightarrow> client_target c d = Some i"
    by (simp_all add: len pending_def)
  have g: "map Nv ((gpus s)[i := g]) = map Nv (fDevices d)" using op_step_Nv [OF assms(3)] Nv by (simp add: map_Nv_update)
  have "references ((gpus s)[i := g]) fs ids = references (gpus s) fs ids" for fs ids
    using op_step_Nv [OF assms(3)] by simp
  then show ?thesis
    using i assms(2,3) hand_out_references [OF c g] by (auto simp: gpu_view_def fleet_operate_def pc_on_upd fun_eq_iff)
qed

lemma view_move:
  assumes "fleet_ok d s" "fleet_move apart N s s'" "j < length (gpus s)"
  shows "gpu_view j s' = gpu_view j s \<or> gpu_move N (\<lambda>_. True) (gpu_view j s) (gpu_view j s')"
  using assms(2)
proof cases
  case (acquire t c i)
  then show ?thesis
    using gpu_move.acquire [of t N "gpu_view i s" "\<lambda>_. True"] view_acquire [OF assms(1) acquire(3,4), of j]
    by (auto simp: gpu_view_def)
next
  case (open_control t errno0 name)
  then show ?thesis by (simp add: gpu_view_def references_def)
next
  case (operation t i c p env)
  obtain p' g where op: "op_step env p (gpus s ! i) = (p', g)" by fastforce
  have "thread_op env (g_pcs (gpu_view i s) t, g_dev (gpu_view i s), g_refs (gpu_view i s)) =
      (p', g, g_refs (gpu_view i s) + of_bool (p = StartFlag))"
    using operation(3) op by (simp add: gpu_view_def)
  from gpu_move.operation [where s = "gpu_view i s" and ok = "\<lambda>_. True", OF operation(2) TrueI this]
  show ?thesis using view_operate [OF assms(1) operation(3) op, of j] operation(1) by auto
next
  case (close_file t k i errno0 name)
  have "i < length (gpus s)" using assms(1) close_file(4,5) world_goodD(3) [of d "world s"]
    by (auto simp: fleet_ok_def world_good_def dest: nth_mem)
  then show ?thesis unfolding close_file(1) using close_file references_close [OF close_file(4,5)]
    by (intro release_move) auto
next
  case (close_control t k)
  then show ?thesis using count_remove_nth(1) [OF close_control(4), of "DeviceNode j"] by (simp add: gpu_view_def references_def)
next
  case (give_back t gpuId i)
  then show ?thesis unfolding give_back(1) using gpu_index_less [OF give_back(5)] references_give_back [OF give_back(4,5)]
    by (intro release_move) auto
next
  case (irq i rm_isr answer add)
  then show ?thesis using gpu_move.irq [of "gpu_view i s" rm_isr answer add N "\<lambda>_. True"] by (auto simp: gpu_view_def)
next
  case (dpc i)
  then show ?thesis using gpu_move.dpc [of "gpu_view i s" N "\<lambda>_. True"] by (auto simp: gpu_view_def)
qed

text \<open>The moves keep the identities.\<close>

lemma fleet_ok_release:
  assumes "fleet_ok d s" "kernel_driver w = kernel_driver (world s)" "world_good d w" "i < length (fDevices d)"
  shows "fleet_ok d (fleet_release t c i (s\<lparr>world := w\<rparr>))"
proof -
  have "world_good d (with_gpu i ((gpus s ! i)\<lparr>fOpenCount := n\<rparr>) w)" for n
    using assms(2,3) by (intro world_good_with_gpu) simp_all
  then show ?thesis using assms(1,2,4) by (simp add: fleet_ok_def fleet_release_def Let_def)
qed

lemma fleet_ok_move:
  assumes "fleet_move apart N s s'" "fleet_ok d s"
  shows "fleet_ok d s'"
  using assms(1)
proof cases
  case (acquire t c i)
  have c: "client_target c d = Some i" using acquire(4) assms(2) client_target_good [of d "world s" c] by (simp add: fleet_ok_def)
  have "world_good d (with_gpu i ((gpus s ! i)\<lparr>fOpenCount := n\<rparr>) (world s))" for n
    using assms(2) by (intro world_good_with_gpu) (simp_all add: fleet_ok_def)
  then show ?thesis using assms(2) c client_target_less [OF c] world_good_hand_out [OF _ c]
    by (simp add: acquire(1) fleet_ok_def fleet_acquire_def Let_def)
next
  case (operation t i c p env)
  obtain p' g where op: "op_step env p (gpus s ! i) = (p', g)" by fastforce
  have w: "worker_ok d (Busy i c p)" using assms(2) operation(3) by (metis fleet_ok_def)
  have good: "world_good d (with_gpu i g (world s))"
    using assms(2) op_step_Nv [OF op] by (intro world_good_with_gpu) (simp_all add: fleet_ok_def)
  moreover have "world_good d (hand_out c i (with_gpu i g (world s)))" if "p = StartFlag"
    using good w that by (intro world_good_hand_out) (simp_all add: pending_def)
  moreover have "worker_ok d (if p' = Idle then Resting else Busy i c p')" using w op_step_count [OF op] by auto
  ultimately show ?thesis using assms(2) by (auto simp: operation(1) fleet_ok_def fleet_operate_def op Let_def split: if_splits)
next
  case (close_file t k i errno0 name)
  have "i < length (fDevices d)" using assms(2) close_file(4,5) by (auto simp: fleet_ok_def world_good_def dest: nth_mem)
  moreover have "world_good d ((world s)\<lparr>files := remove_nth k (files (world s))\<rparr>)"
    using assms(2) close_file(4) by (simp add: fleet_ok_def world_good_remove)
  ultimately show ?thesis unfolding close_file(1) using assms(2) by (intro fleet_ok_release) simp_all
next
  case (give_back t gpuId i)
  have "i < length (fDevices d)" using gpu_index_less [OF give_back(5)] assms(2) world_goodD(3) by (auto simp: fleet_ok_def)
  moreover have "world_good d ((world s)\<lparr>granted := remove1 gpuId (granted (world s))\<rparr>)"
    by (rule world_good_fewer [of d "world s"];
        use assms(2) set_remove1_subset [of gpuId "granted (world s)"] in \<open>auto simp: fleet_ok_def\<close>)
  ultimately show ?thesis unfolding give_back(1) using assms(2) by (intro fleet_ok_release) simp_all
next
  case (open_control t errno0 name)
  then show ?thesis using assms(2) world_good_fewer [of d "world s"] by (simp add: fleet_ok_def)
next
  case (close_control t k)
  then show ?thesis using assms(2) by (simp add: fleet_ok_def world_good_remove)
qed (use assms(2) in \<open>simp_all add: fleet_ok_def\<close>)

section \<open>The counts of all GPUs\<close>

text \<open>A driver that has just been loaded: no file is open, nothing is granted and no GPU is up.\<close>

definition fresh_world :: "gpu_world \<Rightarrow> bool" where
  "fresh_world w \<longleftrightarrow> files w = [] \<and> granted w = [] \<and> (\<forall>g \<in> set (fDevices (kernel_driver w)). held 0 g)"

lemma fresh_world_loaded:
  assumes "nvidia_module_init env l = Some (B_OK, d, l1)" "\<forall>(p, pe, add) \<in> set (ie_scan env). \<not> adapter_up (pe_hw pe)"
  shows "fresh_world \<lparr>kernel_driver = d, files = [], granted = []\<rparr>"
  using loaded_held [OF assms] by (simp add: fresh_world_def)

text \<open>The fleet refines the single GPU of \<open>GpuSteps\<close>, for each of its GPUs.\<close>

interpretation fleet: invariant_system "\<lambda>s. fresh_world w \<and> s = fleet_start w" "fleet_move apart N"
    "\<lambda>s. fresh_world w \<and> fleet_reach apart N w s" "fleet_ok (kernel_driver w)"
proof
  fix s I
  assume reach: "fresh_world w \<and> fleet_reach apart N w s" and first: "\<And>s. fresh_world w \<and> s = fleet_start w \<Longrightarrow> I s"
    and next_one: "\<And>s t. fresh_world w \<and> fleet_reach apart N w s \<Longrightarrow> I s \<Longrightarrow> fleet_move apart N s t \<Longrightarrow> I t"
  from reach have "fleet_reach apart N w s" "fresh_world w" by blast+
  then show "I s" by (induction rule: fleet_reach.induct) (blast intro: first next_one)+
next
  show "fleet_ok (kernel_driver w) s" if "fresh_world w \<and> s = fleet_start w" for s
    using that by (auto simp: fleet_ok_def fleet_start_def world_good_def fresh_world_def
        intro!: exI [of _ "fDevices (kernel_driver w)"])
qed (auto intro: fleet_reach.intros fleet_ok_move)

lemma fleet_gpus_length:
  "fresh_world w \<Longrightarrow> fleet_reach apart N w s \<Longrightarrow> length (gpus s) = length (fDevices (kernel_driver w))"
  using fleet.inv_reach [of w apart N s] world_goodD(3) by (auto simp: fleet_ok_def)

interpretation one_gpu: simulates_invariant
    "\<lambda>s. (fresh_world w \<and> s = fleet_start w) \<and> i < length (fDevices (kernel_driver w))" "fleet_move apart N"
    "\<lambda>s. (fresh_world w \<and> fleet_reach apart N w s) \<and> i < length (fDevices (kernel_driver w))"
    "\<lambda>s. fOpenCount (fDevices (kernel_driver w) ! i) = 0 \<and> s = gpu_start (fDevices (kernel_driver w) ! i)"
    "gpu_move N (\<lambda>_. True)"
    "\<lambda>s. fOpenCount (fDevices (kernel_driver w) ! i) = 0 \<and> gpu_reachable N (\<lambda>_. True) (fDevices (kernel_driver w) ! i) s"
    "gpu_view i" "\<lambda>s. gpu_count_exact N s \<and> gpu_one_starter N s"
proof unfold_locales
  fix s I
  let ?i = "i < length (fDevices (kernel_driver w))"
  assume reach: "(fresh_world w \<and> fleet_reach apart N w s) \<and> ?i"
    and first: "\<And>s. (fresh_world w \<and> s = fleet_start w) \<and> ?i \<Longrightarrow> I s"
    and next_one: "\<And>s t. (fresh_world w \<and> fleet_reach apart N w s) \<and> ?i \<Longrightarrow> I s \<Longrightarrow> fleet_move apart N s t \<Longrightarrow> I t"
  from reach have "fleet_reach apart N w s" "fresh_world w" ?i by blast+
  then show "I s" by (induction rule: fleet_reach.induct) (blast intro: first next_one)+
next
  fix s assume "(fresh_world w \<and> s = fleet_start w) \<and> i < length (fDevices (kernel_driver w))"
  then show "fOpenCount (fDevices (kernel_driver w) ! i) = 0 \<and> gpu_view i s = gpu_start (fDevices (kernel_driver w) ! i)"
    by (auto simp: fresh_world_def gpu_view_def gpu_start_def fleet_start_def references_def held_def)
next
  fix s t
  assume *: "(fresh_world w \<and> fleet_reach apart N w s) \<and> i < length (fDevices (kernel_driver w))" "fleet_move apart N s t"
  then have "fleet_ok (kernel_driver w) s" using fleet.inv_reach by blast
  then show "gpu_view i t = gpu_view i s \<or> gpu_move N (\<lambda>_. True) (gpu_view i s) (gpu_view i t)"
    using view_move [OF _ *(2), of "kernel_driver w" i] fleet_gpus_length * by auto
qed (auto intro: fleet_reach.intros)

text \<open>
  C10: whatever threads do with whatever GPUs, in single operations and with interrupts in between, the open
  count of each GPU is the number of files open on it, plus the grants of its id, plus the threads that are
  inside a start of it or about to take a failed one back; two threads are never inside \<open>Start\<close> of one GPU;
  and who starts a GPU was led to it by a published name or by its id.
\<close>

theorem fleet_counts:
  assumes "nvidia_module_init env l = Some (B_OK, d, l1)" "\<forall>(p, pe, add) \<in> set (ie_scan env). \<not> adapter_up (pe_hw pe)"
    and "fleet_reach apart N \<lparr>kernel_driver = d, files = [], granted = []\<rparr> s" "i < length (gpus s)"
  shows "fOpenCount (gpus s ! i) =
      int (references (gpus s) (files (world s)) (granted (world s)) i) +
      int (card {t. t < N \<and> (\<exists>c p. workers s t = Busy i c p \<and> pending p)}) \<and>
    (\<forall>t < N. \<forall>u < N. \<forall>c c' p p'. workers s t = Busy i c p \<longrightarrow> workers s u = Busy i c' p' \<longrightarrow>
       starting p \<longrightarrow> starting p' \<longrightarrow> t = u) \<and>
    (\<forall>t c p. workers s t = Busy i c p \<longrightarrow> pending p \<longrightarrow> client_target c (kernel_driver (world s)) = Some i)"
proof -
  let ?w = "\<lparr>kernel_driver = d, files = [], granted = []\<rparr>"
  have fresh: "fresh_world ?w" using fresh_world_loaded [OF assms(1,2)] .
  then have ok: "fleet_ok d s" using fleet.inv_reach [of ?w] assms(3) by simp
  have i: "i < length (fDevices d)" using assms(4) fleet_gpus_length [OF fresh assms(3)] by simp
  have "gpu_count_exact N (gpu_view i s) \<and> gpu_one_starter N (gpu_view i s)"
    using one_gpu.concrete.inv_reach [of ?w apart N s i] fresh assms(3) i by simp
  moreover have "pending (pc_on i x) \<longleftrightarrow> (\<exists>c p. x = Busy i c p \<and> pending p)" for x by (cases x) auto
  moreover have "starting (pc_on i (Busy i c p)) \<longleftrightarrow> starting p" for c p by simp
  moreover have "client_target c (kernel_driver (world s)) = Some i"
    if "workers s t = Busy i c p" "pending p" for t c p
  proof -
    have "worker_ok d (Busy i c p)" using ok that(1) by (metis fleet_ok_def)
    then show ?thesis using that(2) ok client_target_good [of d "world s" c] by (simp add: fleet_ok_def)
  qed
  ultimately show ?thesis
    by (auto simp: gpu_count_exact_def gpu_one_starter_def pending_threads_def gpu_view_def)
qed

text \<open>A file is being opened on the only GPU: the thread is at the first operation of \<open>Start\<close>.\<close>

lemma ex_fleet:
  obtains d l1 where "nvidia_module_init ex_hole ex_ledger = Some (B_OK, d, l1)"
    "\<forall>(p, pe, add) \<in> set (ie_scan ex_hole). \<not> adapter_up (pe_hw pe)" "length (fDevices d) = 1"
    "fOpenCount (fDevices d ! 0) = 0" "client_target (ByName False (device_name 0)) d = Some 0"
proof -
  from ex_hole_ready obtain d l1 where d: "nvidia_module_init ex_hole ex_ledger = Some (B_OK, d, l1)" "length (fDevices d) = 1" by blast
  have down: "\<forall>(p, pe, add) \<in> set (ie_scan ex_hole). \<not> adapter_up (pe_hw pe)" by (simp add: ex_hole_def ex_probe_def)
  have "held 0 (fDevices d ! 0)" using loaded_held [OF d(1) down] d(2) by simp
  then have "fOpenCount (fDevices d ! 0) = 0" by (simp add: held_def)
  moreover have "client_target (ByName False (device_name 0)) d = Some 0" using d(2) by (simp add: FindDevice_device_name)
  ultimately show ?thesis using that d down by blast
qed

lemma fleet_counts_witness:
  "\<exists>w s. fleet_reach False 2 w s \<and> workers s 1 = Busy 0 (ByName False (device_name 0)) StartRead \<and> files (world s) = [] \<and>
     fOpenCount (gpus s ! 0) = int (references (gpus s) [] (granted (world s)) 0) +
       int (card {t. t < 2 \<and> (\<exists>c p. workers s t = Busy 0 c p \<and> pending p)})"
proof -
  obtain d l1 where d: "nvidia_module_init ex_hole ex_ledger = Some (B_OK, d, l1)"
    "\<forall>(p, pe, add) \<in> set (ie_scan ex_hole). \<not> adapter_up (pe_hw pe)" "length (fDevices d) = 1"
    "fOpenCount (fDevices d ! 0) = 0" "client_target (ByName False (device_name 0)) d = Some 0"
    by (rule ex_fleet)
  let ?w = "\<lparr>kernel_driver = d, files = [], granted = []\<rparr>" and ?c = "ByName False (device_name 0)"
  let ?s = "fleet_acquire 1 ?c 0 (fleet_start ?w)"
  have "fleet_move False 2 (fleet_start ?w) ?s"
    by (rule fleet_move.acquire) (use d(5) in \<open>simp_all add: fleet_start_def may_enter_def\<close>)
  then have reach: "fleet_reach False 2 ?w ?s" by (rule fleet_reach.step [OF fleet_reach.start])
  moreover have "workers ?s 1 = Busy 0 ?c StartRead" "files (world ?s) = []" "0 < length (gpus ?s)"
    using d(3,4) by (simp_all add: fleet_acquire_def fleet_start_def)
  ultimately show ?thesis using conjunct1 [OF fleet_counts [OF d(1,2) reach, of 0]] by (intro exI [of _ ?w] exI [of _ ?s]) (simp only: simp_thms)
qed

end
