(* ===== verification/FleetRuns.thy ===== *)
theory FleetRuns
  imports GpuFleet
begin

text \<open>
  The runs of \<open>GpuFleet\<close> in which the opens and closes of one GPU do not overlap. They are compared with the
  sequences of whole operations of \<open>GpuClients\<close>: a start takes its place in the sequence when it has ended,
  a stop when it begins.
\<close>

section \<open>Runs in which opens and closes of a GPU do not overlap\<close>

text \<open>What a thread inside \<open>Start\<close> has made of the device \<open>d0\<close> that it began with; each operation has its own
  answers from outside.\<close>

definition on_bus :: "nv_device \<Rightarrow> nv_device" where
  "on_bus d = d\<lparr>hw := os_pci_write_dword PCI_command
     (os_pci_read_dword PCI_command (hw d) OR (PCI_command_io OR PCI_command_memory OR PCI_command_master)) (hw d)\<rparr>"

definition configured :: "u32 option \<Rightarrow> nv_device \<Rightarrow> nv_device" where
  "configured v d = d\<lparr>fIrq := (case v of None \<Rightarrow> fIrq d | Some v \<Rightarrow> v),
     hw := (hw d)\<lparr>msi_configured := (v \<noteq> None \<or> msi_configured (hw d))\<rparr>\<rparr>"

definition enabled :: "nv_device \<Rightarrow> nv_device" where
  "enabled d = d\<lparr>hw := (hw d)\<lparr>msi_enabled := True\<rparr>\<rparr>"

definition installed :: "nv_device \<Rightarrow> nv_device" where
  "installed d = d\<lparr>hw := (hw d)\<lparr>handlers := fIrq d # handlers (hw d)\<rparr>\<rparr>"

fun starts :: "gpu_pc \<Rightarrow> nv_device \<Rightarrow> nv_device \<Rightarrow> bool" where
  "starts StartRead d0 d \<longleftrightarrow> d = d0"
| "starts (StartWrite v) d0 d \<longleftrightarrow> d = d0 \<and> on_bus d0 = d0\<lparr>hw := os_pci_write_dword PCI_command v (hw d0)\<rparr>"
| "starts StartCount d0 d \<longleftrightarrow> d = on_bus d0"
| "starts StartConfigure d0 d \<longleftrightarrow> d = on_bus d0"
| "starts StartEnable d0 d \<longleftrightarrow> (\<exists>v. d = configured v (on_bus d0))"
| "starts StartInstall d0 d \<longleftrightarrow> (\<exists>v. d = enabled (configured v (on_bus d0)))"
| "starts StartAdapter d0 d \<longleftrightarrow> (\<exists>v. d = installed (enabled (configured v (on_bus d0))))"
| "starts StartFlag d0 d \<longleftrightarrow> (\<exists>env. Start env d0 = (B_OK, d\<lparr>fInitHardware := True\<rparr>))"
| "starts StartTakeBack d0 d \<longleftrightarrow> (\<exists>env e. Start env d0 = (Inl e, d))"
| "starts _ d0 d \<longleftrightarrow> False"

lemmas start_parts = on_bus_def configured_def enabled_def installed_def

lemma Start_parts:
  "msi_count env < 1 \<Longrightarrow> Start env d = (Inl B_ERROR, on_bus d)"
  "\<not> msi_count env < 1 \<Longrightarrow> \<not> init_adapter env \<Longrightarrow>
     Start env d = (Inl B_IO_ERROR, installed (enabled (configured (msi_vector env) (on_bus d))))"
  "\<not> msi_count env < 1 \<Longrightarrow> init_adapter env \<Longrightarrow> d1 = installed (enabled (configured (msi_vector env) (on_bus d))) \<Longrightarrow>
     Start env d = (B_OK, d1\<lparr>hw := (hw d1)\<lparr>adapter_up := True\<rparr>, fInitHardware := True\<rparr>)"
  by (auto simp: Start_def Let_def start_parts os_pci_write_dword_def split: option.split)

lemma starts_step:
  assumes "starts p d0 d" "op_step env p d = (p', d')" "p \<noteq> StartFlag" "p \<noteq> StartTakeBack"
  shows "starts p' d0 d'"
proof (cases p)
  case StartRead
  then show ?thesis using assms by (auto simp: on_bus_def)
next
  case StartCount
  have "starts StartTakeBack d0 (on_bus d0)"
    using Start_parts(1) [of "\<lparr>msi_count = 0, msi_vector = None, init_adapter = False\<rparr>" d0] by fastforce
  then show ?thesis using StartCount assms by (auto split: if_splits)
next
  case StartAdapter
  then obtain v where d: "d = installed (enabled (configured v (on_bus d0)))" using assms by auto
  have "starts StartTakeBack d0 d"
    using Start_parts(2) [of "\<lparr>msi_count = 1, msi_vector = v, init_adapter = False\<rparr>" d0] d by fastforce
  moreover have "starts StartFlag d0 (d\<lparr>hw := (hw d)\<lparr>adapter_up := True\<rparr>\<rparr>)"
    using Start_parts(3) [of "\<lparr>msi_count = 1, msi_vector = v, init_adapter = True\<rparr>" d d0] d by fastforce
  ultimately show ?thesis using StartAdapter assms by (auto split: if_splits)
qed (use assms in \<open>auto simp: start_parts split: if_splits\<close>)

definition stopping :: "gpu_pc \<Rightarrow> bool" where
  "stopping p \<longleftrightarrow> p \<noteq> Idle \<and> \<not> pending p"

text \<open>A thread inside \<open>Stop\<close> has a result, which nothing from outside changes.\<close>

definition stops :: "gpu_pc \<Rightarrow> nv_device \<Rightarrow> nv_device \<Rightarrow> bool" where
  "stops p d d1 \<longleftrightarrow> (\<exists>env n. thread_run env n (p, d, 0) = (Idle, d1, 0))"

lemma thread_run_Idle: "thread_run env n (Idle, d, r) = (Idle, d, r)"
  by (induction n) (simp_all add: thread_run_Suc)

lemma stops_step:
  assumes "stops p d d1" "stopping p" "op_step env p d = (p', d')"
  shows "if p' = Idle then d' = d1 else stopping p' \<and> stops p' d' d1"
proof -
  obtain env' n where run: "thread_run env' n (p, d, 0) = (Idle, d1, 0)" using assms(1) by (auto simp: stops_def)
  then obtain m where m: "n = Suc m" using assms(2) by (cases n) (auto simp: stopping_def)
  have "op_step env' p d = (p', d')" "p \<noteq> StartFlag"
    using assms(2,3) by (cases p; auto simp: stopping_def pending_def)+
  then have run': "thread_run env' m (p', d', 0) = (Idle, d1, 0)" using run by (simp add: m thread_run_Suc)
  show ?thesis
  proof (cases "p' = Idle")
    case True
    then show ?thesis using run' by (simp add: thread_run_Idle)
  next
    case False
    then have "stopping p'" using assms(2) op_step_count [OF assms(3)] by (simp add: stopping_def)
    then show ?thesis using False run' by (auto simp: stops_def)
  qed
qed

lemma stops_start: "stops StopTest d (Stop d)"
  using Stop_ops [of _ d 0] by (simp add: stops_def)

text \<open>A fleet and a state of \<open>GpuClients\<close> that agree but for what is going on: a start counts when it has ended, a
  stop when it begins.\<close>

definition agree :: "gpu_pc \<Rightarrow> nv_device \<Rightarrow> nv_device \<Rightarrow> bool" where
  "agree p g g' \<longleftrightarrow> (if stopping p then stops p g g' else fOpenCount g' = 0 \<and> starts p (g'\<lparr>fOpenCount := 1\<rparr>) g)"

fun worker_agrees :: "fleet \<Rightarrow> gpu_world \<Rightarrow> worker \<Rightarrow> bool" where
  "worker_agrees s w Resting = True"
| "worker_agrees s w (Busy i c p) = agree p (gpus s ! i) (fDevices (kernel_driver w) ! i)"

definition linearised :: "fleet \<Rightarrow> gpu_world \<Rightarrow> bool" where
  "linearised s w \<longleftrightarrow>
     files w = files (world s) \<and> granted w = granted (world s) \<and>
     (\<exists>gs. kernel_driver (world s) = (kernel_driver w)\<lparr>fDevices := gs\<rparr>) \<and> length (gpus s) = length (fDevices (kernel_driver w)) \<and>
     (\<forall>i < length (gpus s). (\<forall>t. \<not> on_gpu i (workers s t)) \<longrightarrow> gpus s ! i = fDevices (kernel_driver w) ! i) \<and>
     (\<forall>t. worker_agrees s w (workers s t)) \<and>
     (\<forall>i t u. on_gpu i (workers s t) \<longrightarrow> on_gpu i (workers s u) \<longrightarrow> t = u)"

lemma on_gpu_simps [simp]: "\<not> on_gpu i Resting" "on_gpu i (Busy j c p) \<longleftrightarrow> j = i"
  by (auto simp: on_gpu_def)

lemma worker_agrees_off:
  "\<not> on_gpu i x \<Longrightarrow> (\<And>j. j \<noteq> i \<Longrightarrow> gpus s' ! j = gpus s ! j \<and> fDevices (kernel_driver w') ! j = fDevices (kernel_driver w) ! j) \<Longrightarrow>
     worker_agrees s' w' x = worker_agrees s w x"
  by (cases x) auto

lemma linearised_gpu:
  assumes lin: "linearised s w" and i: "i < length (gpus s)"
    and others: "\<And>u. u \<noteq> t \<Longrightarrow> \<not> on_gpu i (workers s u)" and mine: "\<And>j. j \<noteq> i \<Longrightarrow> \<not> on_gpu j (workers s t)"
    and same: "files ws = files ww" "granted ws = granted ww"
      "kernel_driver ws = kernel_driver (world s)" "kernel_driver ww = kernel_driver w"
    and x: "x = Resting \<and> g = g' \<or> (\<exists>c p. x = Busy i c p \<and> agree p g g')"
  shows "linearised (s\<lparr>world := with_gpu i g ws, workers := (workers s)(t := x)\<rparr>) (with_gpu i g' ww)"
proof -
  let ?s = "s\<lparr>world := with_gpu i g ws, workers := (workers s)(t := x)\<rparr>" and ?w = "with_gpu i g' ww"
  have len: "length (gpus s) = length (fDevices (kernel_driver w))" using lin by (simp add: linearised_def)
  have rest: "gpus ?s ! j = gpus s ! j \<and> fDevices (kernel_driver ?w) ! j = fDevices (kernel_driver w) ! j" if "j \<noteq> i" for j
    using that by (simp add: same)
  have here: "gpus ?s ! i = g" "fDevices (kernel_driver ?w) ! i = g'" using i len by (simp_all add: same)
  have workers: "worker_agrees ?s ?w (workers ?s u)" for u
  proof (cases "u = t")
    case True
    then show ?thesis using x here by auto
  next
    case False
    then have "worker_agrees ?s ?w (workers s u) = worker_agrees s w (workers s u)"
      using others rest by (intro worker_agrees_off) blast+
    then show ?thesis using lin False by (simp add: linearised_def)
  qed
  have idle: "gpus ?s ! j = fDevices (kernel_driver ?w) ! j"
    if "j < length (gpus s)" "\<And>u. \<not> on_gpu j (workers ?s u)" for j
  proof (cases "j = i")
    case True
    then have "x = Resting" using that(2) [of t] x by auto
    then show ?thesis using True here x by auto
  next
    case False
    have "\<not> on_gpu j (workers s u)" for u using that(2) [of u] mine [OF False] by (cases "u = t") auto
    then show ?thesis using lin that(1) rest [OF False] by (simp add: linearised_def)
  qed
  have once: "u = v" if "on_gpu j (workers ?s u)" "on_gpu j (workers ?s v)" for j u v
  proof -
    have "on_gpu j x \<Longrightarrow> j = i" using x by auto
    moreover have "u' = v'" if "on_gpu j (workers s u')" "on_gpu j (workers s v')" for u' v'
      using lin that by (auto simp: linearised_def)
    ultimately show ?thesis using that others by (cases "u = t"; cases "v = t") auto
  qed
  have driver: "\<exists>gs. kernel_driver (world ?s) = (kernel_driver ?w)\<lparr>fDevices := gs\<rparr>"
  proof -
    obtain gs where "kernel_driver (world s) = (kernel_driver w)\<lparr>fDevices := gs\<rparr>"
      using lin unfolding linearised_def by blast
    then have "kernel_driver (with_gpu i g ws) = (kernel_driver (with_gpu i g' ww))\<lparr>fDevices := gs[i := g]\<rparr>"
      unfolding with_gpu_driver same by simp
    then show ?thesis by auto
  qed
  have length: "length (gpus ?s) = length (fDevices (kernel_driver ?w))" and gpus: "length (gpus ?s) = length (gpus s)"
    using len by (simp_all add: same)
  show ?thesis unfolding linearised_def
  proof (intro conjI)
    show "files ?w = files (world ?s)" "granted ?w = granted (world ?s)" by (simp_all add: same(1,2))
    show "\<forall>j < length (gpus ?s). (\<forall>u. \<not> on_gpu j (workers ?s u)) \<longrightarrow> gpus ?s ! j = fDevices (kernel_driver ?w) ! j"
      unfolding gpus using idle by blast
    show "\<forall>j u v. on_gpu j (workers ?s u) \<longrightarrow> on_gpu j (workers ?s v) \<longrightarrow> u = v" using once by blast
  qed (use workers driver length in \<open>blast+\<close>)
qed

text \<open>The sequential operations.\<close>

fun client_op :: "start_env \<Rightarrow> client \<Rightarrow> gpu_op" where
  "client_op env (ByName errno0 name) = OpenFile errno0 name True env"
| "client_op env (ById gpuId) = NvkmsOpenGpu env gpuId"

lemma with_gpu_same [simp]: "with_gpu i (fDevices (kernel_driver w) ! i) w = w"
  by (simp add: with_gpu_def update_device_def)

lemma hand_out_with_gpu: "hand_out c i (with_gpu i g w) = with_gpu i g (hand_out c i w)"
  by (cases c) (simp_all add: with_gpu_def)

lemma client_op_step:
  assumes "client_target c (kernel_driver w) = Some i" "AcquireRef env (fDevices (kernel_driver w) ! i) = (r, g)"
  shows "gpu_step (client_op env c) w = (if isl r then with_gpu i g w else with_gpu i g (hand_out c i w))"
  using assms
  by (cases c; cases r)
    (auto simp: Open_AcquireRef with_gpu_def update_device_def nvkms_open_gpu_def nvidia_module_open_gpu_def open_gpu_loop_index
      split: option.splits devfs_node.splits)

lemma CloseFile_step:
  assumes "k < length (files w)" "files w ! k = DeviceNode i"
  shows "gpu_step (CloseFile k) w = with_gpu i (ReleaseRef (fDevices (kernel_driver w) ! i)) (w\<lparr>files := remove_nth k (files w)\<rparr>)"
  using assms by (simp add: with_gpu_def NvHaikuDevice_Closed_def)

lemma NvkmsCloseGpu_step:
  assumes "gpuId \<in> set (granted w)" "gpu_index gpuId (fDevices (kernel_driver w)) = Some i"
  shows "gpu_step (NvkmsCloseGpu gpuId) w =
    with_gpu i (ReleaseRef (fDevices (kernel_driver w) ! i)) (w\<lparr>granted := remove1 gpuId (granted w)\<rparr>)"
  using assms by (simp add: with_gpu_def update_device_def nvkms_close_gpu_def nvidia_module_close_gpu_def close_gpu_loop_index)

lemma gpu_run_snoc: "gpu_run (ops @ [op]) w = gpu_step op (gpu_run ops w)"
  by (simp add: gpu_run_def)

text \<open>A move of these runs is no operation or one.\<close>

lemma linearised_acquire:
  assumes lin: "linearised s w" and t: "workers s t = Resting" and c: "client_target c (kernel_driver w) = Some i"
    and free: "\<And>u. \<not> on_gpu i (workers s u)" and i: "i < length (gpus s)"
  shows "\<exists>ops. linearised (fleet_acquire t c i s) (gpu_run ops w)"
proof -
  let ?g = "gpus s ! i"
  have g: "fDevices (kernel_driver w) ! i = ?g" and same: "files (world s) = files w" "granted (world s) = granted w"
    using lin free i by (auto simp: linearised_def)
  note step = linearised_gpu [OF lin i, of t]
  show ?thesis
  proof (cases "fOpenCount ?g = 0")
    case True
    have "linearised (s\<lparr>world := with_gpu i (?g\<lparr>fOpenCount := 1\<rparr>) (world s), workers := (workers s)(t := Busy i c StartRead)\<rparr>)
        (with_gpu i ?g w)"
      by (rule step) (use free t same True in \<open>simp_all add: agree_def stopping_def\<close>)
    then have "linearised (fleet_acquire t c i s) (gpu_run [] w)"
      using True by (simp add: fleet_acquire_def gpu_run_def g [symmetric])
    then show ?thesis by blast
  next
    case False
    have same': "files (hand_out c i (world s)) = files (hand_out c i w)" "granted (hand_out c i (world s)) = granted (hand_out c i w)"
      by (cases c; simp add: same)+
    have "linearised (s\<lparr>world := with_gpu i (?g\<lparr>fOpenCount := fOpenCount ?g + 1\<rparr>) (hand_out c i (world s)), workers := (workers s)(t := Resting)\<rparr>)
        (with_gpu i (?g\<lparr>fOpenCount := fOpenCount ?g + 1\<rparr>) (hand_out c i w))"
      by (rule step) (use free t same' in simp_all)
    moreover have "(workers s)(t := Resting) = workers s" using t by auto
    moreover have "gpu_run [client_op env c] w = with_gpu i (?g\<lparr>fOpenCount := fOpenCount ?g + 1\<rparr>) (hand_out c i w)" for env
      using client_op_step [OF c, of env] AcquireRef_open [OF False, of env] by (simp add: gpu_run_def g)
    ultimately have "linearised (fleet_acquire t c i s) (gpu_run [client_op env c] w)" for env
      using False by (simp add: fleet_acquire_def Let_def hand_out_with_gpu)
    then show ?thesis by blast
  qed
qed

lemma linearised_release:
  assumes lin: "linearised s w" and t: "workers s t = Resting"
    and free: "\<And>u. \<not> on_gpu i (workers s u)" and i: "i < length (gpus s)"
    and same: "files ws = files ww" "granted ws = granted ww"
      "kernel_driver ws = kernel_driver (world s)" "kernel_driver ww = kernel_driver w"
  shows "linearised (fleet_release t c i (s\<lparr>world := ws\<rparr>)) (with_gpu i (ReleaseRef (fDevices (kernel_driver w) ! i)) ww)"
proof -
  let ?g = "gpus s ! i"
  have g: "fDevices (kernel_driver w) ! i = ?g" using lin free i by (auto simp: linearised_def)
  have idle: "(workers s)(t := Resting) = workers s" using t by auto
  note step = linearised_gpu [OF lin i, of t ws ww, OF _ _ same]
  show ?thesis
  proof (cases "fOpenCount ?g = 1")
    case True
    have "linearised (s\<lparr>world := with_gpu i (?g\<lparr>fOpenCount := 0\<rparr>) ws, workers := (workers s)(t := Busy i c StopTest)\<rparr>)
        (with_gpu i (Stop (?g\<lparr>fOpenCount := 0\<rparr>)) ww)"
      by (rule step) (use free t stops_start in \<open>simp_all add: agree_def stopping_def\<close>)
    then show ?thesis using True same by (simp add: fleet_release_def g ReleaseRef_simps(3))
  next
    case False
    have "linearised (s\<lparr>world := with_gpu i (?g\<lparr>fOpenCount := fOpenCount ?g - 1\<rparr>) ws, workers := (workers s)(t := Resting)\<rparr>)
        (with_gpu i (?g\<lparr>fOpenCount := fOpenCount ?g - 1\<rparr>) ww)"
      by (rule step) (use free t in simp_all)
    then show ?thesis using False same by (simp add: fleet_release_def Let_def g ReleaseRef_simps(2) idle)
  qed
qed

lemma linearised_operate:
  assumes lin: "linearised s w" and t: "workers s t = Busy i c p" and ok: "fleet_ok d0 s" "world_good d0 w"
  shows "\<exists>ops. linearised (fleet_operate env t i c p s) (gpu_run ops w)"
proof -
  let ?g = "gpus s ! i" and ?g' = "fDevices (kernel_driver w) ! i"
  obtain p' d where op: "op_step env p ?g = (p', d)" by fastforce
  have "worker_ok d0 (Busy i c p)" using ok(1) t by (metis fleet_ok_def)
  then have p: "p \<noteq> Idle" and c: "pending p \<Longrightarrow> client_target c (kernel_driver w) = Some i"
    and "i < length (fDevices (kernel_driver w))"
    using client_target_good [OF ok(2)] world_goodD(3) [OF ok(2)] by simp_all
  then have i: "i < length (gpus s)" using lin by (simp add: linearised_def)
  have "worker_agrees s w (Busy i c p)" using lin t by (metis linearised_def)
  then have agree: "agree p ?g ?g'" by simp
  have others: "\<not> on_gpu i (workers s u)" if "u \<noteq> t" for u
  proof
    assume "on_gpu i (workers s u)"
    moreover have "on_gpu i (workers s t)" by (simp add: t)
    ultimately show False using lin that unfolding linearised_def by blast
  qed
  have same: "files (world s) = files w" "granted (world s) = granted w" using lin by (simp_all add: linearised_def)
  have same': "files (hand_out c i (world s)) = files (hand_out c i w)" "granted (hand_out c i (world s)) = granted (hand_out c i w)"
    by (cases c; simp add: same)+
  note step = linearised_gpu [OF lin i others]
  consider "stopping p" | "p = StartFlag" | "p = StartTakeBack" | "starting p" "p \<noteq> StartFlag"
    using p by (auto simp: stopping_def pending_def)
  then show ?thesis
  proof cases
    case 1
    then have next_pc: "if p' = Idle then d = ?g' else stopping p' \<and> stops p' d ?g'"
      using agree stops_step [OF _ 1 op] by (simp add: agree_def)
    have "linearised (s\<lparr>world := with_gpu i d (world s), workers := (workers s)(t := if p' = Idle then Resting else Busy i c p')\<rparr>)
        (with_gpu i ?g' w)"
      by (rule step) (use t same next_pc in \<open>auto simp: agree_def split: if_splits\<close>)
    moreover have "p \<noteq> StartFlag" using 1 by (auto simp: stopping_def pending_def)
    ultimately have "linearised (fleet_operate env t i c p s) (gpu_run [] w)"
      by (simp add: fleet_operate_def op gpu_run_def)
    then show ?thesis by blast
  next
    case 2
    then have count: "fOpenCount ?g' = 0" and "starts StartFlag (?g'\<lparr>fOpenCount := 1\<rparr>) ?g"
      using agree by (auto simp: agree_def stopping_def pending_def)
    then obtain env0 where start: "Start env0 (?g'\<lparr>fOpenCount := 1\<rparr>) = (B_OK, ?g\<lparr>fInitHardware := True\<rparr>)" by auto
    have d: "p' = Idle" "d = ?g\<lparr>fInitHardware := True\<rparr>" using op 2 by auto
    have "AcquireRef env0 ?g' = (B_OK, d)" using count start by (simp add: AcquireRef_def Let_def d)
    then have "gpu_run [client_op env0 c] w = with_gpu i d (hand_out c i w)"
      using client_op_step [OF c] 2 by (simp add: gpu_run_def pending_def)
    moreover have "linearised (s\<lparr>world := with_gpu i d (hand_out c i (world s)), workers := (workers s)(t := Resting)\<rparr>)
        (with_gpu i d (hand_out c i w))"
      by (rule step) (use t same' in auto)
    ultimately have "linearised (fleet_operate env t i c p s) (gpu_run [client_op env0 c] w)"
      using 2 by (simp add: fleet_operate_def d hand_out_with_gpu)
    then show ?thesis by blast
  next
    case 3
    then have count: "fOpenCount ?g' = 0" and "starts StartTakeBack (?g'\<lparr>fOpenCount := 1\<rparr>) ?g"
      using agree by (auto simp: agree_def stopping_def pending_def)
    then obtain env0 e where start: "Start env0 (?g'\<lparr>fOpenCount := 1\<rparr>) = (Inl e, ?g)" by auto
    have d: "p' = Idle" "d = ?g\<lparr>fOpenCount := fOpenCount ?g - 1\<rparr>" using op 3 by auto
    have "AcquireRef env0 ?g' = (Inl e, d)" using count start by (simp add: AcquireRef_def Let_def d)
    then have "gpu_run [client_op env0 c] w = with_gpu i d w"
      using client_op_step [OF c] 3 by (simp add: gpu_run_def pending_def)
    moreover have "linearised (s\<lparr>world := with_gpu i d (world s), workers := (workers s)(t := Resting)\<rparr>) (with_gpu i d w)"
      by (rule step) (use t same in auto)
    ultimately have "linearised (fleet_operate env t i c p s) (gpu_run [client_op env0 c] w)"
      using 3 by (simp add: fleet_operate_def d)
    then show ?thesis by blast
  next
    case 4
    then have count: "fOpenCount ?g' = 0" and starts: "starts p (?g'\<lparr>fOpenCount := 1\<rparr>) ?g" and "p \<noteq> StartTakeBack"
      using agree by (auto simp: agree_def stopping_def pending_def)
    then have starts': "starts p' (?g'\<lparr>fOpenCount := 1\<rparr>) d" using starts_step [OF starts op] 4 by blast
    then have "p' \<noteq> Idle" "\<not> stopping p'" by (cases p'; simp add: stopping_def pending_def)+
    then have "linearised (s\<lparr>world := with_gpu i d (world s), workers := (workers s)(t := Busy i c p')\<rparr>) (with_gpu i ?g' w)"
      by (intro step) (use t same starts' count in \<open>auto simp: agree_def\<close>)
    then have "linearised (fleet_operate env t i c p s) (gpu_run [] w)"
      using 4 \<open>p' \<noteq> Idle\<close> by (simp add: fleet_operate_def op gpu_run_def)
    then show ?thesis by blast
  qed
qed

lemma AcquireRef_Nv: "AcquireRef env g = (r, g') \<Longrightarrow> Nv g' = Nv g"
  by (auto simp: AcquireRef_def Start_def Let_def split: if_splits)

lemma ReleaseRef_Nv [simp]: "Nv (ReleaseRef g) = Nv g"
  by (simp add: ReleaseRef_def Stop_def Let_def)

lemma client_op_good:
  assumes "world_good d w" "client_target c (kernel_driver w) = Some i"
  shows "world_good d (gpu_step (client_op env c) w)"
proof -
  obtain r g where acquire: "AcquireRef env (fDevices (kernel_driver w) ! i) = (r, g)" by fastforce
  have "client_target c d = Some i" using assms client_target_good [OF assms(1)] by simp
  then show ?thesis
    using assms AcquireRef_Nv [OF acquire] client_op_step [OF assms(2) acquire]
    by (simp add: hand_out_with_gpu [symmetric] world_good_hand_out world_good_with_gpu)
qed

lemma gpu_step_good:
  assumes "world_good d w"
  shows "world_good d (gpu_step op w)"
proof (cases op)
  case (OpenFile errno0 name mem env)
  show ?thesis
  proof (cases "FindDevice errno0 (kernel_driver w) name")
    case (Some node)
    have "world_good d (w\<lparr>files := ControlNode # files w\<rparr>)" by (rule world_good_fewer [OF assms]) auto
    moreover have "world_good d (gpu_step (client_op env (ByName errno0 name)) w)" if "node = DeviceNode i" for i
      using that Some by (intro client_op_good [OF assms]) simp
    ultimately show ?thesis using assms OpenFile Some
      by (cases node; cases mem) (auto simp: NvHaikuDevice_Open_def update_device_def)
  qed (use assms OpenFile in simp)
next
  case (CloseFile k)
  show ?thesis
  proof (cases "k < length (files w)")
    case k: True
    note fewer = world_good_remove [OF assms k]
    show ?thesis
    proof (cases "files w ! k")
      case (DeviceNode i)
      show ?thesis unfolding CloseFile CloseFile_step [OF k DeviceNode] by (rule world_good_with_gpu [OF fewer]) simp
    qed (use k fewer CloseFile in simp)
  qed (use assms CloseFile in simp)
next
  case (NvkmsOpenGpu env gpuId)
  show ?thesis
  proof (cases "gpu_index gpuId (fDevices (kernel_driver w))")
    case None
    then show ?thesis using assms NvkmsOpenGpu by (simp add: nvkms_open_gpu_def nvidia_module_open_gpu_def open_gpu_loop_index)
  next
    case (Some i)
    then show ?thesis using client_op_good [OF assms, of "ById gpuId" i env] NvkmsOpenGpu by simp
  qed
next
  case (NvkmsCloseGpu gpuId)
  show ?thesis
  proof (cases "gpuId \<in> set (granted w)")
    case True
    obtain i where i: "gpu_index gpuId (fDevices (kernel_driver w)) = Some i"
      using True assms gpu_index_Nv [OF world_goodD(2) [OF assms]] by (auto simp: world_good_def)
    have "world_good d (w\<lparr>granted := remove1 gpuId (granted w)\<rparr>)"
      by (rule world_good_fewer [OF assms]; use set_remove1_subset [of gpuId "granted w"] in auto)
    then show ?thesis unfolding NvkmsCloseGpu NvkmsCloseGpu_step [OF True i] by (rule world_good_with_gpu) simp
  qed (use assms NvkmsCloseGpu in simp)
qed

lemma gpu_run_good: "world_good d w \<Longrightarrow> world_good d (gpu_run ops w)"
  by (induction ops arbitrary: w) (simp_all add: gpu_run_def gpu_step_good)

lemma linearised_same_gpus:
  assumes "linearised s w" "kernel_driver ws = kernel_driver (world s)" "kernel_driver ww = kernel_driver w"
    "files ww = files ws" "granted ww = granted ws"
  shows "linearised (s\<lparr>world := ws\<rparr>) ww"
proof -
  have "worker_agrees (s\<lparr>world := ws\<rparr>) ww x = worker_agrees s w x" for x using assms(2,3) by (cases x) simp_all
  then show ?thesis using assms unfolding linearised_def by simp
qed

lemma linearised_calls: "linearised s w \<Longrightarrow> linearised (s\<lparr>calls := f\<rparr>) w"
proof -
  assume "linearised s w"
  moreover have "worker_agrees (s\<lparr>calls := f\<rparr>) w x = worker_agrees s w x" for x by (cases x) simp_all
  ultimately show ?thesis unfolding linearised_def by simp
qed

lemma FindDevice_control: "FindDevice errno0 d name = Some ControlNode \<longleftrightarrow> name = NVIDIA_CONTROL_DEVIVE_NAME"
  by (auto simp: FindDevice_def split: option.splits)

lemma linearised_move:
  assumes move: "fleet_move True N s s'" and lin: "linearised s w" and ok: "fleet_ok d s" "world_good d w"
  shows "\<exists>ops. linearised s' (gpu_run ops w)"
proof -
  have good: "world_good d (world s)" using ok(1) by (simp add: fleet_ok_def)
  have files: "files w = files (world s)" "granted w = granted (world s)" using lin by (simp_all add: linearised_def)
  have len: "length (gpus s) = length (fDevices d)" using world_goodD(3) [OF good] .
  show ?thesis using move
  proof cases
    case (acquire t c i)
    then have "client_target c (kernel_driver w) = Some i" "i < length (gpus s)"
      using client_target_good [OF good] client_target_good [OF ok(2)] client_target_less [OF acquire(4)] by simp_all
    then show ?thesis using linearised_acquire [OF lin acquire(3)] acquire(1,5) by (simp add: may_enter_def)
  next
    case (open_control t errno0 name)
    have "FindDevice errno0 (kernel_driver w) name = Some ControlNode" using open_control(4) by (simp only: FindDevice_control)
    then have "gpu_run [OpenFile errno0 name True env] w = w\<lparr>files := ControlNode # files w\<rparr>" for env by (simp add: gpu_run_def)
    moreover have "linearised s' (w\<lparr>files := ControlNode # files w\<rparr>)"
      unfolding open_control(1) by (rule linearised_same_gpus [OF lin]) (simp_all add: files)
    ultimately show ?thesis by metis
  next
    case (operation t i c p env)
    then show ?thesis using linearised_operate [OF lin operation(3) ok] by simp
  next
    case (close_file t k i errno0 name)
    have i: "i < length (gpus s)" using good close_file(4,5) len by (auto simp: world_good_def dest: nth_mem)
    have "linearised s' (with_gpu i (ReleaseRef (fDevices (kernel_driver w) ! i)) (w\<lparr>files := remove_nth k (files w)\<rparr>))"
      unfolding close_file(1) by (rule linearised_release [OF lin close_file(3) _ i]) (use close_file(6) files in \<open>simp_all add: may_enter_def\<close>)
    moreover have "gpu_run [CloseFile k] w = with_gpu i (ReleaseRef (fDevices (kernel_driver w) ! i)) (w\<lparr>files := remove_nth k (files w)\<rparr>)"
      using CloseFile_step [of k w i] close_file(4,5) files by (simp add: gpu_run_def)
    ultimately show ?thesis by metis
  next
    case (close_control t k)
    have "gpu_run [CloseFile k] w = w\<lparr>files := remove_nth k (files w)\<rparr>" using close_control(4,5) files by (simp add: gpu_run_def)
    moreover have "linearised s' (w\<lparr>files := remove_nth k (files w)\<rparr>)"
      unfolding close_control(1) by (rule linearised_same_gpus [OF lin]) (simp_all add: files)
    ultimately show ?thesis by metis
  next
    case (give_back t gpuId i)
    have i: "i < length (gpus s)" using gpu_index_less [OF give_back(5)] .
    have "linearised s' (with_gpu i (ReleaseRef (fDevices (kernel_driver w) ! i)) (w\<lparr>granted := remove1 gpuId (granted w)\<rparr>))"
      unfolding give_back(1) by (rule linearised_release [OF lin give_back(3) _ i]) (use give_back(6) files in \<open>simp_all add: may_enter_def\<close>)
    moreover have "gpu_index gpuId (fDevices (kernel_driver w)) = Some i"
      using give_back(5) gpu_index_Nv [OF world_goodD(2) [OF ok(2)]] gpu_index_Nv [OF world_goodD(2) [OF good]] by simp
    then have "gpu_run [NvkmsCloseGpu gpuId] w =
        with_gpu i (ReleaseRef (fDevices (kernel_driver w) ! i)) (w\<lparr>granted := remove1 gpuId (granted w)\<rparr>)"
      using NvkmsCloseGpu_step [of gpuId w i] give_back(4) files by (simp add: gpu_run_def)
    ultimately show ?thesis by metis
  next
    case (irq i rm_isr answer add)
    then have "linearised s' (gpu_run [] w)" using lin by (simp add: gpu_run_def linearised_calls)
    then show ?thesis by blast
  next
    case (dpc i)
    then have "linearised s' (gpu_run [] w)" using lin by (simp add: gpu_run_def linearised_calls)
    then show ?thesis by blast
  qed
qed

lemma fresh_world_good: "fresh_world w \<Longrightarrow> world_good (kernel_driver w) w"
  by (auto simp: world_good_def fresh_world_def intro!: exI [of _ "fDevices (kernel_driver w)"])

interpretation apart_runs: invariant_system "\<lambda>s. fresh_world w \<and> s = fleet_start w" "fleet_move True N"
    "\<lambda>s. fresh_world w \<and> fleet_reach True N w s" "\<lambda>s. \<exists>ops. linearised s (gpu_run ops w)"
proof (intro invariant_system.intro fleet.transition_system_axioms invariant_system_axioms.intro)
  fix s assume "fresh_world w \<and> s = fleet_start w"
  then have "linearised s (gpu_run [] w)"
    by (auto simp: linearised_def fleet_start_def gpu_run_def intro: exI [of _ "fDevices (kernel_driver w)"])
  then show "\<exists>ops. linearised s (gpu_run ops w)" by blast
next
  fix s t assume *: "fresh_world w \<and> fleet_reach True N w s" "\<exists>ops. linearised s (gpu_run ops w)" "fleet_move True N s t"
  then obtain ops ops' where "linearised t (gpu_run ops' (gpu_run ops w))"
    using linearised_move fleet.inv_reach gpu_run_good fresh_world_good by meson
  then show "\<exists>ops. linearised t (gpu_run ops w)" by (metis fold_append comp_apply gpu_run_def)
qed

text \<open>
  C9: as long as the opens and closes of one GPU do not overlap, single operations make no difference. In every
  run of any number of threads on any number of GPUs in which no thread enters \<open>AcquireRef\<close> or \<open>ReleaseRef\<close> of a
  GPU while another is inside them for this GPU, the open files and grants, and all GPUs that nobody is working
  on, are those after some sequence of whole opens, closes, grants and returns, one after the other; when all
  threads rest, the whole state is. So such a GPU is up exactly while a client holds it, which is not so when
  they overlap (\<open>GpuSteps\<close>).
\<close>

theorem fleet_linearisable:
  assumes "nvidia_module_init env l = Some (B_OK, d, l1)" "\<forall>(p, pe, add) \<in> set (ie_scan env). \<not> adapter_up (pe_hw pe)"
    and "w0 = \<lparr>kernel_driver = d, files = [], granted = []\<rparr>" "fleet_reach True N w0 s"
  shows "\<exists>ops. let w = gpu_run ops w0 in
    files (world s) = files w \<and> granted (world s) = granted w \<and>
    (\<forall>i < length (gpus s). (\<forall>t. \<not> on_gpu i (workers s t)) \<longrightarrow>
       gpus s ! i = fDevices (kernel_driver w) ! i \<and>
       powered (gpus s ! i) = (0 < references (gpus s) (files (world s)) (granted (world s)) i)) \<and>
    ((\<forall>t. workers s t = Resting) \<longrightarrow> world s = w)"
proof -
  have fresh: "fresh_world w0" using fresh_world_loaded [OF assms(1,2)] by (simp add: assms(3))
  then obtain ops where lin: "linearised s (gpu_run ops w0)" using apart_runs.inv_reach assms(4) by blast
  let ?w = "gpu_run ops w0"
  have "world_ok w0" using fresh by (simp add: world_ok_def clients_ok_def fresh_world_def references_def)
  then have ok: "clients_ok (fDevices (kernel_driver ?w)) (files ?w) (granted ?w)" using gpu_run_ok by (simp add: world_ok_def)
  have "world_good (kernel_driver w0) (world s)" using fleet.inv_reach fresh assms(4) unfolding fleet_ok_def by blast
  moreover have "world_good (kernel_driver w0) ?w" by (rule gpu_run_good [OF fresh_world_good [OF fresh]])
  ultimately have Nv: "map Nv (gpus s) = map Nv (fDevices (kernel_driver ?w))" by (simp add: world_goodD(2))
  have len: "length (gpus s) = length (fDevices (kernel_driver ?w))" and same: "files ?w = files (world s)" "granted ?w = granted (world s)"
    using lin by (simp_all add: linearised_def)
  have idle: "gpus s ! i = fDevices (kernel_driver ?w) ! i" if "i < length (gpus s)" "\<forall>t. \<not> on_gpu i (workers s t)" for i
    using lin that by (simp add: linearised_def)
  have "powered (gpus s ! i) = (0 < references (gpus s) (files (world s)) (granted (world s)) i)"
    if "i < length (gpus s)" "\<forall>t. \<not> on_gpu i (workers s t)" for i
    using ok that idle [OF that] len same references_Nv [OF Nv] by (simp add: clients_ok_def held_def)
  moreover have "world s = ?w" if "\<forall>t. workers s t = Resting"
  proof -
    have "gpus s = fDevices (kernel_driver ?w)" using len idle that by (intro nth_equalityI) simp_all
    moreover obtain gs where "kernel_driver (world s) = (kernel_driver ?w)\<lparr>fDevices := gs\<rparr>" using lin unfolding linearised_def by blast
    ultimately have "kernel_driver (world s) = kernel_driver ?w" by simp
    then show ?thesis using same by simp
  qed
  ultimately show ?thesis using idle same by (intro exI [of _ ops]) (simp add: Let_def)
qed

lemma fleet_linearisable_witness:
  "\<exists>w s. fleet_reach True 2 w s \<and> workers s 1 = Busy 0 (ByName False (device_name 0)) StartRead \<and>
     (\<exists>ops. files (world s) = files (gpu_run ops w) \<and> granted (world s) = granted (gpu_run ops w))"
proof -
  obtain d l1 where d: "nvidia_module_init ex_hole ex_ledger = Some (B_OK, d, l1)"
    "\<forall>(p, pe, add) \<in> set (ie_scan ex_hole). \<not> adapter_up (pe_hw pe)" "length (fDevices d) = 1"
    "fOpenCount (fDevices d ! 0) = 0" "client_target (ByName False (device_name 0)) d = Some 0"
    by (rule ex_fleet)
  let ?w = "\<lparr>kernel_driver = d, files = [], granted = []\<rparr>" and ?c = "ByName False (device_name 0)"
  let ?s = "fleet_acquire 1 ?c 0 (fleet_start ?w)"
  have "fleet_move True 2 (fleet_start ?w) ?s"
    by (rule fleet_move.acquire) (use d(5) in \<open>simp_all add: fleet_start_def may_enter_def\<close>)
  then have reach: "fleet_reach True 2 ?w ?s" by (rule fleet_reach.step [OF fleet_reach.start])
  moreover have "workers ?s 1 = Busy 0 ?c StartRead" using d(3,4) by (simp add: fleet_acquire_def fleet_start_def)
  moreover obtain ops where "files (world ?s) = files (gpu_run ops ?w)" "granted (world ?s) = granted (gpu_run ops ?w)"
    using fleet_linearisable [OF d(1,2) refl reach] unfolding Let_def by blast
  ultimately show ?thesis by blast
qed

end
