(* ===== verification/KmsSync.thy ===== *)
theory KmsSync
  imports RefCount
begin

unbundle bit_operations_syntax

text \<open>
  Services that the mode setting module gets from \<open>nvidia_gsp/nvidia-modeset\<close>: the counter
  \<open>nv_kref\<close> (\<open>nv-kref.h\<close>), the guarded pointers \<open>nvkms_ref_ptr\<close>, semaphores, copies between user
  and kernel memory and the log prefix (\<open>nvkms-haiku.cpp\<close>).
\<close>

section \<open>nv_kref\<close>

text \<open>\<open>refcount\<close> is an \<open>int32\<close>; each reference is held by an object in memory, so the count stays
  far below the point where it would wrap, and it is an \<open>int\<close> here. \<open>atomic_add\<close> yields the old
  value.\<close>

record nv_kref = refcount :: int

definition nv_kref_init :: "nv_kref \<Rightarrow> nv_kref" where "nv_kref_init k = k\<lparr>refcount := 1\<rparr>"
definition nv_kref_get :: "nv_kref \<Rightarrow> nv_kref" where "nv_kref_get k = k\<lparr>refcount := refcount k + 1\<rparr>"

text \<open>The result says whether \<open>release\<close> was called.\<close>

definition nv_kref_put :: "nv_kref \<Rightarrow> bool \<times> nv_kref" where
  "nv_kref_put k = (refcount k = 1, k\<lparr>refcount := refcount k - 1\<rparr>)"

definition nv_kref_read :: "nv_kref \<Rightarrow> int" where "nv_kref_read k = refcount k"

section \<open>nvkms_ref_ptr\<close>

text \<open>The pointer object; \<open>freed\<close> counts how often \<open>ref_ptr_free\<close> gave its memory back.\<close>

record ref_ptr =
  refcnt :: nv_kref
  ptr_of :: ptr
  freed :: nat

definition nvkms_alloc_ref_ptr :: "bool \<Rightarrow> ptr \<Rightarrow> ref_ptr option" where
  "nvkms_alloc_ref_ptr mem p =
     (if mem then Some \<lparr>refcnt = nv_kref_init \<lparr>refcount = 0\<rparr>, ptr_of = p, freed = 0\<rparr> else None)"

definition ref_ptr_free :: "ref_ptr \<Rightarrow> ref_ptr" where "ref_ptr_free r = r\<lparr>freed := freed r + 1\<rparr>"

definition nvkms_inc_ref :: "ref_ptr \<Rightarrow> ref_ptr" where
  "nvkms_inc_ref r = r\<lparr>refcnt := nv_kref_get (refcnt r)\<rparr>"

definition nvkms_dec_ref :: "ref_ptr \<Rightarrow> ptr \<times> ref_ptr" where
  "nvkms_dec_ref r =
     (let p = ptr_of r; (last, k) = nv_kref_put (refcnt r); r = r\<lparr>refcnt := k\<rparr>
      in (p, if last then ref_ptr_free r else r))"

definition nvkms_free_ref_ptr :: "ref_ptr \<Rightarrow> ref_ptr" where
  "nvkms_free_ref_ptr r = snd (nvkms_dec_ref (r\<lparr>ptr_of := nullptr\<rparr>))"

definition ref_count :: "ref_ptr \<Rightarrow> int" where "ref_count r = refcount (refcnt r)"
definition ref_alive :: "ref_ptr \<Rightarrow> bool" where "ref_alive r \<longleftrightarrow> freed r = 0"

definition dec_ref_state :: "ref_ptr \<Rightarrow> ref_ptr" where "dec_ref_state r = snd (nvkms_dec_ref r)"

lemma inc_ref_simps:
  "ref_count (nvkms_inc_ref r) = ref_count r + 1" "ref_alive (nvkms_inc_ref r) = ref_alive r"
  "freed (nvkms_inc_ref r) = freed r" "ptr_of (nvkms_inc_ref r) = ptr_of r"
  by (simp_all add: ref_count_def ref_alive_def nvkms_inc_ref_def nv_kref_get_def)

lemma dec_ref_simps:
  "ref_count (dec_ref_state r) = ref_count r - 1"
  "freed (dec_ref_state r) = (if ref_count r = 1 then freed r + 1 else freed r)"
  "ptr_of (dec_ref_state r) = ptr_of r" "fst (nvkms_dec_ref r) = ptr_of r"
  by (simp_all add: ref_count_def dec_ref_state_def nvkms_dec_ref_def nv_kref_put_def ref_ptr_free_def
      Let_def)

interpretation kref: ref_counted ref_count ref_alive nvkms_inc_ref dec_ref_state
  by unfold_locales (auto simp: inc_ref_simps dec_ref_simps ref_alive_def)

lemma run_freed:
  "keeps_ref (ref_count r) ops \<Longrightarrow> 0 < ref_count r \<or> ops = [] \<Longrightarrow> freed r = 0 \<Longrightarrow>
     freed (ref_run nvkms_inc_ref dec_ref_state ops r) \<le> 1"
proof (induction ops arbitrary: r)
  case (Cons op ops)
  show ?case
  proof (cases op)
    case Get
    with Cons show ?thesis by (simp add: inc_ref_simps)
  next
    case Put
    show ?thesis
    proof (cases "ref_count r = 1")
      case True
      with Cons Put have "ops = []" by (cases ops; cases "hd ops") (auto simp: dec_ref_simps)
      with Put True Cons.prems show ?thesis by (simp add: dec_ref_simps)
    next
      case False
      with Cons Put show ?thesis by (simp add: dec_ref_simps)
    qed
  qed
qed simp

lemma run_ptr: "ptr_of (ref_run nvkms_inc_ref dec_ref_state ops r) = ptr_of r"
proof (induction ops arbitrary: r)
  case (Cons op ops)
  then show ?case by (cases op) (simp_all add: inc_ref_simps dec_ref_simps)
qed simp

text \<open>
  C25: a guarded pointer outlives its owner and dies once. From a new object, after any uses by
  holders of a reference, then the owner's \<open>nvkms_free_ref_ptr\<close>, then any uses by the holders that
  are left: the memory has been freed exactly when no reference is left, never more than once, and
  what a holder reads after the owner has freed the object is null, before that the owner's pointer.
\<close>

theorem ref_ptr_lifetime:
  assumes "nvkms_alloc_ref_ptr True p = Some r0"
    and "keeps_ref 1 ops" "0 < 1 + ref_balance ops" "keeps_ref (ref_balance ops) ops'"
    and "r1 = ref_run nvkms_inc_ref dec_ref_state ops r0"
    and "r2 = ref_run nvkms_inc_ref dec_ref_state ops' (nvkms_free_ref_ptr r1)"
  shows "fst (nvkms_dec_ref r1) = p \<and> freed r1 = 0 \<and> fst (nvkms_dec_ref r2) = nullptr \<and>
         ref_count r2 = ref_balance ops + ref_balance ops' \<and> freed r2 \<le> 1 \<and>
         (freed r2 = 1) = (ref_count r2 = 0)"
proof -
  from assms(1) have r0: "ref_count r0 = 1" "freed r0 = 0" "ptr_of r0 = p"
    by (auto simp: nvkms_alloc_ref_ptr_def ref_count_def nv_kref_init_def)
  then have "keeps_ref (ref_count r0) ops" "ref_alive r0 = (0 < ref_count r0)"
    using assms(2) by (simp_all add: ref_alive_def)
  note run = kref.cnt_run [OF this(1)] kref.up_until_last_put [OF this]
  have r1: "ref_count r1 = 1 + ref_balance ops" "freed r1 = 0" "ptr_of r1 = p"
    using run r0 assms(3,5) by (simp_all add: ref_alive_def run_ptr)
  define r where "r = nvkms_free_ref_ptr r1"
  have r: "ref_count r = ref_balance ops" "ptr_of r = nullptr"
    "freed r = (if ref_balance ops = 0 then 1 else 0)"
    using r1 dec_ref_simps [of "r1\<lparr>ptr_of := nullptr\<rparr>"]
    by (simp_all add: r_def nvkms_free_ref_ptr_def dec_ref_state_def ref_count_def)
  have r2: "r2 = ref_run nvkms_inc_ref dec_ref_state ops' r" using assms(6) by (simp add: r_def)
  have ptr: "ptr_of r2 = nullptr" using r2 r(2) run_ptr by simp
  show ?thesis
  proof (cases "ref_balance ops = 0")
    case True
    then have "ops' = []" using assms(4) by (cases ops'; cases "hd ops'") auto
    with True r r2 ptr r1 show ?thesis by (simp add: dec_ref_simps)
  next
    case False
    with assms(3) have pos: "0 < ref_count r" using r(1) by simp
    with r False have alive: "ref_alive r = (0 < ref_count r)" by (simp add: ref_alive_def)
    have keeps: "keeps_ref (ref_count r) ops'" using assms(4) r(1) by simp
    have cnt: "ref_count r2 = ref_balance ops + ref_balance ops'"
      using kref.cnt_run [OF keeps] r2 r(1) by simp
    have "freed r2 \<le> 1" using run_freed [OF keeps] pos r(3) False r2 by simp
    moreover have "(freed r2 = 0) = (0 < ref_count r2)"
      using kref.up_run [OF keeps alive] r2 by (simp add: ref_alive_def)
    moreover have "0 \<le> ref_count r2"
      using keeps_ref_balance [OF keeps] pos cnt r(1) by simp
    ultimately have "(freed r2 = 1) = (ref_count r2 = 0)" by linarith
    with \<open>freed r2 \<le> 1\<close> cnt show ?thesis by (simp only: dec_ref_simps ptr r1)
  qed
qed

lemma ref_ptr_lifetime_witness:
  "freed (ref_run nvkms_inc_ref dec_ref_state [Put]
     (nvkms_free_ref_ptr (nvkms_inc_ref \<lparr>refcnt = \<lparr>refcount = 1\<rparr>, ptr_of = 77, freed = 0\<rparr>))) = 1"
proof -
  let ?r0 = "\<lparr>refcnt = \<lparr>refcount = 1\<rparr>, ptr_of = 77, freed = 0\<rparr>"
  have "nvkms_alloc_ref_ptr True 77 = Some ?r0"
    by (simp add: nvkms_alloc_ref_ptr_def nv_kref_init_def)
  moreover have "keeps_ref 1 [Get]" "0 < 1 + ref_balance [Get]" "keeps_ref (ref_balance [Get]) [Put]"
    by simp_all
  ultimately have "(freed (ref_run nvkms_inc_ref dec_ref_state [Put]
      (nvkms_free_ref_ptr (ref_run nvkms_inc_ref dec_ref_state [Get] ?r0))) = 1) =
      (ref_balance [Get] + ref_balance [Put] = 0)"
    using ref_ptr_lifetime [OF _ _ _ _ refl refl] by metis
  then show ?thesis by (simp only: ref_run.simps ref_balance.simps)
qed

section \<open>Semaphores\<close>

text \<open>The semaphore of Haiku behind a handle, as its count; \<open>None\<close> is a thread that blocks.\<close>

definition nvkms_sema_alloc :: "bool \<Rightarrow> bool \<Rightarrow> nat option" where
  "nvkms_sema_alloc mem sem = (if \<not> mem then None else if \<not> sem then None else Some 0)"

definition nvkms_sema_down :: "nat \<Rightarrow> nat option" where "nvkms_sema_down c = Some (c + 1)"
definition nvkms_sema_up :: "nat \<Rightarrow> nat option" where
  "nvkms_sema_up c = (if c = 0 then None else Some (c - 1))"

datatype sema_op = Up | Down

fun sema_run :: "sema_op list \<Rightarrow> nat \<Rightarrow> nat option" where
  "sema_run [] c = Some c"
| "sema_run (op # ops) c =
     (case (case op of Up \<Rightarrow> nvkms_sema_up c | Down \<Rightarrow> nvkms_sema_down c) of
        None \<Rightarrow> None | Some c' \<Rightarrow> sema_run ops c')"

text \<open>Every prefix has at most \<open>c\<close> more operations of kind \<open>x\<close> than of the other kind.\<close>

fun bounded_by :: "sema_op \<Rightarrow> int \<Rightarrow> sema_op list \<Rightarrow> bool" where
  "bounded_by x c [] = (0 \<le> c)"
| "bounded_by x c (op # ops) = (0 \<le> c \<and> bounded_by x (if op = x then c - 1 else c + 1) ops)"

lemma bounded_by_neg: "c < 0 \<Longrightarrow> \<not> bounded_by x c ops"
  by (cases ops) simp_all

lemma sema_run_bounded: "sema_run ops c \<noteq> None \<longleftrightarrow> bounded_by Up (int c) ops"
proof (induction ops arbitrary: c)
  case (Cons op ops)
  show ?case
  proof (cases op)
    case Up
    show ?thesis
    proof (cases "c = 0")
      case True
      with Up show ?thesis by (simp add: nvkms_sema_up_def bounded_by_neg)
    next
      case False
      then have "int (c - 1) = int c - 1" by simp
      with Up False Cons [of "c - 1"] show ?thesis by (simp add: nvkms_sema_up_def)
    qed
  next
    case Down
    with Cons [of "c + 1"] show ?thesis by (simp add: nvkms_sema_down_def add.commute)
  qed
qed simp

text \<open>
  The semaphores work the wrong way round. A semaphore lets \<open>up\<close> pass always and makes \<open>down\<close>
  wait for it; here a sequence of calls on a new semaphore gets through without blocking exactly when
  no prefix has more \<open>up\<close>s than \<open>down\<close>s, so the first \<open>up\<close> blocks and a \<open>down\<close> never waits.
\<close>

theorem sema_inverted:
  "nvkms_sema_alloc True True = Some c0 \<Longrightarrow> sema_run ops c0 \<noteq> None \<longleftrightarrow> bounded_by Up 0 ops"
  unfolding sema_run_bounded by (auto simp: nvkms_sema_alloc_def)

lemma sema_inverted_witness: "sema_run [Up, Down] 0 = None \<and> sema_run [Down, Up] 0 \<noteq> None"
  using sema_inverted [of 0 "[Up, Down]"] sema_inverted [of 0 "[Down, Up]"]
  by (simp add: nvkms_sema_alloc_def)

text \<open>The destructor of the handle deletes the kernel's semaphore.\<close>

definition nvkms_sema_free :: "ptr \<Rightarrow> (ptr \<rightharpoonup> nat) \<Rightarrow> (ptr \<rightharpoonup> nat)" where
  "nvkms_sema_free sema sems = (if sema = nullptr then sems else sems(sema := None))"

section \<open>Copies and the log\<close>

text \<open>\<open>isUser\<close> and \<open>isKernel\<close> are the address tests of the kernel, \<open>user_memcpy\<close> its copy.\<close>

definition nvkms_copyin ::
    "(ptr \<Rightarrow> bool) \<Rightarrow> (ptr \<Rightarrow> bool) \<Rightarrow> (ptr \<Rightarrow> ptr \<Rightarrow> nat \<Rightarrow> 'm \<Rightarrow> unit status \<times> 'm) \<Rightarrow>
     ptr \<Rightarrow> ptr \<Rightarrow> nat \<Rightarrow> 'm \<Rightarrow> unit status \<times> 'm" where
  "nvkms_copyin isUser isKernel user_memcpy kptr uaddr n mem =
     (if \<not> (isKernel kptr \<and> isUser uaddr) then (Inl B_BAD_VALUE, mem) else user_memcpy kptr uaddr n mem)"

definition nvkms_copyout ::
    "(ptr \<Rightarrow> bool) \<Rightarrow> (ptr \<Rightarrow> bool) \<Rightarrow> (ptr \<Rightarrow> ptr \<Rightarrow> nat \<Rightarrow> 'm \<Rightarrow> unit status \<times> 'm) \<Rightarrow>
     ptr \<Rightarrow> ptr \<Rightarrow> nat \<Rightarrow> 'm \<Rightarrow> unit status \<times> 'm" where
  "nvkms_copyout isUser isKernel user_memcpy uaddr kptr n mem =
     (if \<not> (isUser uaddr \<and> isKernel kptr) then (Inl B_BAD_VALUE, mem) else user_memcpy uaddr kptr n mem)"

datatype log_level = LEVEL_INFO | LEVEL_WARN | LEVEL_ERROR | LEVEL_OTHER

definition nvkms_log :: "log_level \<Rightarrow> string \<Rightarrow> string \<Rightarrow> string" where
  "nvkms_log level gpuPrefix msg =
     ''nvidia-modeset: '' @
     (case level of LEVEL_WARN \<Rightarrow> ''WARNING: '' | LEVEL_ERROR \<Rightarrow> ''ERROR: '' | _ \<Rightarrow> []) @
     gpuPrefix @ msg @ [CHR 0x0A]"

text \<open>Questions of the mode setting module that the driver answers with a constant.\<close>

datatype nvkms_query = TEST_FAIL_ALLOC_CORE_CHANNEL | OUTPUT_ROUNDING_FIX | DISABLE_HDMI_FRL
  | DISABLE_VRR_MEMCLK_SWITCH | HDMI_DEEPCOLOR | VBLANK_SEM_CONTROL | OPPORTUNISTIC_DISPLAY_SYNC
  | ENABLE_OVERLAY_LAYERS

definition nvkms_feature :: "nvkms_query \<Rightarrow> bool" where "nvkms_feature q = False"

datatype force_color_space = NVKMS_DEBUG_FORCE_COLOR_SPACE_NONE | FORCE_COLOR_SPACE_OTHER nat

definition nvkms_debug_force_color_space :: force_color_space where
  "nvkms_debug_force_color_space = NVKMS_DEBUG_FORCE_COLOR_SPACE_NONE"

text \<open>The timers of the mode setting module: \<open>NV_TIMER_QUEUE_ENABLED\<close> is 0, so no timer is made.\<close>

definition NV_TIMER_QUEUE_ENABLED :: bool where "NV_TIMER_QUEUE_ENABLED = False"

definition nvkms_alloc_timer :: "('q \<Rightarrow> ptr \<times> 'q) \<Rightarrow> 'q \<Rightarrow> ptr \<times> 'q" where
  "nvkms_alloc_timer alloc q = (if NV_TIMER_QUEUE_ENABLED then alloc q else (nullptr, q))"

definition nvkms_alloc_timer_with_ref_ptr :: "('q \<Rightarrow> bool \<times> 'q) \<Rightarrow> 'q \<Rightarrow> bool \<times> 'q" where
  "nvkms_alloc_timer_with_ref_ptr alloc q = (if NV_TIMER_QUEUE_ENABLED then alloc q else (False, q))"

definition nvkms_free_timer :: "('q \<Rightarrow> 'q) \<Rightarrow> 'q \<Rightarrow> 'q" where
  "nvkms_free_timer free q = (if NV_TIMER_QUEUE_ENABLED then free q else q)"

section \<open>Time, and what is not there\<close>

text \<open>The microseconds that \<open>snooze\<close> sleeps, a signed 64-bit integer, and the time since the start of the
  system.\<close>

definition nvkms_usleep :: "u64 \<Rightarrow> int" where "nvkms_usleep usec = sint usec"
definition nvkms_get_usec :: "int \<Rightarrow> u64" where "nvkms_get_usec system_time = word_of_int system_time"

text \<open>A delay of more than \<open>2 ^ 63\<close> microseconds would become negative.\<close>

lemma usleep_exact: "unat usec < 2 ^ 63 \<Longrightarrow> nvkms_usleep usec = int (unat usec)"
proof -
  assume "unat usec < 2 ^ 63"
  then have "int (unat usec) < int (2 ^ 63)" by (simp only: of_nat_less_iff)
  then have "uint usec < 2 ^ 63" by simp
  moreover have "- (2 ^ 63) \<le> uint usec" by (rule order_trans [of _ 0]) simp_all
  ultimately show ?thesis by (simp add: nvkms_usleep_def sint_uint signed_take_bit_int_eq_self)
qed

text \<open>A descriptor that is not one of an NVIDIA device is taken for one.\<close>

definition nvkms_fd_is_nvidia_chardev :: "int \<Rightarrow> bool" where "nvkms_fd_is_nvidia_chardev fd = True"

definition nvkms_get_per_open_data :: "int \<Rightarrow> ptr" where "nvkms_get_per_open_data fd = nullptr"
definition nvkms_syncpt_op :: bool where "nvkms_syncpt_op = False"
definition nvkms_kernel_supports_syncpts :: bool where "nvkms_kernel_supports_syncpts = False"

text \<open>No client inside the kernel is served and no backlight.\<close>

definition nvkms_open_from_kapi :: "ptr \<Rightarrow> ptr" where "nvkms_open_from_kapi device = nullptr"
definition nvkms_ioctl_from_kapi :: "ptr \<Rightarrow> u32 \<Rightarrow> bool" where "nvkms_ioctl_from_kapi popen cmd = False"
definition nvkms_ioctl_from_kapi_try_pmlock :: "ptr \<Rightarrow> u32 \<Rightarrow> bool" where
  "nvkms_ioctl_from_kapi_try_pmlock popen cmd = False"
definition nvkms_register_backlight :: "u32 \<Rightarrow> u32 \<Rightarrow> ptr" where
  "nvkms_register_backlight gpu_id display_id = nullptr"

end
