(* ===== verification/OsMemory.thy ===== *)
theory OsMemory
  imports Prelude
begin

text \<open>
  Memory for the resource manager: the memory sections of \<open>nvidia_gsp/nvidia/os-haiku.cpp\<close>. The
  resource manager asks for DMA buffers by the page, maps them, and copies to and from user
  memory; Haiku's areas and its virtual memory system are arguments of the model.
\<close>

section \<open>Status codes and cache types\<close>

datatype nv_status =
    NV_OK
  | NV_ERR_NO_MEMORY
  | NV_ERR_INVALID_ADDRESS
  | NV_ERR_INVALID_ARGUMENT
  | NV_ERR_STATE_IN_USE
  | NV_ERR_NOT_SUPPORTED
  | NV_ERR_GENERIC
  | NV_ERR_TIMEOUT_RETRY
  | NV_ERR_OBJECT_NOT_FOUND
  | NV_ERR_OPERATING_SYSTEM

datatype cache_type =
    NV_MEMORY_CACHED
  | NV_MEMORY_UNCACHED
  | NV_MEMORY_WRITECOMBINED
  | NV_MEMORY_WRITEBACK
  | NV_MEMORY_DEFAULT
  | NV_MEMORY_UNCACHED_WEAK
  | NV_MEMORY_OTHER u32

fun nv_cache_type_str :: "cache_type \<Rightarrow> string" where
  "nv_cache_type_str NV_MEMORY_CACHED = ''C''"
| "nv_cache_type_str NV_MEMORY_UNCACHED = ''UC''"
| "nv_cache_type_str NV_MEMORY_WRITECOMBINED = ''WC''"
| "nv_cache_type_str NV_MEMORY_WRITEBACK = ''WB''"
| "nv_cache_type_str NV_MEMORY_DEFAULT = ''-''"
| "nv_cache_type_str NV_MEMORY_UNCACHED_WEAK = ''UCW''"
| "nv_cache_type_str (NV_MEMORY_OTHER _) = ''?''"

text \<open>The flag word of Haiku as the set of its flags.\<close>

datatype memory_flag = B_WRITE_COMBINING_MEMORY | B_UNCACHED_MEMORY

fun to_haiku_cache_type :: "cache_type \<Rightarrow> memory_flag set" where
  "to_haiku_cache_type NV_MEMORY_CACHED = {}"
| "to_haiku_cache_type NV_MEMORY_WRITECOMBINED = {B_WRITE_COMBINING_MEMORY}"
| "to_haiku_cache_type NV_MEMORY_UNCACHED = {B_UNCACHED_MEMORY}"
| "to_haiku_cache_type NV_MEMORY_DEFAULT = {B_UNCACHED_MEMORY}"
| "to_haiku_cache_type _ = {}"

section \<open>Areas\<close>

text \<open>The calls of the virtual memory system that change something.\<close>

datatype area_call =
    CreateArea int u64
  | MapPhysical int u64 u64 "memory_flag set"
  | DeleteArea int
  | SetMemoryType int u64 "memory_flag set"

fun areas_made :: "area_call list \<Rightarrow> int list" where
  "areas_made [] = []"
| "areas_made (CreateArea a _ # cs) = a # areas_made cs"
| "areas_made (MapPhysical a _ _ _ # cs) = a # areas_made cs"
| "areas_made (DeleteArea a # cs) = areas_made cs"
| "areas_made (SetMemoryType _ _ _ # cs) = areas_made cs"

fun areas_deleted :: "area_call list \<Rightarrow> int list" where
  "areas_deleted [] = []"
| "areas_deleted (DeleteArea a # cs) = a # areas_deleted cs"
| "areas_deleted (CreateArea _ _ # cs) = areas_deleted cs"
| "areas_deleted (MapPhysical _ _ _ _ # cs) = areas_deleted cs"
| "areas_deleted (SetMemoryType _ _ _ # cs) = areas_deleted cs"

text \<open>What the kernel answers. An area is answered with its address.\<close>

record vm_env =
  vm_new :: bool
  vm_create_area :: "u64 \<Rightarrow> (int \<times> ptr) status"
  vm_map_physical_memory :: "u64 \<Rightarrow> u64 \<Rightarrow> memory_flag set \<Rightarrow> (int \<times> ptr) status"
  vm_area_for :: "ptr \<Rightarrow> int status"
  vm_area_address :: "int \<Rightarrow> ptr status"
  vm_get_memory_map :: "ptr \<Rightarrow> u64 option"

definition os_map_kernel_space :: "vm_env \<Rightarrow> u64 \<Rightarrow> u64 \<Rightarrow> cache_type \<Rightarrow> ptr \<times> area_call list" where
  "os_map_kernel_space E start size_bytes mode =
     (case vm_map_physical_memory E start size_bytes (to_haiku_cache_type mode) of
        Inl e \<Rightarrow> (nullptr, [])
      | Inr (area, address) \<Rightarrow> (address, [MapPhysical area start size_bytes (to_haiku_cache_type mode)]))"

definition os_unmap_kernel_space :: "vm_env \<Rightarrow> ptr \<Rightarrow> area_call list" where
  "os_unmap_kernel_space E addr =
     (case vm_area_for E addr of Inl e \<Rightarrow> [] | Inr area \<Rightarrow> [DeleteArea area])"

section \<open>DMA buffers\<close>

definition B_PAGE_SIZE :: nat where "B_PAGE_SIZE = 4096"

record nv_alloc =
  na_area :: int
  na_cacheType :: cache_type
  na_physBase :: u64

text \<open>A call may also abort, or write past the end of the array that the resource manager passes.\<close>

datatype 'a mem_outcome = Done 'a | Aborted | OutOfBounds

text \<open>The loop that fills \<open>pte_array\<close> from \<open>page\<close> on; \<open>left\<close> is the number of pages left.\<close>

fun pte_loop :: "vm_env \<Rightarrow> ptr \<Rightarrow> nat \<Rightarrow> nat \<Rightarrow> u64 list \<Rightarrow> u64 list mem_outcome" where
  "pte_loop E address page 0 pte_array = Done pte_array"
| "pte_loop E address page (Suc left) pte_array =
     (case vm_get_memory_map E (address + page * B_PAGE_SIZE) of
        None \<Rightarrow> Aborted
      | Some physAdr \<Rightarrow>
          if page < length pte_array
          then pte_loop E address (page + 1) left (pte_array[page := physAdr])
          else OutOfBounds)"

text \<open>The result is the status, the array and the buffer handed out in \<open>*priv_data\<close>.\<close>

definition nv_alloc_pages ::
    "vm_env \<Rightarrow> u32 \<Rightarrow> bool \<Rightarrow> cache_type \<Rightarrow> u64 list \<Rightarrow>
     (nv_status \<times> u64 list \<times> nv_alloc option) mem_outcome \<times> area_call list" where
  "nv_alloc_pages E page_count contiguous cache_type pte_array =
     (if \<not> vm_new E then (Done (NV_ERR_NO_MEMORY, pte_array, None), [])
      else let sz = ucast page_count * of_nat B_PAGE_SIZE in
        case vm_create_area E sz of
          Inl e \<Rightarrow> (Done (NV_ERR_NO_MEMORY, pte_array, None), [])
        | Inr (area, address) \<Rightarrow>
            (case pte_loop E address 0 (if contiguous then 1 else unat page_count) pte_array of
               Aborted \<Rightarrow> (Aborted, [CreateArea area sz])
             | OutOfBounds \<Rightarrow> (OutOfBounds, [CreateArea area sz])
             | Done pte_array \<Rightarrow>
                 if pte_array = [] then (OutOfBounds, [CreateArea area sz])
                 else (Done (NV_OK, pte_array,
                         Some \<lparr>na_area = area, na_cacheType = cache_type, na_physBase = pte_array ! 0\<rparr>),
                       [CreateArea area sz,
                        SetMemoryType area (pte_array ! 0) (to_haiku_cache_type cache_type)])))"

definition nv_free_pages :: "nv_alloc \<Rightarrow> nv_status \<times> area_call list" where
  "nv_free_pages a = (NV_OK, [DeleteArea (na_area a)])"

text \<open>The buffer is mapped already; a mapping is an address inside of it. \<open>None\<close> is a null pointer.\<close>

definition nv_alloc_kernel_mapping :: "vm_env \<Rightarrow> nv_alloc \<Rightarrow> u64 \<Rightarrow> u32 \<Rightarrow> (ptr \<times> int) option" where
  "nv_alloc_kernel_mapping E a pageIndex pageOffset =
     (case vm_area_address E (na_area a) of
        Inl e \<Rightarrow> None
      | Inr address \<Rightarrow> Some (address + unat pageIndex * B_PAGE_SIZE + unat pageOffset, na_area a))"

definition nv_free_kernel_mapping :: nv_status where "nv_free_kernel_mapping = NV_OK"

definition nv_alloc_user_mapping :: "vm_env \<Rightarrow> nv_alloc \<Rightarrow> u64 \<Rightarrow> u32 \<Rightarrow> nv_status \<times> u64 option" where
  "nv_alloc_user_mapping E a pageIndex pageOffset =
     (case vm_area_address E (na_area a) of
        Inl e \<Rightarrow> (NV_ERR_GENERIC, None)
      | Inr address \<Rightarrow>
          (case vm_get_memory_map E (address + unat pageIndex * B_PAGE_SIZE) of
             None \<Rightarrow> (NV_ERR_GENERIC, None)
           | Some physAdr \<Rightarrow> (NV_OK, Some (physAdr + ucast pageOffset))))"

definition nv_free_user_mapping :: nv_status where "nv_free_user_mapping = NV_OK"

definition os_match_mmap_offset :: "u64 \<Rightarrow> nv_status \<times> u64" where
  "os_match_mmap_offset offset = (NV_OK, 0)"

section \<open>Copies\<close>

text \<open>Memory is bytes by address. The lengths of \<open>os_mem_copy\<close> and its like are 32 bits wide; \<open>memcpy\<close>
  reads all bytes before it is defined to write them.\<close>

type_synonym memory = "ptr \<Rightarrow> u8"

definition os_mem_copy :: "ptr \<Rightarrow> ptr \<Rightarrow> u32 \<Rightarrow> memory \<Rightarrow> memory" where
  "os_mem_copy dst src len m = (\<lambda>p. if dst \<le> p \<and> p < dst + unat len then m (src + (p - dst)) else m p)"

definition os_mem_set :: "ptr \<Rightarrow> u8 \<Rightarrow> u32 \<Rightarrow> memory \<Rightarrow> memory" where
  "os_mem_set dst c len m = (\<lambda>p. if dst \<le> p \<and> p < dst + unat len then c else m p)"

text \<open>Only the sign of \<open>memcmp\<close> is defined; it is that of the first difference.\<close>

fun mem_cmp :: "u8 list \<Rightarrow> u8 list \<Rightarrow> int" where
  "mem_cmp (x # xs) (y # ys) = (if x = y then mem_cmp xs ys else if x < y then - 1 else 1)"
| "mem_cmp _ _ = 0"

definition os_mem_cmp :: "ptr \<Rightarrow> ptr \<Rightarrow> u32 \<Rightarrow> memory \<Rightarrow> int" where
  "os_mem_cmp buf0 buf1 len m =
     mem_cmp (map (\<lambda>i. m (buf0 + i)) [0..<unat len]) (map (\<lambda>i. m (buf1 + i)) [0..<unat len])"

text \<open>Which addresses belong to user and kernel space, and whether \<open>user_memcpy\<close> succeeds, which may
  have copied part of the bytes when it does not.\<close>

record user_env =
  is_user_address :: "ptr \<Rightarrow> bool"
  is_kernel_address :: "ptr \<Rightarrow> bool"
  user_memcpy :: "ptr \<Rightarrow> ptr \<Rightarrow> u32 \<Rightarrow> memory \<Rightarrow> bool \<times> memory"

definition os_memcpy_to_user :: "user_env \<Rightarrow> ptr \<Rightarrow> ptr \<Rightarrow> u32 \<Rightarrow> memory \<Rightarrow> nv_status \<times> memory" where
  "os_memcpy_to_user U dst src n m =
     (if \<not> is_user_address U dst \<or> \<not> is_kernel_address U src then (NV_ERR_INVALID_ADDRESS, m)
      else case user_memcpy U dst src n m of (ok, m') \<Rightarrow> (if ok then NV_OK else NV_ERR_INVALID_ADDRESS, m'))"

definition os_memcpy_from_user :: "user_env \<Rightarrow> ptr \<Rightarrow> ptr \<Rightarrow> u32 \<Rightarrow> memory \<Rightarrow> nv_status \<times> memory" where
  "os_memcpy_from_user U dst src n m =
     (if \<not> is_kernel_address U dst \<or> \<not> is_user_address U src then (NV_ERR_INVALID_ADDRESS, m)
      else case user_memcpy U dst src n m of (ok, m') \<Rightarrow> (if ok then NV_OK else NV_ERR_INVALID_ADDRESS, m'))"

section \<open>The buffer the resource manager gets\<close>

lemma pte_loop_Done:
  assumes "\<And>i. page \<le> i \<Longrightarrow> i < page + left \<Longrightarrow> vm_get_memory_map E (address + i * B_PAGE_SIZE) = Some (phys i)"
    and "page + left \<le> length pte"
  shows "\<exists>pte'. pte_loop E address page left pte = Done pte' \<and> length pte' = length pte \<and>
           (\<forall>i < length pte. pte' ! i = (if page \<le> i \<and> i < page + left then phys i else pte ! i))"
  using assms
proof (induction left arbitrary: page pte)
  case (Suc left)
  have p: "vm_get_memory_map E (address + page * B_PAGE_SIZE) = Some (phys page)" "page < length pte"
    using Suc.prems by auto
  have "\<exists>pte'. pte_loop E address (page + 1) left (pte[page := phys page]) = Done pte' \<and> length pte' = length pte \<and>
          (\<forall>i < length pte. pte' ! i =
             (if page + 1 \<le> i \<and> i < page + 1 + left then phys i else (pte[page := phys page]) ! i))"
    using Suc.IH [of "page + 1" "pte[page := phys page]"] Suc.prems by simp
  then show ?case using p by (force simp: nth_list_update)
qed auto

text \<open>
  C30: the resource manager gets the buffer it asked for. Let the kernel know the physical address
  of every page of the area it creates, and let the array have room. Without memory the call fails
  and makes no area. Otherwise it succeeds with one area of \<open>page_count\<close> pages, the array holds
  the physical address of every page (of the first, when the buffer is contiguous) and is otherwise
  unchanged, the area gets the cache type, a user mapping of a page that is in the array is its
  entry plus the offset, and \<open>nv_free_pages\<close> leaves no area behind.
\<close>

theorem alloc_pages_correct:
  assumes "nv_alloc_pages E page_count contiguous cache_type pte = (r, calls)"
    and pages: "\<And>area address i. vm_create_area E (ucast page_count * 4096) = Inr (area, address) \<Longrightarrow>
      vm_area_address E area = Inr address \<and>
      (i < unat page_count \<longrightarrow> vm_get_memory_map E (address + i * 4096) = Some (phys i))"
    and room: "(if contiguous then 1 else unat page_count) \<le> length pte" and "0 < page_count"
  shows "case vm_create_area E (ucast page_count * 4096) of
           Inl _ \<Rightarrow> r = Done (NV_ERR_NO_MEMORY, pte, None) \<and> calls = []
         | Inr (area, address) \<Rightarrow>
             if \<not> vm_new E then r = Done (NV_ERR_NO_MEMORY, pte, None) \<and> calls = []
             else \<exists>pte' a. r = Done (NV_OK, pte', Some a) \<and> length pte' = length pte \<and>
               (\<forall>i < length pte. pte' ! i = (if i < (if contiguous then 1 else unat page_count) then phys i else pte ! i)) \<and>
               calls = [CreateArea area (ucast page_count * 4096), SetMemoryType area (phys 0) (to_haiku_cache_type cache_type)] \<and>
               (\<forall>pageIndex offset. unat pageIndex < (if contiguous then 1 else unat page_count) \<longrightarrow>
                  nv_alloc_user_mapping E a pageIndex offset = (NV_OK, Some (pte' ! unat pageIndex + ucast offset))) \<and>
               areas_made (calls @ snd (nv_free_pages a)) = areas_deleted (calls @ snd (nv_free_pages a))"
proof (cases "vm_create_area E (ucast page_count * 4096)")
  case (Inl e)
  then show ?thesis using assms(1) by (cases "vm_new E") (auto simp: nv_alloc_pages_def B_PAGE_SIZE_def Let_def)
next
  case (Inr aa)
  obtain area address where aa: "aa = (area, address)" by (metis surj_pair)
  let ?n = "if contiguous then 1 else unat page_count"
  have n: "?n \<le> unat page_count" "0 < ?n" using assms(4) by (simp_all add: word_gt_0 unat_gt_0 Suc_le_eq)
  have at: "vm_area_address E area = Inr address"
    and phys: "\<And>i. i < unat page_count \<Longrightarrow> vm_get_memory_map E (address + i * 4096) = Some (phys i)"
    using pages Inr aa by auto
  have "\<And>i. 0 \<le> i \<Longrightarrow> i < 0 + ?n \<Longrightarrow> vm_get_memory_map E (address + i * B_PAGE_SIZE) = Some (phys i)"
    using phys n(1) by (simp add: B_PAGE_SIZE_def)
  then obtain pte' where loop: "pte_loop E address 0 ?n pte = Done pte'" "length pte' = length pte"
      "\<forall>i < length pte. pte' ! i = (if i < ?n then phys i else pte ! i)"
    using pte_loop_Done [of 0 ?n E address phys pte] room by auto
  have "0 < length pte" using n(2) room by linarith
  then have ne: "pte' \<noteq> []" "pte' ! 0 = phys 0" using loop n(2) by auto
  show ?thesis
  proof (cases "vm_new E")
    case True
    let ?a = "\<lparr>na_area = area, na_cacheType = cache_type, na_physBase = phys 0\<rparr>"
    have out: "r = Done (NV_OK, pte', Some ?a)"
        "calls = [CreateArea area (ucast page_count * 4096), SetMemoryType area (phys 0) (to_haiku_cache_type cache_type)]"
      using assms(1) Inr aa True loop(1) ne by (auto simp: nv_alloc_pages_def B_PAGE_SIZE_def Let_def)
    have user: "nv_alloc_user_mapping E ?a pageIndex offset = (NV_OK, Some (pte' ! unat pageIndex + ucast offset))"
      if "unat pageIndex < ?n" for pageIndex offset
      using that at phys n(1) loop(3) room by (auto simp: nv_alloc_user_mapping_def B_PAGE_SIZE_def)
    show ?thesis
      using Inr aa True out loop(2,3) user by (simp add: nv_free_pages_def)
  next
    case False
    then show ?thesis using assms(1) Inr aa by (auto simp: nv_alloc_pages_def)
  qed
qed

lemma alloc_pages_correct_witness:
  "let E = \<lparr>vm_new = True, vm_create_area = (\<lambda>sz. Inr (7, 0x10000)), vm_map_physical_memory = (\<lambda>_ _ _. Inl B_ERROR),
            vm_area_for = (\<lambda>_. Inl B_ERROR), vm_area_address = (\<lambda>_. Inr 0x10000), vm_get_memory_map = (\<lambda>p. Some (of_nat p))\<rparr>
   in \<exists>pte' a. fst (nv_alloc_pages E 2 False NV_MEMORY_UNCACHED [0, 0, 5]) = Done (NV_OK, pte', Some a) \<and>
        pte' ! 1 = 0x11000 \<and> pte' ! 2 = 5"
proof -
  let ?E = "\<lparr>vm_new = True, vm_create_area = (\<lambda>sz. Inr (7, 0x10000)), vm_map_physical_memory = (\<lambda>_ _ _. Inl B_ERROR),
            vm_area_for = (\<lambda>_. Inl B_ERROR), vm_area_address = (\<lambda>_. Inr 0x10000), vm_get_memory_map = (\<lambda>p. Some (of_nat p))\<rparr>"
  obtain r calls where run: "nv_alloc_pages ?E 2 False NV_MEMORY_UNCACHED [0, 0, 5] = (r, calls)" by (metis surj_pair)
  have "\<exists>pte' a. r = Done (NV_OK, pte', Some a) \<and> length pte' = 3 \<and>
      (\<forall>i < 3. pte' ! i = (if i < 2 then of_nat (0x10000 + i * 4096) else [0, 0, 5] ! i))"
    using alloc_pages_correct [OF run, of "\<lambda>i. of_nat (0x10000 + i * 4096)"] by auto
  then show ?thesis using run by (auto simp: Let_def)
qed

end
