(* ===== verification/CStrings.thy ===== *)
theory CStrings
  imports OsMemory
begin

text \<open>
  Memory and strings for the two prebuilt modules: the wrappers of the C library in
  \<open>nvidia_gsp/nvidia/os-haiku.cpp\<close> (\<open>nvlink_\<close>) and \<open>nvidia_gsp/nvidia-modeset/nvkms-haiku.cpp\<close>
  (\<open>nvkms_\<close>). A string is the bytes from an address up to the first zero; a function that looks for the
  end has no value when there is none. Blocks of memory on the heap are addresses that the allocator
  answers.
\<close>

section \<open>Blocks\<close>

text \<open>\<open>memcpy\<close> reads all bytes before it is defined to write them only when the blocks do not overlap;
  \<open>memmove\<close> always does. \<open>None\<close> stands for overlapping blocks.\<close>

definition overlap :: "ptr \<Rightarrow> ptr \<Rightarrow> nat \<Rightarrow> bool" where
  "overlap dest src n \<longleftrightarrow> n \<noteq> 0 \<and> dest < src + n \<and> src < dest + n"

definition copy_block :: "ptr \<Rightarrow> ptr \<Rightarrow> nat \<Rightarrow> memory \<Rightarrow> memory" where
  "copy_block dest src n m = (\<lambda>p. if dest \<le> p \<and> p < dest + n then m (src + (p - dest)) else m p)"

definition set_block :: "ptr \<Rightarrow> u8 \<Rightarrow> nat \<Rightarrow> memory \<Rightarrow> memory" where
  "set_block dest c n m = (\<lambda>p. if dest \<le> p \<and> p < dest + n then c else m p)"

definition nvkms_memcpy :: "ptr \<Rightarrow> ptr \<Rightarrow> u64 \<Rightarrow> memory \<Rightarrow> memory option" where
  "nvkms_memcpy dest src n m = (if overlap dest src (unat n) then None else Some (copy_block dest src (unat n) m))"

definition nvkms_memmove :: "ptr \<Rightarrow> ptr \<Rightarrow> u64 \<Rightarrow> memory \<Rightarrow> memory" where
  "nvkms_memmove dest src n m = copy_block dest src (unat n) m"

definition nvkms_memset :: "ptr \<Rightarrow> u8 \<Rightarrow> u64 \<Rightarrow> memory \<Rightarrow> memory" where
  "nvkms_memset p c n m = set_block p c (unat n) m"

definition nvkms_memcmp :: "ptr \<Rightarrow> ptr \<Rightarrow> u64 \<Rightarrow> memory \<Rightarrow> int" where
  "nvkms_memcmp s1 s2 n m = mem_cmp (map (\<lambda>i. m (s1 + i)) [0..<unat n]) (map (\<lambda>i. m (s2 + i)) [0..<unat n])"

definition nvlink_memcpy :: "ptr \<Rightarrow> ptr \<Rightarrow> u64 \<Rightarrow> memory \<Rightarrow> memory option" where
  "nvlink_memcpy dest src n m = nvkms_memcpy dest src n m"

text \<open>The \<open>int\<close> is converted to a byte.\<close>

definition nvlink_memset :: "ptr \<Rightarrow> u32 \<Rightarrow> u64 \<Rightarrow> memory \<Rightarrow> memory" where
  "nvlink_memset dest c n m = set_block dest (ucast c) (unat n) m"

definition nvlink_memcmp :: "ptr \<Rightarrow> ptr \<Rightarrow> u64 \<Rightarrow> memory \<Rightarrow> int" where
  "nvlink_memcmp s1 s2 n m = nvkms_memcmp s1 s2 n m"

text \<open>What \<open>malloc\<close> and \<open>calloc\<close> answer: \<open>nullptr\<close> or a block, which \<open>calloc\<close> clears.\<close>

definition nvkms_alloc :: "ptr \<Rightarrow> u64 \<Rightarrow> bool \<Rightarrow> memory \<Rightarrow> ptr \<times> memory" where
  "nvkms_alloc answer n zero m = (answer, if zero \<and> answer \<noteq> nullptr then set_block answer 0 (unat n) m else m)"

definition nvlink_malloc :: "ptr \<Rightarrow> u64 \<Rightarrow> memory \<Rightarrow> ptr \<times> memory" where
  "nvlink_malloc answer n m = (answer, if answer \<noteq> nullptr then set_block answer 0 (unat n) m else m)"

section \<open>Strings\<close>

partial_function (option) strlen_from :: "memory \<Rightarrow> ptr \<Rightarrow> nat \<Rightarrow> nat option" where
  "strlen_from m s n = (if m (s + n) = 0 then Some n else strlen_from m s (n + 1))"

partial_function (option) strcmp_from :: "memory \<Rightarrow> ptr \<Rightarrow> ptr \<Rightarrow> int option" where
  "strcmp_from m s1 s2 =
     (if m s1 \<noteq> m s2 then Some (if m s1 < m s2 then - 1 else 1)
      else if m s1 = 0 then Some 0 else strcmp_from m (s1 + 1) (s2 + 1))"

partial_function (option) strcpy_from :: "memory \<Rightarrow> ptr \<Rightarrow> ptr \<Rightarrow> memory option" where
  "strcpy_from m dest src =
     (let c = m src; m = m(dest := c) in if c = 0 then Some m else strcpy_from m (dest + 1) (src + 1))"

text \<open>\<open>strncpy\<close> stops after \<open>n\<close> bytes and fills up with zeros.\<close>

fun strncpy_from :: "memory \<Rightarrow> ptr \<Rightarrow> ptr \<Rightarrow> nat \<Rightarrow> memory" where
  "strncpy_from m dest src 0 = m"
| "strncpy_from m dest src (Suc n) =
     (if m src = 0 then set_block dest 0 (Suc n) m
      else strncpy_from (m(dest := m src)) (dest + 1) (src + 1) n)"

definition nvlink_strlen :: "ptr \<Rightarrow> memory \<Rightarrow> nat option" where "nvlink_strlen s m = strlen_from m s 0"
definition nvlink_strcmp :: "ptr \<Rightarrow> ptr \<Rightarrow> memory \<Rightarrow> int option" where "nvlink_strcmp s1 s2 m = strcmp_from m s1 s2"
definition nvlink_strcpy :: "ptr \<Rightarrow> ptr \<Rightarrow> memory \<Rightarrow> memory option" where "nvlink_strcpy dest src m = strcpy_from m dest src"
definition nvkms_strlen :: "ptr \<Rightarrow> memory \<Rightarrow> nat option" where "nvkms_strlen s m = strlen_from m s 0"
definition nvkms_strcmp :: "ptr \<Rightarrow> ptr \<Rightarrow> memory \<Rightarrow> int option" where "nvkms_strcmp s1 s2 m = strcmp_from m s1 s2"
definition nvkms_strncpy :: "ptr \<Rightarrow> ptr \<Rightarrow> u64 \<Rightarrow> memory \<Rightarrow> memory" where
  "nvkms_strncpy dest src n m = strncpy_from m dest src (unat n)"

section \<open>What they do\<close>

text \<open>The string \<open>cs\<close> lies at \<open>p\<close>.\<close>

fun string_at :: "memory \<Rightarrow> ptr \<Rightarrow> u8 list \<Rightarrow> bool" where
  "string_at m p [] = (m p = 0)"
| "string_at m p (c # cs) = (c \<noteq> 0 \<and> m p = c \<and> string_at m (p + 1) cs)"

lemma strlen_from_string: "string_at m (s + n) cs \<Longrightarrow> strlen_from m s n = Some (n + length cs)"
proof (induction cs arbitrary: n)
  case Nil
  then show ?case by (subst strlen_from.simps) simp
next
  case (Cons c cs)
  then show ?case by (subst strlen_from.simps) simp
qed

lemma strcmp_from_equal: "string_at m s1 cs \<Longrightarrow> string_at m s2 cs \<Longrightarrow> strcmp_from m s1 s2 = Some 0"
proof (induction cs arbitrary: s1 s2)
  case Nil
  then show ?case by (subst strcmp_from.simps) simp
next
  case (Cons c cs)
  then show ?case by (subst strcmp_from.simps) simp
qed

text \<open>Equality is all that the first difference leaves open.\<close>

lemma strcmp_from_zero: "string_at m s1 cs \<Longrightarrow> string_at m s2 ds \<Longrightarrow> strcmp_from m s1 s2 = Some 0 \<longleftrightarrow> cs = ds"
proof (induction cs arbitrary: s1 s2 ds)
  case Nil
  then show ?case by (cases ds) (auto simp: strcmp_from.simps [of m s1 s2])
next
  case (Cons c cs)
  then show ?case by (cases ds) (auto simp: strcmp_from.simps [of m s1 s2])
qed

lemma string_at_cong:
  "\<forall>p. s \<le> p \<and> p \<le> s + length cs \<longrightarrow> m' p = m p \<Longrightarrow> string_at m' s cs = string_at m s cs"
  by (induction cs arbitrary: s) auto

lemma strcpy_from_string:
  assumes "string_at m src cs" "dest + length cs < src \<or> src + length cs < dest"
  shows "\<exists>m'. strcpy_from m dest src = Some m' \<and> string_at m' dest cs \<and>
    (\<forall>p. p < dest \<or> dest + length cs < p \<longrightarrow> m' p = m p)"
  using assms
proof (induction cs arbitrary: m dest src)
  case Nil
  then show ?case by (subst strcpy_from.simps) simp
next
  case (Cons c cs)
  define m1 where "m1 = m(dest := c)"
  have m1: "m1 p = (if p = dest then c else m p)" for p by (simp add: m1_def)
  have "string_at m1 (src + 1) cs"
    using Cons.prems by (subst string_at_cong [where m = m]) (auto simp: m1)
  from Cons.IH [OF this, of "dest + 1"] Cons.prems obtain m' where m': "strcpy_from m1 (dest + 1) (src + 1) = Some m'"
    "string_at m' (dest + 1) cs" "\<forall>p. p < dest + 1 \<or> dest + 1 + length cs < p \<longrightarrow> m' p = m1 p" by auto
  have "strcpy_from m dest src = Some m'"
    using Cons.prems m'(1) by (subst strcpy_from.simps) (simp add: Let_def m1_def)
  moreover have "m' dest = c" using m'(3) by (simp add: m1)
  moreover have "\<forall>p. p < dest \<or> dest + length (c # cs) < p \<longrightarrow> m' p = m p" using m'(3) by (simp add: m1)
  ultimately show ?case using m'(2) Cons.prems by simp
qed

text \<open>
  A string that is copied to a place apart from it arrives whole: the copy has the same length and compares
  equal, the original is as it was, and no other byte is written.\<close>

lemma nvlink_strcpy_copies:
  assumes "string_at m src cs" "dest + length cs < src \<or> src + length cs < dest"
  shows "\<exists>m'. nvlink_strcpy dest src m = Some m' \<and> nvlink_strlen dest m' = nvlink_strlen src m \<and>
    nvlink_strcmp dest src m' = Some 0 \<and> (\<forall>p. p < dest \<or> dest + length cs < p \<longrightarrow> m' p = m p)"
proof -
  obtain m' where m': "strcpy_from m dest src = Some m'" "string_at m' dest cs"
    "\<forall>p. p < dest \<or> dest + length cs < p \<longrightarrow> m' p = m p" using strcpy_from_string [OF assms] by blast
  moreover have "string_at m' src cs"
    using assms m'(3) by (subst string_at_cong [where m = m]) auto
  ultimately show ?thesis using assms(1) strlen_from_string [of m' dest 0 cs] strlen_from_string [of m src 0 cs]
    by (auto simp: nvlink_strcpy_def nvlink_strlen_def nvlink_strcmp_def strcmp_from_equal)
qed

text \<open>\<open>strncpy\<close> leaves the copy without an end when the string does not fit.\<close>

lemma strncpy_from_byte:
  assumes "string_at m src cs" "dest + n \<le> src \<or> src + length cs < dest" "i < n"
  shows "strncpy_from m dest src n (dest + i) = (if i < length cs then cs ! i else 0)"
  using assms
proof (induction n arbitrary: m dest src cs i)
  case (Suc n)
  show ?case
  proof (cases cs)
    case Nil
    then show ?thesis using Suc.prems by (simp add: set_block_def)
  next
    case (Cons c cs')
    define m1 where "m1 = m(dest := c)"
    have m1: "m1 p = (if p = dest then c else m p)" for p by (simp add: m1_def)
    have str: "string_at m1 (src + 1) cs'" using Suc.prems Cons by (subst string_at_cong [where m = m]) (auto simp: m1)
    have below: "p < dest' \<Longrightarrow> strncpy_from m dest' src' k p = m p" for m dest' src' k p
      by (induction m dest' src' k rule: strncpy_from.induct) (auto simp: set_block_def)
    have step: "strncpy_from m dest src (Suc n) = strncpy_from m1 (dest + 1) (src + 1) n" using Suc.prems Cons by (simp add: m1_def)
    show ?thesis
    proof (cases i)
      case 0
      then show ?thesis using below [of dest "dest + 1" m1 "src + 1" n] unfolding step by (simp add: Cons m1)
    next
      case (Suc j)
      have "dest + 1 + n \<le> src + 1 \<or> src + 1 + length cs' < dest + 1" using Suc.prems(2) Cons by auto
      then show ?thesis using Suc Suc.IH [OF str, of "dest + 1" j] Suc.prems(3) Cons unfolding step by simp
    qed
  qed
qed simp

end
