(* ===== verification/KmsStub.thy ===== *)
theory KmsStub
  imports KmsSync GpuClients CStrings
begin

text \<open>
  \<open>nvidia_gsp/nvidia-modeset/nvkms-stub.cpp\<close>: the services that NVKMS asks for, as stubs. No build file names this
  file; it is what \<open>nvkms-haiku.cpp\<close> took the place of. Every stub leaves the world \<open>w\<close>, memory included, as it was.
  The last section compares the stubs with the services of \<open>nvkms-haiku.cpp\<close>.
\<close>

section \<open>Configuration\<close>

definition stub_test_fail_alloc_core_channel :: "nat \<Rightarrow> 's \<Rightarrow> bool \<times> 's" where
  "stub_test_fail_alloc_core_channel method w = (False, w)"
definition stub_output_rounding_fix :: "'s \<Rightarrow> bool \<times> 's" where "stub_output_rounding_fix w = (False, w)"
definition stub_disable_hdmi_frl :: "'s \<Rightarrow> bool \<times> 's" where "stub_disable_hdmi_frl w = (False, w)"
definition stub_disable_vrr_memclk_switch :: "'s \<Rightarrow> bool \<times> 's" where "stub_disable_vrr_memclk_switch w = (False, w)"
definition stub_hdmi_deepcolor :: "'s \<Rightarrow> bool \<times> 's" where "stub_hdmi_deepcolor w = (False, w)"
definition stub_vblank_sem_control :: "'s \<Rightarrow> bool \<times> 's" where "stub_vblank_sem_control w = (False, w)"
definition stub_opportunistic_display_sync :: "'s \<Rightarrow> bool \<times> 's" where "stub_opportunistic_display_sync w = (False, w)"
definition stub_debug_force_color_space :: "'s \<Rightarrow> force_color_space \<times> 's" where
  "stub_debug_force_color_space w = (NVKMS_DEBUG_FORCE_COLOR_SPACE_NONE, w)"
definition stub_enable_overlay_layers :: "'s \<Rightarrow> bool \<times> 's" where "stub_enable_overlay_layers w = (False, w)"

section \<open>Memory, time and text\<close>

definition stub_call_rm :: "ptr \<Rightarrow> 's \<Rightarrow> 's" where "stub_call_rm ops w = w"
definition stub_alloc :: "u64 \<Rightarrow> bool \<Rightarrow> 's \<Rightarrow> ptr \<times> 's" where "stub_alloc sz zero w = (nullptr, w)"
definition stub_free :: "ptr \<Rightarrow> u64 \<Rightarrow> 's \<Rightarrow> 's" where "stub_free ptr sz w = w"
definition stub_memset :: "ptr \<Rightarrow> u8 \<Rightarrow> u64 \<Rightarrow> 's \<Rightarrow> ptr \<times> 's" where
  "stub_memset ptr c sz w = (nullptr, w)"
definition stub_memcpy :: "ptr \<Rightarrow> ptr \<Rightarrow> u64 \<Rightarrow> 's \<Rightarrow> ptr \<times> 's" where
  "stub_memcpy dest src n w = (nullptr, w)"
definition stub_memmove :: "ptr \<Rightarrow> ptr \<Rightarrow> u64 \<Rightarrow> 's \<Rightarrow> ptr \<times> 's" where
  "stub_memmove dest src n w = (nullptr, w)"
definition stub_memcmp :: "ptr \<Rightarrow> ptr \<Rightarrow> u64 \<Rightarrow> 's \<Rightarrow> int \<times> 's" where
  "stub_memcmp s1 s2 n w = (0, w)"
definition stub_strlen :: "ptr \<Rightarrow> 's \<Rightarrow> u64 \<times> 's" where "stub_strlen s w = (0, w)"
definition stub_strcmp :: "ptr \<Rightarrow> ptr \<Rightarrow> 's \<Rightarrow> int \<times> 's" where "stub_strcmp s1 s2 w = (0, w)"

text \<open>The body has no \<open>return\<close>: what it returns is undefined.\<close>

definition stub_strncpy :: "ptr \<Rightarrow> ptr \<Rightarrow> u64 \<Rightarrow> 's \<Rightarrow> (ptr \<times> 's) option" where
  "stub_strncpy dest src n w = None"
definition stub_usleep :: "u64 \<Rightarrow> 's \<Rightarrow> 's" where "stub_usleep usec w = w"
definition stub_get_usec :: "'s \<Rightarrow> u64 \<times> 's" where "stub_get_usec w = (0, w)"
definition stub_copyin :: "ptr \<Rightarrow> u64 \<Rightarrow> u64 \<Rightarrow> 's \<Rightarrow> int \<times> 's" where
  "stub_copyin kptr uaddr n w = (0, w)"
definition stub_copyout :: "u64 \<Rightarrow> ptr \<Rightarrow> u64 \<Rightarrow> 's \<Rightarrow> int \<times> 's" where
  "stub_copyout uaddr kptr n w = (0, w)"
definition stub_yield :: "'s \<Rightarrow> 's" where "stub_yield w = w"
definition stub_dump_stack :: "'s \<Rightarrow> 's" where "stub_dump_stack w = w"
definition stub_syncpt_op :: "nat \<Rightarrow> ptr \<Rightarrow> 's \<Rightarrow> bool \<times> 's" where "stub_syncpt_op op params w = (False, w)"
definition stub_snprintf :: "ptr \<Rightarrow> u64 \<Rightarrow> ptr \<Rightarrow> 's \<Rightarrow> int \<times> 's" where
  "stub_snprintf str sz format w = (0, w)"
definition stub_vsnprintf :: "ptr \<Rightarrow> u64 \<Rightarrow> ptr \<Rightarrow> ptr \<Rightarrow> 's \<Rightarrow> int \<times> 's" where
  "stub_vsnprintf str sz format ap w = (0, w)"
definition stub_log :: "int \<Rightarrow> ptr \<Rightarrow> ptr \<Rightarrow> 's \<Rightarrow> 's" where "stub_log level gpuPrefix msg w = w"

section \<open>Guarded pointers and timers\<close>

definition stub_alloc_ref_ptr :: "ptr \<Rightarrow> 's \<Rightarrow> ptr \<times> 's" where "stub_alloc_ref_ptr ptr w = (nullptr, w)"
definition stub_free_ref_ptr :: "ptr \<Rightarrow> 's \<Rightarrow> 's" where "stub_free_ref_ptr ref_ptr w = w"
definition stub_inc_ref :: "ptr \<Rightarrow> 's \<Rightarrow> 's" where "stub_inc_ref ref_ptr w = w"
definition stub_dec_ref :: "ptr \<Rightarrow> 's \<Rightarrow> ptr \<times> 's" where "stub_dec_ref ref_ptr w = (nullptr, w)"
definition stub_alloc_timer :: "ptr \<Rightarrow> ptr \<Rightarrow> u32 \<Rightarrow> u64 \<Rightarrow> 's \<Rightarrow> ptr \<times> 's" where
  "stub_alloc_timer proc dataPtr dataU32 usec w = (nullptr, w)"
definition stub_alloc_timer_with_ref_ptr :: "ptr \<Rightarrow> ptr \<Rightarrow> u32 \<Rightarrow> u64 \<Rightarrow> 's \<Rightarrow> bool \<times> 's" where
  "stub_alloc_timer_with_ref_ptr proc ref_ptr dataU32 usec w = (False, w)"
definition stub_free_timer :: "ptr \<Rightarrow> 's \<Rightarrow> 's" where "stub_free_timer handle w = w"
definition stub_event_queue_changed :: "ptr \<Rightarrow> bool \<Rightarrow> 's \<Rightarrow> 's" where
  "stub_event_queue_changed pOpenKernel eventsAvailable w = w"

section \<open>Devices, clients and GPUs\<close>

definition stub_get_per_open_data :: "int \<Rightarrow> 's \<Rightarrow> ptr \<times> 's" where "stub_get_per_open_data fd w = (nullptr, w)"
definition stub_open_gpu :: "u32 \<Rightarrow> 's \<Rightarrow> bool \<times> 's" where "stub_open_gpu gpuId w = (False, w)"
definition stub_close_gpu :: "u32 \<Rightarrow> 's \<Rightarrow> 's" where "stub_close_gpu gpuId w = w"
definition stub_enumerate_gpus :: "ptr \<Rightarrow> 's \<Rightarrow> u32 \<times> 's" where "stub_enumerate_gpus gpu_info w = (0, w)"
definition stub_allow_write_combining :: "'s \<Rightarrow> bool \<times> 's" where "stub_allow_write_combining w = (False, w)"
definition stub_kernel_supports_syncpts :: "'s \<Rightarrow> bool \<times> 's" where "stub_kernel_supports_syncpts w = (False, w)"
definition stub_fd_is_nvidia_chardev :: "int \<Rightarrow> 's \<Rightarrow> bool \<times> 's" where "stub_fd_is_nvidia_chardev fd w = (False, w)"
definition stub_open_from_kapi :: "ptr \<Rightarrow> 's \<Rightarrow> ptr \<times> 's" where "stub_open_from_kapi device w = (nullptr, w)"
definition stub_close_from_kapi :: "ptr \<Rightarrow> 's \<Rightarrow> 's" where "stub_close_from_kapi popen w = w"
definition stub_ioctl_from_kapi :: "ptr \<Rightarrow> u32 \<Rightarrow> ptr \<Rightarrow> u64 \<Rightarrow> 's \<Rightarrow> bool \<times> 's" where
  "stub_ioctl_from_kapi popen cmd params_address params_size w = (False, w)"
definition stub_ioctl_from_kapi_try_pmlock :: "ptr \<Rightarrow> u32 \<Rightarrow> ptr \<Rightarrow> u64 \<Rightarrow> 's \<Rightarrow> bool \<times> 's" where
  "stub_ioctl_from_kapi_try_pmlock popen cmd params_address params_size w = (False, w)"

section \<open>Semaphores and backlights\<close>

definition stub_sema_alloc :: "'s \<Rightarrow> ptr \<times> 's" where "stub_sema_alloc w = (nullptr, w)"
definition stub_sema_free :: "ptr \<Rightarrow> 's \<Rightarrow> 's" where "stub_sema_free sema w = w"
definition stub_sema_down :: "ptr \<Rightarrow> 's \<Rightarrow> 's" where "stub_sema_down sema w = w"
definition stub_sema_up :: "ptr \<Rightarrow> 's \<Rightarrow> 's" where "stub_sema_up sema w = w"
definition stub_register_backlight :: "u32 \<Rightarrow> u32 \<Rightarrow> ptr \<Rightarrow> u32 \<Rightarrow> 's \<Rightarrow> ptr \<times> 's" where
  "stub_register_backlight gpu display drv_priv current_brightness w = (nullptr, w)"
definition stub_unregister_backlight :: "ptr \<Rightarrow> 's \<Rightarrow> 's" where "stub_unregister_backlight nvkms_bd w = w"

section \<open>Stubs and services\<close>

text \<open>Where the driver has not gone beyond the stubs.\<close>

lemma stub_same_answers:
  "fst (stub_enumerate_gpus p w) = nvkms_enumerate_gpus d"
  "fst (stub_output_rounding_fix w) = nvkms_feature OUTPUT_ROUNDING_FIX"
  "fst (stub_debug_force_color_space w) = nvkms_debug_force_color_space"
  "fst (stub_syncpt_op n p w) = nvkms_syncpt_op"
  "fst (stub_kernel_supports_syncpts w) = nvkms_kernel_supports_syncpts"
  "fst (stub_get_per_open_data fd w) = nvkms_get_per_open_data fd"
  "fst (stub_open_from_kapi p w) = nvkms_open_from_kapi p"
  "fst (stub_ioctl_from_kapi p cmd q len w) = nvkms_ioctl_from_kapi p cmd"
  "fst (stub_ioctl_from_kapi_try_pmlock p cmd q len w) = nvkms_ioctl_from_kapi_try_pmlock p cmd"
  "fst (stub_register_backlight gpu disp p b w) = nvkms_register_backlight gpu disp"
  "stub_alloc_timer p q u usec w = nvkms_alloc_timer alloc w"
  "stub_alloc_timer_with_ref_ptr p q u usec w = nvkms_alloc_timer_with_ref_ptr alloc' w"
  "stub_free_timer p w = nvkms_free_timer free w"
  by (simp_all add: stub_enumerate_gpus_def nvkms_enumerate_gpus_def nvidia_module_enumerate_gpus_def stub_output_rounding_fix_def
      nvkms_feature_def stub_debug_force_color_space_def nvkms_debug_force_color_space_def stub_syncpt_op_def nvkms_syncpt_op_def
      stub_kernel_supports_syncpts_def nvkms_kernel_supports_syncpts_def stub_get_per_open_data_def nvkms_get_per_open_data_def
      stub_open_from_kapi_def nvkms_open_from_kapi_def stub_ioctl_from_kapi_def nvkms_ioctl_from_kapi_def
      stub_ioctl_from_kapi_try_pmlock_def nvkms_ioctl_from_kapi_try_pmlock_def stub_register_backlight_def
      nvkms_register_backlight_def stub_alloc_timer_def nvkms_alloc_timer_def stub_alloc_timer_with_ref_ptr_def
      nvkms_alloc_timer_with_ref_ptr_def stub_free_timer_def nvkms_free_timer_def NV_TIMER_QUEUE_ENABLED_def)

text \<open>Where a stub answers the opposite.\<close>

lemma stub_other_answers:
  "fst (stub_fd_is_nvidia_chardev fd w) \<noteq> nvkms_fd_is_nvidia_chardev fd"
  "fst (stub_allow_write_combining w) \<noteq> nvkms_allow_write_combining"
  by (simp_all add: stub_fd_is_nvidia_chardev_def nvkms_fd_is_nvidia_chardev_def stub_allow_write_combining_def
      nvkms_allow_write_combining_def gNvidiaModule_def)

end
