(* ===== verification/OsSync.thy ===== *)
theory OsSync
  imports OsMemory
begin

text \<open>
  Locks for the resource manager: the spinlock, mutex, RW lock, semaphore and wait queue sections of
  \<open>nvidia_gsp/nvidia/os-haiku.cpp\<close>. Haiku's primitives are part of the operating system; their
  state is kept abstractly, and a call that blocks in the given state is \<open>None\<close>.
\<close>

section \<open>Spinlocks\<close>

text \<open>The processor the code runs on: whether interrupts are enabled, the spinlocks held, and the calls
  of the pool's \<open>Maintain\<close>, each with the state it was made in.\<close>

record cpu =
  interrupts :: bool
  spinlocks :: "ptr set"
  maintained :: "(bool \<times> ptr set) list"

text \<open>The object is memory of \<open>os_alloc_mem\<close>, whose answer is the argument (null for none).\<close>

definition os_alloc_spinlock :: "ptr \<Rightarrow> nv_status \<times> ptr" where
  "os_alloc_spinlock mem = (if mem = nullptr then (NV_ERR_NO_MEMORY, mem) else (NV_OK, mem))"

definition os_acquire_spinlock :: "ptr \<Rightarrow> cpu \<Rightarrow> (bool \<times> cpu) option" where
  "os_acquire_spinlock l c =
     (let res = interrupts c; c = c\<lparr>interrupts := False\<rparr>
      in if l \<in> spinlocks c then None else Some (res, c\<lparr>spinlocks := insert l (spinlocks c)\<rparr>))"

definition os_release_spinlock :: "ptr \<Rightarrow> bool \<Rightarrow> cpu \<Rightarrow> cpu" where
  "os_release_spinlock l oldIrql c =
     (let c = c\<lparr>spinlocks := spinlocks c - {l}\<rparr>; c = c\<lparr>interrupts := oldIrql\<rparr>
      in if oldIrql then c\<lparr>maintained := maintained c @ [(interrupts c, spinlocks c)]\<rparr> else c)"

text \<open>A critical section and those nested in it, in the order they run; the result of acquiring the
  lock is given back when it is released.\<close>

datatype critical = Critical ptr "critical list"

fun run_critical :: "critical \<Rightarrow> cpu \<Rightarrow> cpu option" and run_criticals :: "critical list \<Rightarrow> cpu \<Rightarrow> cpu option" where
  "run_critical (Critical l inner) c =
     (case os_acquire_spinlock l c of
        None \<Rightarrow> None
      | Some (old, c) \<Rightarrow> map_option (os_release_spinlock l old) (run_criticals inner c))"
| "run_criticals [] c = Some c"
| "run_criticals (s # ss) c = Option.bind (run_critical s c) (run_criticals ss)"

text \<open>No lock is taken again inside its own section.\<close>

fun no_relock :: "ptr set \<Rightarrow> critical \<Rightarrow> bool" and no_relocks :: "ptr set \<Rightarrow> critical list \<Rightarrow> bool" where
  "no_relock held (Critical l inner) \<longleftrightarrow> l \<notin> held \<and> no_relocks (insert l held) inner"
| "no_relocks held [] \<longleftrightarrow> True"
| "no_relocks held (s # ss) \<longleftrightarrow> no_relock held s \<and> no_relocks held ss"

definition quiet :: "cpu \<Rightarrow> nat \<Rightarrow> cpu" where
  "quiet c n = c\<lparr>maintained := maintained c @ replicate n (True, spinlocks c)\<rparr>"

lemma quiet_simps [simp]:
  "quiet c 0 = c" "interrupts (quiet c n) = interrupts c" "spinlocks (quiet c n) = spinlocks c"
  by (simp_all add: quiet_def)

lemma run_critical_restores:
  shows "no_relock (spinlocks c) s \<Longrightarrow> run_critical s c = Some (quiet c (of_bool (interrupts c)))"
    and "no_relocks (spinlocks c) ss \<Longrightarrow>
      run_criticals ss c = Some (quiet c (if interrupts c then length ss else 0))"
proof (induction s c and ss c rule: run_critical_run_criticals.induct)
  case (1 l inner c)
  let ?c1 = "c\<lparr>interrupts := False, spinlocks := insert l (spinlocks c)\<rparr>"
  have acq: "os_acquire_spinlock l c = Some (interrupts c, ?c1)" and l: "l \<notin> spinlocks c"
    using 1(2) by (simp_all add: os_acquire_spinlock_def Let_def)
  have "run_criticals inner ?c1 = Some ?c1" using 1(1) [OF acq refl] 1(2) by simp
  then show ?case using acq l
    by (cases c) (simp add: os_release_spinlock_def quiet_def Let_def)
next
  case (3 s ss c)
  let ?c1 = "quiet c (of_bool (interrupts c))"
  have "run_critical s c = Some ?c1" using 3 by simp
  moreover have "run_criticals ss ?c1 = Some (quiet ?c1 (if interrupts ?c1 then length ss else 0))"
    using 3(2) [of ?c1] 3(3) calculation by simp
  ultimately show ?case by (auto simp: quiet_def)
qed simp

text \<open>
  C36: critical sections under spinlocks are safe to nest: sections in which no lock is taken again
  never spin for ever, give back every lock and the interrupt state they found, and let the pool
  refill itself only where it may use the kernel heap: \<open>Maintain\<close> runs once after each outermost
  section that was entered with interrupts enabled, with interrupts enabled and no spinlock of the
  sections held.
\<close>

theorem spinlock_sections_restore:
  assumes "no_relocks (spinlocks c) ss"
  shows "run_criticals ss c = Some (c\<lparr>maintained := maintained c @
           replicate (if interrupts c then length ss else 0) (True, spinlocks c)\<rparr>)"
  using run_critical_restores(2) [OF assms] by (simp add: quiet_def)

lemma spinlock_sections_restore_witness:
  "run_criticals [Critical 1 [Critical 2 [], Critical 3 []], Critical 2 []]
     \<lparr>interrupts = True, spinlocks = {}, maintained = []\<rparr> =
   Some \<lparr>interrupts = True, spinlocks = {}, maintained = [(True, {}), (True, {})]\<rparr>"
  by (subst spinlock_sections_restore) (simp_all add: numeral_2_eq_2)

section \<open>Mutexes\<close>

text \<open>The state of a mutex is whether it is locked.\<close>

definition os_alloc_mutex :: "ptr \<Rightarrow> nv_status \<times> ptr" where
  "os_alloc_mutex mem = (if mem = nullptr then (NV_ERR_NO_MEMORY, mem) else (NV_OK, mem))"

definition os_free_mutex :: "ptr \<Rightarrow> ptr list" where
  "os_free_mutex pMutex = (if pMutex \<noteq> nullptr then [pMutex] else [])"

definition os_acquire_mutex :: "bool \<Rightarrow> (nv_status \<times> bool) option" where
  "os_acquire_mutex locked = (if locked then None else Some (NV_OK, True))"

definition os_cond_acquire_mutex :: "bool \<Rightarrow> nv_status \<times> bool" where
  "os_cond_acquire_mutex locked = (if locked then (NV_ERR_TIMEOUT_RETRY, locked) else (NV_OK, True))"

definition os_release_mutex :: "bool \<Rightarrow> bool" where "os_release_mutex locked = False"

section \<open>RW locks\<close>

record rw_lock =
  readers :: nat
  writer :: bool

definition os_alloc_rwlock :: "ptr \<Rightarrow> ptr" where
  "os_alloc_rwlock mem = (if mem = nullptr then nullptr else mem)"

definition os_acquire_rwlock_read :: "rw_lock \<Rightarrow> (nv_status \<times> rw_lock) option" where
  "os_acquire_rwlock_read l = (if writer l then None else Some (NV_OK, l\<lparr>readers := readers l + 1\<rparr>))"

definition os_acquire_rwlock_write :: "rw_lock \<Rightarrow> (nv_status \<times> rw_lock) option" where
  "os_acquire_rwlock_write l =
     (if writer l \<or> 0 < readers l then None else Some (NV_OK, l\<lparr>writer := True\<rparr>))"

definition os_release_rwlock_read :: "rw_lock \<Rightarrow> rw_lock" where
  "os_release_rwlock_read l = l\<lparr>readers := readers l - 1\<rparr>"

definition os_release_rwlock_write :: "rw_lock \<Rightarrow> rw_lock" where
  "os_release_rwlock_write l = l\<lparr>writer := False\<rparr>"

section \<open>Semaphores\<close>

text \<open>The state is the count. \<open>new\<close> and \<open>sem\<close> tell whether the object and the kernel's semaphore can be
  made; the object is deleted when the semaphore cannot.\<close>

definition os_alloc_semaphore :: "bool \<Rightarrow> bool \<Rightarrow> u32 \<Rightarrow> nat option" where
  "os_alloc_semaphore new sem initialValue = (if new then (if sem then Some (unat initialValue) else None) else None)"

definition os_acquire_semaphore :: "nat \<Rightarrow> (nv_status \<times> nat) option" where
  "os_acquire_semaphore n = (if n = 0 then None else Some (NV_OK, n - 1))"

definition os_cond_acquire_semaphore :: "nat \<Rightarrow> nv_status \<times> nat" where
  "os_cond_acquire_semaphore n = (if n = 0 then (NV_ERR_TIMEOUT_RETRY, n) else (NV_OK, n - 1))"

definition os_release_semaphore :: "nat \<Rightarrow> nv_status \<times> nat" where
  "os_release_semaphore n = (NV_OK, n + 1)"

definition os_semaphore_may_sleep :: "cpu \<Rightarrow> bool" where "os_semaphore_may_sleep c = interrupts c"

section \<open>Wait queues\<close>

text \<open>The threads that wait, first come first served; \<open>NotifyOne\<close> wakes the first.\<close>

definition os_alloc_wait_queue :: "bool \<Rightarrow> nv_status \<times> nat list option" where
  "os_alloc_wait_queue new = (if new then (NV_OK, Some []) else (NV_ERR_NO_MEMORY, None))"

definition os_wait :: "nat \<Rightarrow> nat list \<Rightarrow> nat list" where "os_wait thread wq = wq @ [thread]"

definition os_wake_up :: "nat list \<Rightarrow> nat option \<times> nat list" where
  "os_wake_up wq = (case wq of [] \<Rightarrow> (None, []) | t # ts \<Rightarrow> (Some t, ts))"

end
