(* ===== verification/OsLocks.thy ===== *)
theory OsLocks
  imports OsSync Steps
begin

text \<open>
  The locks of \<open>os-haiku.cpp\<close> between threads. \<open>OsSync\<close> says what each call does to the state of a lock; here any
  number of threads call them. The mutex and the semaphore meet one contract, the locale \<open>unit_lock\<close>: a lock is a
  number of units, a holder has one of them. RW locks have two kinds of holders. The last section lets a
  semaphore be freed while threads wait for it.
\<close>

section \<open>Locks that hand out units\<close>

text \<open>\<open>acq\<close> waits (None) or takes a unit, \<open>attempt\<close> does not wait, \<open>rel\<close> returns a unit. The state is that of the
  lock and the set of threads that were told they have it; a thread takes a lock once.\<close>

inductive lock_step ::
    "('s \<Rightarrow> (nv_status \<times> 's) option) \<Rightarrow> ('s \<Rightarrow> nv_status \<times> 's) \<Rightarrow> ('s \<Rightarrow> 's) \<Rightarrow> 's \<times> nat set \<Rightarrow> 's \<times> nat set \<Rightarrow> bool"
  for acq attempt rel where
  taken: "t \<notin> h \<Longrightarrow> acq s = Some (NV_OK, s') \<Longrightarrow> lock_step acq attempt rel (s, h) (s', insert t h)"
| tried: "t \<notin> h \<Longrightarrow> attempt s = (NV_OK, s') \<Longrightarrow> lock_step acq attempt rel (s, h) (s', insert t h)"
| refused: "t \<notin> h \<Longrightarrow> attempt s = (r, s') \<Longrightarrow> r \<noteq> NV_OK \<Longrightarrow> lock_step acq attempt rel (s, h) (s', h)"
| given: "t \<in> h \<Longrightarrow> lock_step acq attempt rel (s, h) (rel s, h - {t})"

locale unit_lock =
  fixes units :: "'s \<Rightarrow> nat" and total :: nat
    and acq :: "'s \<Rightarrow> (nv_status \<times> 's) option" and attempt :: "'s \<Rightarrow> nv_status \<times> 's" and rel :: "'s \<Rightarrow> 's"
  assumes wait_some: "acq s = Some (r, s') \<Longrightarrow> r = NV_OK \<and> units s = Suc (units s')"
    and wait_none: "acq s = None \<Longrightarrow> units s = 0"
    and attempt_ok: "attempt s = (NV_OK, s') \<Longrightarrow> units s = Suc (units s')"
    and attempt_refused: "attempt s = (r, s') \<Longrightarrow> r \<noteq> NV_OK \<Longrightarrow> units s = 0 \<and> s' = s"
    and rel_one: "units s < total \<Longrightarrow> units (rel s) = Suc (units s)"
begin

definition shared_out :: "'s \<times> nat set \<Rightarrow> bool" where
  "shared_out x \<longleftrightarrow> finite (snd x) \<and> units (fst x) + card (snd x) = total"

lemma shared_out_step: "lock_step acq attempt rel x y \<Longrightarrow> shared_out x \<Longrightarrow> shared_out y"
proof (induction rule: lock_step.induct)
  case (given t h s)
  then have "units s < total" using card_gt_0_iff [of h] by (auto simp: shared_out_def)
  then show ?case using given rel_one [of s] card.remove [of h t] by (simp add: shared_out_def)
qed (auto simp: shared_out_def dest!: wait_some attempt_ok attempt_refused)

lemma waits_iff: "acq s = None \<longleftrightarrow> units s = 0"
  using wait_some wait_none by (cases "acq s") fastforce+

end

sublocale unit_lock \<subseteq> sharing: preserved "lock_step acq attempt rel" shared_out
  by unfold_locales (rule shared_out_step)

context unit_lock begin

text \<open>The holders are never more than the units, and a thread waits exactly when there is none left.\<close>

lemma holders:
  assumes "(lock_step acq attempt rel)\<^sup>*\<^sup>* (s0, {}) (s, h)" "units s0 = total"
  shows "units s + card h = total \<and> (acq s = None \<longleftrightarrow> card h = total)"
proof -
  have "shared_out (s0, {})" using assms(2) by (simp add: shared_out_def)
  from sharing.inv_run [OF assms(1) this] have "units s + card h = total" by (simp add: shared_out_def)
  then show ?thesis by (simp add: waits_iff) linarith
qed

end

interpretation os_mutex: unit_lock "\<lambda>locked. of_bool (\<not> locked)" 1 os_acquire_mutex os_cond_acquire_mutex os_release_mutex
  by unfold_locales
    (auto simp: os_acquire_mutex_def os_cond_acquire_mutex_def os_release_mutex_def split: if_splits)

interpretation os_semaphore: unit_lock "\<lambda>n. n" N os_acquire_semaphore os_cond_acquire_semaphore "\<lambda>n. snd (os_release_semaphore n)"
  by unfold_locales
    (auto simp: os_acquire_semaphore_def os_cond_acquire_semaphore_def os_release_semaphore_def split: if_splits)

section \<open>RW locks\<close>

text \<open>The lock, the threads that read and the threads that write.\<close>

inductive rw_step :: "rw_lock \<times> nat set \<times> nat set \<Rightarrow> rw_lock \<times> nat set \<times> nat set \<Rightarrow> bool" where
  read: "t \<notin> R \<union> W \<Longrightarrow> os_acquire_rwlock_read l = Some (NV_OK, l') \<Longrightarrow> rw_step (l, R, W) (l', insert t R, W)"
| "write": "t \<notin> R \<union> W \<Longrightarrow> os_acquire_rwlock_write l = Some (NV_OK, l') \<Longrightarrow> rw_step (l, R, W) (l', R, insert t W)"
| read_done: "t \<in> R \<Longrightarrow> rw_step (l, R, W) (os_release_rwlock_read l, R - {t}, W)"
| write_done: "t \<in> W \<Longrightarrow> rw_step (l, R, W) (os_release_rwlock_write l, R, W - {t})"

fun rw_ok :: "rw_lock \<times> nat set \<times> nat set \<Rightarrow> bool" where
  "rw_ok (l, R, W) \<longleftrightarrow>
     finite R \<and> readers l = card R \<and> (if writer l then R = {} \<and> (\<exists>t. W = {t}) else W = {})"

lemma rw_ok_step: "rw_step x y \<Longrightarrow> rw_ok x \<Longrightarrow> rw_ok y"
proof (induction rule: rw_step.induct)
  case (read_done t R l W)
  then show ?case by (auto simp: os_release_rwlock_read_def split: if_splits)
qed (auto simp: os_acquire_rwlock_read_def os_acquire_rwlock_write_def os_release_rwlock_write_def split: if_splits)

interpretation rw: preserved rw_step rw_ok
  by unfold_locales (rule rw_ok_step)

section \<open>A semaphore that is freed\<close>

text \<open>The threads that wait in \<open>acquire_sem\<close>, first come first served, and those whose
  \<open>os_acquire_semaphore\<close> has returned \<open>NV_OK\<close>. A release hands the unit to the first that waits. When a
  semaphore is deleted, \<open>acquire_sem\<close> returns an error in the threads that wait; \<open>os_acquire_semaphore\<close> does not
  look at it and answers \<open>NV_OK\<close>.\<close>

record sema_world =
  exists :: bool
  sema :: nat
  waiting :: "nat list"
  inside :: "nat set"

definition free_while_waiting :: "sema_world \<Rightarrow> sema_world" where
  "free_while_waiting s = s\<lparr>exists := False, waiting := [], inside := inside s \<union> set (waiting s)\<rparr>"

inductive sema_step :: "sema_world \<Rightarrow> sema_world \<Rightarrow> bool" where
  enter: "exists s \<Longrightarrow> t \<notin> inside s \<union> set (waiting s) \<Longrightarrow> os_acquire_semaphore (sema s) = Some (NV_OK, n) \<Longrightarrow>
     sema_step s (s\<lparr>sema := n, inside := insert t (inside s)\<rparr>)"
| wait: "exists s \<Longrightarrow> t \<notin> inside s \<union> set (waiting s) \<Longrightarrow> os_acquire_semaphore (sema s) = None \<Longrightarrow>
     sema_step s (s\<lparr>waiting := waiting s @ [t]\<rparr>)"
| leave: "exists s \<Longrightarrow> t \<in> inside s \<Longrightarrow> waiting s = [] \<Longrightarrow>
     sema_step s (s\<lparr>sema := snd (os_release_semaphore (sema s)), inside := inside s - {t}\<rparr>)"
| hand_over: "exists s \<Longrightarrow> t \<in> inside s \<Longrightarrow> waiting s = u # us \<Longrightarrow>
     sema_step s (s\<lparr>waiting := us, inside := insert u (inside s - {t})\<rparr>)"
| free: "exists s \<Longrightarrow> sema_step s (free_while_waiting s)"

inductive_cases sema_stepE: "sema_step s s'"

definition sema_new :: "nat \<Rightarrow> sema_world" where
  "sema_new n = \<lparr>exists = True, sema = n, waiting = [], inside = {}\<rparr>"

definition sema_ok :: "nat \<Rightarrow> sema_world \<Rightarrow> bool" where
  "sema_ok n s \<longleftrightarrow> exists s \<longrightarrow>
     finite (inside s) \<and> sema s + card (inside s) = n \<and> (waiting s \<noteq> [] \<longrightarrow> sema s = 0) \<and>
     distinct (waiting s) \<and> inside s \<inter> set (waiting s) = {}"

lemma sema_ok_step: "sema_step s s' \<Longrightarrow> sema_ok n s \<Longrightarrow> sema_ok n s'"
proof (induction rule: sema_step.induct)
  case (leave s t)
  then show ?case using card.remove [of "inside s" t] by (auto simp: sema_ok_def os_release_semaphore_def)
next
  case (hand_over s t u us)
  then have "card (insert u (inside s - {t})) = card (inside s)"
    using card.remove [of "inside s" t] by (auto simp: sema_ok_def)
  then show ?case using hand_over by (auto simp: sema_ok_def)
qed (auto simp: sema_ok_def os_acquire_semaphore_def free_while_waiting_def split: if_splits)

interpretation sema: preserved sema_step "sema_ok n"
  by unfold_locales (rule sema_ok_step)

lemma no_semaphore_no_step: "\<not> exists s \<Longrightarrow> \<not> sema_step s s'"
  by (auto elim: sema_stepE)

text \<open>\<open>n + 1\<close> threads ask for the semaphore, and it is freed.\<close>

lemma sema_fill: "k \<le> n \<Longrightarrow> sema_step\<^sup>*\<^sup>* (sema_new n) \<lparr>exists = True, sema = n - k, waiting = [], inside = {..<k}\<rparr>"
proof (induction k)
  case 0
  then show ?case by (simp add: sema_new_def lessThan_def)
next
  case (Suc k)
  have "sema_step \<lparr>exists = True, sema = n - k, waiting = [], inside = {..<k}\<rparr>
      \<lparr>exists = True, sema = n - Suc k, waiting = [], inside = {..<Suc k}\<rparr>"
    using sema_step.enter [of "\<lparr>exists = True, sema = n - k, waiting = [], inside = {..<k}\<rparr>" k "n - Suc k"] Suc.prems
    by (simp add: os_acquire_semaphore_def lessThan_Suc)
  then show ?case using Suc by (meson Suc_leD rtranclp.rtrancl_into_rtrancl)
qed

lemma sema_freed: "\<exists>s. sema_step\<^sup>*\<^sup>* (sema_new n) s \<and> \<not> exists s \<and> card (inside s) = Suc n"
proof -
  let ?s = "\<lparr>exists = True, sema = 0, waiting = [], inside = {..<n}\<rparr>"
  let ?w = "\<lparr>exists = True, sema = 0, waiting = [n], inside = {..<n}\<rparr>"
  have "sema_step\<^sup>*\<^sup>* (sema_new n) ?s" using sema_fill [of n n] by simp
  moreover have "sema_step ?s ?w" using sema_step.wait [of ?s n] by (simp add: os_acquire_semaphore_def)
  moreover have "sema_step ?w (free_while_waiting ?w)" by (rule sema_step.free) simp
  ultimately have "sema_step\<^sup>*\<^sup>* (sema_new n) (free_while_waiting ?w)" by (meson rtranclp.rtrancl_into_rtrancl)
  moreover have "\<not> exists (free_while_waiting ?w)" "card (inside (free_while_waiting ?w)) = Suc n"
    by (simp_all add: free_while_waiting_def)
  ultimately show ?thesis by blast
qed



end
