(* ===== verification/Select.thy ===== *)
theory Select
  imports Prelude
begin

text \<open>
  The contract of a file that can be waited on with \<open>select\<close>. Both devices keep a pool of waiting
  \<open>selectsync\<close> objects and a flag that an event has happened; each operation runs under the
  pool's mutex, so a history is a list of operations. The pool itself is part of the kernel and
  is an argument of the model: \<open>select_pool\<close> holds its calls, \<open>select_pool_ok\<close> says what they
  promise.
\<close>

section \<open>The pool of the kernel\<close>

record 'p select_pool =
  pool_null :: 'p
  add_select_sync_pool_entry :: "nat \<Rightarrow> 'p \<Rightarrow> 'p status"
  remove_select_sync_pool_entry :: "nat \<Rightarrow> 'p \<Rightarrow> 'p status"
  pool_syncs :: "'p \<Rightarrow> nat set"

definition select_pool_ok :: "'p select_pool \<Rightarrow> bool" where
  "select_pool_ok P \<longleftrightarrow> pool_syncs P (pool_null P) = {} \<and>
     (\<forall>x p p'. add_select_sync_pool_entry P x p = Inr p' \<longrightarrow> pool_syncs P p' = insert x (pool_syncs P p)) \<and>
     (\<forall>x p p'. remove_select_sync_pool_entry P x p = Inr p' \<longrightarrow> pool_syncs P p' = pool_syncs P p - {x})"

lemma select_pool_okD:
  assumes "select_pool_ok P"
  shows "pool_syncs P (pool_null P) = {}"
    "add_select_sync_pool_entry P x p = Inr p' \<Longrightarrow> pool_syncs P p' = insert x (pool_syncs P p)"
    "remove_select_sync_pool_entry P x p = Inr p' \<Longrightarrow> pool_syncs P p' = pool_syncs P p - {x}"
  using assms by (auto simp: select_pool_ok_def)

text \<open>A pool that is a list, for the witnesses.\<close>

definition list_pool :: "nat list select_pool" where
  "list_pool = \<lparr>pool_null = [],
     add_select_sync_pool_entry = (\<lambda>x p. Inr (List.insert x p)),
     remove_select_sync_pool_entry = (\<lambda>x p. if x \<in> set p then Inr (removeAll x p) else Inl ENOENT),
     pool_syncs = set\<rparr>"

lemma list_pool_ok: "select_pool_ok list_pool"
  by (auto simp: select_pool_ok_def list_pool_def split: if_splits)

text \<open>The syncs a pool notifies, which are known only of a pool that keeps its promises.\<close>

definition notified :: "'p select_pool \<Rightarrow> 'p \<Rightarrow> nat set" where
  "notified P p = {x \<in> pool_syncs P p. select_pool_ok P}"

lemma notified_ok [simp]: "select_pool_ok P \<Longrightarrow> notified P p = pool_syncs P p"
  by (auto simp: notified_def)

lemma notified_subset: "notified P p \<subseteq> pool_syncs P p"
  by (auto simp: notified_def)

lemma notified_keeps:
  "add_select_sync_pool_entry P y p = Inr p' \<Longrightarrow> x \<in> notified P p \<Longrightarrow> x \<in> notified P p'"
  "remove_select_sync_pool_entry P y p = Inr p' \<Longrightarrow> x \<in> notified P p \<Longrightarrow> x \<noteq> y \<Longrightarrow> x \<in> notified P p'"
  by (auto simp: notified_def dest: select_pool_okD)

section \<open>Histories\<close>

text \<open>\<open>B_SELECT_READ\<close> is the only event the devices offer.\<close>

datatype select_event = B_SELECT_READ | OTHER_EVENT nat

text \<open>\<open>Raise\<close> and \<open>Flush\<close> are the two halves of posting an event: noting it and telling the pool. A
  source that does both at once has a \<open>Flush\<close> that does nothing. \<open>Withdraw\<close> says that there is no
  event any more. A step yields whether it succeeded, the new state and the syncs it notified.\<close>

datatype select_op = SelectOp nat | DeselectOp nat | Raise | Flush | Withdraw

type_synonym 's select_step = "select_op \<Rightarrow> 's \<Rightarrow> bool \<times> 's \<times> nat set"

text \<open>An event is owed from its \<open>Raise\<close> until somebody is told.\<close>

definition owed_after :: "select_op \<Rightarrow> nat set \<Rightarrow> bool \<Rightarrow> bool" where
  "owed_after op told owed = (told = {} \<and> (case op of Raise \<Rightarrow> True | Withdraw \<Rightarrow> False | _ \<Rightarrow> owed))"

fun select_run :: "'s select_step \<Rightarrow> select_op list \<Rightarrow> 's \<times> bool \<Rightarrow> 's \<times> bool" where
  "select_run step [] so = so"
| "select_run step (op # ops) so =
     (case step op (fst so) of (ok, s', told) \<Rightarrow> select_run step ops (s', owed_after op told (snd so)))"

fun select_told :: "'s select_step \<Rightarrow> select_op list \<Rightarrow> 's \<Rightarrow> nat set" where
  "select_told step [] s = {}"
| "select_told step (op # ops) s =
     (case step op s of (ok, s', told) \<Rightarrow> told \<union> select_told step ops s')"

section \<open>The contract\<close>

locale select_source =
  fixes waiting :: "'s \<Rightarrow> nat set"
    and ready :: "'s \<Rightarrow> bool"
    and step :: "'s select_step"
  assumes select_told_if_ready:
      "step (SelectOp x) s = (True, s', n) \<Longrightarrow> ready s \<Longrightarrow> x \<in> n"
    and still_ready:
      "step op s = (ok, s', {}) \<Longrightarrow> ready s \<Longrightarrow> op \<noteq> Withdraw \<Longrightarrow> ready s'"
    and raise_ready: "step Raise s = (ok, s', n) \<Longrightarrow> ready s'"
    and still_waiting:
      "step op s = (ok, s', n) \<Longrightarrow> x \<in> waiting s \<Longrightarrow> op \<noteq> DeselectOp x \<Longrightarrow> x \<in> waiting s'"
    and posted: "(\<forall>s. waiting s \<subseteq> snd (snd (step Raise s))) \<or> (\<forall>s. waiting s \<subseteq> snd (snd (step Flush s)))"
begin

lemma owed_ready:
  assumes "select_run step ops (s, owed) = (s', owed')" and "owed \<Longrightarrow> ready s" and "owed'"
  shows "ready s'"
  using assms
proof (induction ops arbitrary: s owed)
  case (Cons op ops)
  obtain ok t n where st: "step op s = (ok, t, n)" by (metis surj_pair)
  have "owed_after op n owed \<Longrightarrow> ready t"
    using Cons.prems(2) raise_ready still_ready st
    by (cases op) (auto simp: owed_after_def)
  then show ?case using Cons.IH Cons.prems st by simp
qed simp

text \<open>An event that is owed is told to the next one who selects.\<close>

theorem no_event_lost:
  assumes "select_run step ops (s, False) = (s', True)" "step (SelectOp x) s' = (True, s'', n)"
  shows "x \<in> n"
  using select_told_if_ready assms owed_ready by blast

lemma waiting_run:
  assumes "x \<in> waiting s" "DeselectOp x \<notin> set ops"
  shows "x \<in> select_told step (ops @ [Flush]) s \<or> (\<forall>s. waiting s \<subseteq> snd (snd (step Raise s)))"
  using assms
proof (induction ops arbitrary: s)
  case Nil
  show ?case
    by (cases "step Flush s") (use Nil posted in \<open>auto split: prod.splits\<close>, metis snd_conv subsetD)
next
  case (Cons op ops)
  obtain ok t n where st: "step op s = (ok, t, n)" by (metis surj_pair)
  then have "x \<in> waiting t" using Cons.prems still_waiting by auto
  then show ?case using Cons.IH Cons.prems st by auto
qed

text \<open>Whoever waits when an event is posted, and stays, is told before the posting is over.\<close>

theorem waiters_told:
  assumes "x \<in> waiting s" "DeselectOp x \<notin> set ops"
  shows "x \<in> select_told step (Raise # ops @ [Flush]) s"
proof -
  obtain ok t n where st: "step Raise s = (ok, t, n)" by (metis surj_pair)
  then have "x \<in> waiting t" using assms still_waiting by blast
  then have "x \<in> select_told step (ops @ [Flush]) t \<or> (\<forall>s. waiting s \<subseteq> snd (snd (step Raise s)))"
    using waiting_run assms(2) by blast
  then show ?thesis using st assms(1) by (metis UnCI case_prod_conv select_told.simps(2) snd_conv subsetD)
qed

end

end
