(* ===== verification/BaseDevice.thy ===== *)
theory BaseDevice
  imports Device Select OsMemory
begin

text \<open>
  An open file of a GPU or of the control device: \<open>nvidia_gsp/nvidia/BaseDevice.{h,cpp}\<close>, with the
  events of \<open>os-haiku.cpp\<close> that wake it up. Its \<open>Control\<close> is in the theory BaseControl.
\<close>

section \<open>The handle\<close>

record memory_range =
  range_start :: u64
  range_size :: u64

text \<open>\<open>nv_alloc_mapping_context_t\<close>: what the resource manager has prepared for the next mapping. A
  null \<open>pRanges\<close> is \<open>None\<close>, \<open>alloc\<close> is a pointer to an \<open>nv_alloc_t\<close>.\<close>

record mapping_context =
  mc_valid :: bool
  mc_alloc :: ptr
  mc_page_index :: u64
  mc_pRanges :: "(ptr \<times> memory_range list) option"
  mc_numRanges :: u64
  mc_page_array :: ptr
  mc_access_start :: u64
  mc_access_size :: u64
  mc_remap_prot_extra :: u64
  mc_prot :: u32
  mc_caching :: "cache_type option"

text \<open>The context filled with zero bytes; a cache type that was never stored is \<open>None\<close>.\<close>

definition mapping_context_zero :: mapping_context where
  "mapping_context_zero =
     \<lparr>mc_valid = False, mc_alloc = nullptr, mc_page_index = 0, mc_pRanges = None, mc_numRanges = 0,
      mc_page_array = nullptr, mc_access_start = 0, mc_access_size = 0, mc_remap_prot_extra = 0,
      mc_prot = 0, mc_caching = None\<rparr>"

text \<open>\<open>bh_device\<close> and \<open>bh_ctl\<close> stand for \<open>fDevice\<close>: its address and \<open>NV_IS_CTL_DEVICE\<close>.\<close>

record 'p base_handle =
  bh_device :: ptr
  bh_ctl :: bool
  fClosed :: bool
  fSelectPool :: 'p
  fDatalessEventPending :: bool
  fMmapContext :: mapping_context

definition NvHaikuBaseDeviceHandle_new :: "'p select_pool \<Rightarrow> ptr \<Rightarrow> bool \<Rightarrow> 'p base_handle" where
  "NvHaikuBaseDeviceHandle_new P device ctl =
     \<lparr>bh_device = device, bh_ctl = ctl, fClosed = False, fSelectPool = pool_null P,
      fDatalessEventPending = False, fMmapContext = mapping_context_zero\<rparr>"

text \<open>The destructor lets the resource manager clean up and yields the memory it frees.\<close>

definition NvHaikuBaseDeviceHandle_dtor :: "'p base_handle \<Rightarrow> ptr list" where
  "NvHaikuBaseDeviceHandle_dtor h =
     (let c = fMmapContext h in
      if mc_valid c
      then (if mc_page_array c \<noteq> nullptr then [mc_page_array c] else []) @
           (case mc_pRanges c of None \<Rightarrow> [] | Some (p, _) \<Rightarrow> [p])
      else [])"

definition NvHaikuBaseDeviceHandle_Close :: "'p base_handle \<Rightarrow> unit status \<times> 'p base_handle" where
  "NvHaikuBaseDeviceHandle_Close h = (B_OK, h\<lparr>fClosed := True\<rparr>)"

text \<open>\<open>FromFd\<close> asks the file for its handle; the answer of \<open>user_fd_kernel_ioctl\<close> is the argument.\<close>

definition FromFd :: "ptr status \<Rightarrow> ptr" where
  "FromFd res = (case res of Inl e \<Rightarrow> nullptr | Inr handle \<Rightarrow> handle)"

section \<open>Events and select\<close>

definition SetDatalessEventPending :: "'p base_handle \<Rightarrow> 'p base_handle" where
  "SetDatalessEventPending h = h\<lparr>fDatalessEventPending := True\<rparr>"

definition NotifySelectPool :: "'p select_pool \<Rightarrow> 'p base_handle \<Rightarrow> nat set" where
  "NotifySelectPool P h = pool_syncs P (fSelectPool h)"

definition NvHaikuBaseDeviceHandle_Select ::
    "'p select_pool \<Rightarrow> select_event \<Rightarrow> nat \<Rightarrow> 'p base_handle \<Rightarrow> unit status \<times> 'p base_handle \<times> nat set" where
  "NvHaikuBaseDeviceHandle_Select P event sync h =
     (if event \<noteq> B_SELECT_READ then (Inl B_BAD_VALUE, h, {})
      else case add_select_sync_pool_entry P sync (fSelectPool h) of
        Inl e \<Rightarrow> (Inl e, h, {})
      | Inr p \<Rightarrow>
          let pending = fDatalessEventPending h
          in (B_OK, h\<lparr>fSelectPool := p, fDatalessEventPending := False\<rparr>, if pending then {sync} else {}))"

definition NvHaikuBaseDeviceHandle_Deselect ::
    "'p select_pool \<Rightarrow> select_event \<Rightarrow> nat \<Rightarrow> 'p base_handle \<Rightarrow> unit status \<times> 'p base_handle \<times> nat set" where
  "NvHaikuBaseDeviceHandle_Deselect P event sync h =
     (if event \<noteq> B_SELECT_READ then (Inl B_BAD_VALUE, h, {})
      else case remove_select_sync_pool_entry P sync (fSelectPool h) of
        Inl e \<Rightarrow> (Inl e, h, {})
      | Inr p \<Rightarrow> (B_OK, h\<lparr>fSelectPool := p\<rparr>, {}))"

lemmas base_select_defs = NvHaikuBaseDeviceHandle_Select_def NvHaikuBaseDeviceHandle_Deselect_def
  SetDatalessEventPending_def NotifySelectPool_def

text \<open>Setting the flag takes no lock, so a posting thread can be interrupted between the two halves
  of \<open>nv_post_event\<close>; events that carry data are not noted at all.\<close>

definition nv_post_event :: "bool \<Rightarrow> select_op list" where
  "nv_post_event data_valid = (if data_valid then [] else [Raise]) @ [Flush]"

fun base_step :: "'p select_pool \<Rightarrow> 'p base_handle select_step" where
  "base_step P (SelectOp x) h = (case NvHaikuBaseDeviceHandle_Select P B_SELECT_READ x h of (r, h', n) \<Rightarrow> (r = B_OK, h', n))"
| "base_step P (DeselectOp x) h = (case NvHaikuBaseDeviceHandle_Deselect P B_SELECT_READ x h of (r, h', n) \<Rightarrow> (r = B_OK, h', n))"
| "base_step P Raise h = (True, SetDatalessEventPending h, {})"
| "base_step P Flush h = (True, h, NotifySelectPool P h)"
| "base_step P Withdraw h = (True, h, {})"

interpretation base: select_source "\<lambda>h. notified P (fSelectPool h)" fDatalessEventPending "base_step P"
proof unfold_locales
  fix x h h' n
  show "x \<in> n" if "base_step P (SelectOp x) h = (True, h', n)" "fDatalessEventPending h"
    using that by (auto simp: base_select_defs Let_def split: sum.splits)
next
  fix op :: select_op and h h' ok
  show "fDatalessEventPending h'"
    if "base_step P op h = (ok, h', {})" "fDatalessEventPending h" "op \<noteq> Withdraw"
    using that by (cases op) (auto simp: base_select_defs Let_def split: sum.splits)
next
  fix h h' :: "'a base_handle" and ok n
  show "fDatalessEventPending h'" if "base_step P Raise h = (ok, h', n)"
    using that by (auto simp: base_select_defs)
next
  fix op x h h' ok n
  show "x \<in> notified P (fSelectPool h')"
    if "base_step P op h = (ok, h', n)" "x \<in> notified P (fSelectPool h)" "op \<noteq> DeselectOp x"
    using that by (cases op) (auto simp: base_select_defs Let_def dest: notified_keeps split: sum.splits)
next
  show "(\<forall>h. notified P (fSelectPool h) \<subseteq> snd (snd (base_step P Raise h))) \<or>
        (\<forall>h. notified P (fSelectPool h) \<subseteq> snd (snd (base_step P Flush h)))"
    by (simp add: base_select_defs notified_subset)
qed



end
