(* ===== verification/BaseControl.thy ===== *)
theory BaseControl
  imports BaseDevice
begin

text \<open>
  \<open>NvHaikuBaseDeviceHandle::Control\<close> in \<open>nvidia_gsp/nvidia/BaseDevice.cpp\<close>: the commands that the
  driver handles itself (the cookie, the mapping of memory into the client, the list of cards) and
  the path to the resource manager for all others. A call that would read through a pointer that
  does not hold has no value.
\<close>

section \<open>Surroundings\<close>

text \<open>Constants of the headers of Haiku and of the resource manager, and sizes of types.\<close>

record control_consts =
  B_GET_ACCELERANT_SIGNATURE :: u32
  B_DEVICE_OP_CODES_END :: u32
  NV_ESC_CARD_INFO :: u32
  NV_FLAG_EXCLUDE :: u32
  B_USER_PROTECTION :: u32
  B_CLONEABLE_AREA :: u32
  B_OS_NAME_LENGTH :: nat
  sizeof_pointer :: nat
  sizeof_map_params :: nat
  sizeof_card_info :: nat

definition NV_HAIKU_BASE :: "control_consts \<Rightarrow> u32" where "NV_HAIKU_BASE C = B_DEVICE_OP_CODES_END C + 1"
definition NV_HAIKU_GET_COOKIE :: u32 where "NV_HAIKU_GET_COOKIE = 0"
definition NV_HAIKU_MAP :: u32 where "NV_HAIKU_MAP = 1"

record map_params =
  mp_name :: "u8 list"
  mp_address :: ptr
  mp_addressSpec :: u32
  mp_protection :: u32

record card_info =
  ci_domain :: u32
  ci_bus :: u8
  ci_slot :: u8
  ci_vendor_id :: u16
  ci_device_id :: u16
  ci_gpu_id :: u32
  ci_interrupt_line :: u32
  ci_reg_address :: u64
  ci_reg_size :: u64
  ci_minor_number :: u32
  ci_fb_address :: u64
  ci_fb_size :: u64

text \<open>The calls that change something outside of the handle, in order. \<open>Map*\<close> and \<open>Clone\<close> carry the
  area they made.\<close>

datatype control_call =
    StoreName string
  | StoreCookie ptr
  | Clone int int u32 u32
  | MapMemory int u64 u64 u32 u32
  | MapVecs int "memory_range list" u32 u32
  | SetType int u64 "memory_flag set"
  | StoreParams map_params
  | Delete int
  | ClearCards
  | StoreCard nat card_info
  | RmIoctl u32 "u8 list"
  | StoreBytes "u8 list"

text \<open>What the outside answers: user memory, the virtual memory system, memory for the copy of the
  arguments, and the resource manager.\<close>

record control_env =
  ce_user :: "ptr \<Rightarrow> bool"
  ce_kernel :: "ptr \<Rightarrow> bool"
  ce_strlcpy :: "unit status"
  ce_params :: "map_params status"
  ce_clone :: "int \<Rightarrow> u32 \<Rightarrow> u32 \<Rightarrow> (int \<times> ptr) status"
  ce_map :: "u64 \<Rightarrow> u64 \<Rightarrow> u32 \<Rightarrow> u32 \<Rightarrow> (int \<times> ptr) status"
  ce_map_vecs :: "memory_range list \<Rightarrow> u32 \<Rightarrow> u32 \<Rightarrow> (int \<times> ptr) status"
  ce_store_params :: "unit status"
  ce_allocs :: "ptr \<Rightarrow> nv_alloc option"
  ce_clear :: "unit status"
  ce_store_card :: "nat \<Rightarrow> unit status"
  ce_mem :: bool
  ce_load :: "u8 list status"
  ce_rm_ioctl :: "u32 \<Rightarrow> u8 list \<Rightarrow> bool \<times> u8 list"
  ce_store :: "unit status"

section \<open>Mapping memory\<close>

text \<open>The end that all ways to map share: the area's memory type is set, the parameters go back to the
  client, and the area is kept only when that worked.\<close>

definition finish_map ::
    "control_env \<Rightarrow> int \<Rightarrow> control_call \<Rightarrow> u64 \<Rightarrow> cache_type \<Rightarrow> map_params \<Rightarrow> int status \<times> control_call list" where
  "finish_map E area made physAddr cache params =
     (let calls = [made, SetType area physAddr (to_haiku_cache_type cache)] in
      case ce_store_params E of
        Inl e \<Rightarrow> (Inl e, calls @ [Delete area])
      | Inr _ \<Rightarrow> (Inr area, calls @ [StoreParams params]))"

definition map_protection :: "control_consts \<Rightarrow> map_params \<Rightarrow> u32" where
  "map_protection C params = mp_protection params AND (B_USER_PROTECTION C OR B_CLONEABLE_AREA C)"

text \<open>The control device maps a DMA buffer.\<close>

definition map_buffer ::
    "control_consts \<Rightarrow> control_env \<Rightarrow> mapping_context \<Rightarrow> map_params \<Rightarrow> (int status \<times> control_call list) option" where
  "map_buffer C E c params =
     (case ce_allocs E (mc_alloc c) of
        None \<Rightarrow> None
      | Some alloc \<Rightarrow>
          let srcArea = na_area alloc; prot = map_protection C params; spec = mp_addressSpec params in
          Some (case ce_clone E srcArea prot spec of
             Inl e \<Rightarrow> (Inl e, [])
           | Inr (area, baseAddress) \<Rightarrow>
               finish_map E area (Clone area srcArea prot spec) (na_physBase alloc) (na_cacheType alloc)
                 (params\<lparr>mp_address := baseAddress + unat (mc_page_index c) * B_PAGE_SIZE\<rparr>)))"

text \<open>A GPU maps ranges of its physical memory.\<close>

definition map_ranges ::
    "control_consts \<Rightarrow> control_env \<Rightarrow> mapping_context \<Rightarrow> map_params \<Rightarrow> (int status \<times> control_call list) option" where
  "map_ranges C E c params =
     (if mc_numRanges c = 0 \<or> mc_numRanges c > 0xFFFFFFFF then Some (Inl EINVAL, [])
      else case (mc_pRanges c, mc_caching c) of
        (Some (_, ranges), Some caching) \<Rightarrow>
          if length ranges < unat (mc_numRanges c) then None
          else let prot = map_protection C params; spec = mp_addressSpec params; r0 = ranges ! 0 in
            Some (if mc_numRanges c = 1
              then (case ce_map E (range_start r0) (range_size r0) prot spec of
                      Inl e \<Rightarrow> (Inl e, [])
                    | Inr (area, baseAddress) \<Rightarrow>
                        finish_map E area (MapMemory area (range_start r0) (range_size r0) prot spec)
                          (range_start r0) caching (params\<lparr>mp_address := baseAddress\<rparr>))
              else let vecs = take (unat (mc_numRanges c)) ranges in
                   (case ce_map_vecs E vecs prot spec of
                      Inl e \<Rightarrow> (Inl e, [])
                    | Inr (area, baseAddress) \<Rightarrow>
                        finish_map E area (MapVecs area vecs prot spec)
                          (range_start r0) caching (params\<lparr>mp_address := baseAddress\<rparr>)))
      | _ \<Rightarrow> None)"

definition strnlen :: "u8 list \<Rightarrow> nat \<Rightarrow> nat" where
  "strnlen s n = length (takeWhile (\<lambda>c. c \<noteq> 0) (take n s))"

definition control_map ::
    "control_consts \<Rightarrow> control_env \<Rightarrow> 'p base_handle \<Rightarrow> ptr \<Rightarrow> nat \<Rightarrow> (int status \<times> control_call list) option" where
  "control_map C E h data len =
     (if len \<noteq> sizeof_map_params C then Some (Inl EINVAL, [])
      else if \<not> ce_user E data then Some (Inl B_DEV_INVALID_IOCTL, [])
      else case ce_params E of
        Inl e \<Rightarrow> Some (Inl e, [])
      | Inr params \<Rightarrow>
          if strnlen (mp_name params) (B_OS_NAME_LENGTH C) = B_OS_NAME_LENGTH C then Some (Inl EINVAL, [])
          else if \<not> mc_valid (fMmapContext h) then Some (Inl EINVAL, [])
          else if bh_ctl h then map_buffer C E (fMmapContext h) params
          else map_ranges C E (fMmapContext h) params)"

section \<open>The cards\<close>

definition card_of :: "nv_device \<Rightarrow> card_info" where
  "card_of dev =
     (let nv = Nv dev; regs = bars nv ! nv_regs nv; fb = bars nv ! nv_fb nv in
      \<lparr>ci_domain = nv_domain nv, ci_bus = nv_bus nv, ci_slot = nv_slot nv,
       ci_vendor_id = nv_vendor_id nv, ci_device_id = nv_device_id nv, ci_gpu_id = gpu_id nv,
       ci_interrupt_line = interrupt_line nv, ci_reg_address = cpu_address regs, ci_reg_size = bar_size regs,
       ci_minor_number = fDeviceIndex dev, ci_fb_address = cpu_address fb, ci_fb_size = bar_size fb\<rparr>)"

fun card_loop :: "control_consts \<Rightarrow> control_env \<Rightarrow> nat \<Rightarrow> nv_device list \<Rightarrow> int status \<times> control_call list" where
  "card_loop C E i [] = (Inr 0, [])"
| "card_loop C E i (dev # devs) =
     (if nv_flags (Nv dev) AND NV_FLAG_EXCLUDE C \<noteq> 0 then card_loop C E (i + 1) devs
      else case ce_store_card E i of
        Inl e \<Rightarrow> (Inl e, [])
      | Inr _ \<Rightarrow> (case card_loop C E (i + 1) devs of (r, calls) \<Rightarrow> (r, StoreCard i (card_of dev) # calls)))"

definition control_card_info ::
    "control_consts \<Rightarrow> control_env \<Rightarrow> nv_device list \<Rightarrow> 'p base_handle \<Rightarrow> nat \<Rightarrow> int status \<times> control_call list" where
  "control_card_info C E devices h len =
     (if \<not> bh_ctl h then (Inl EINVAL, [])
      else case ce_clear E of
        Inl e \<Rightarrow> (Inl e, [])
      | Inr _ \<Rightarrow>
          if len div sizeof_card_info C < length devices then (Inl EINVAL, [ClearCards])
          else case card_loop C E 0 devices of (r, calls) \<Rightarrow> (r, ClearCards # calls))"

section \<open>Control\<close>

definition control_cookie ::
    "control_consts \<Rightarrow> control_env \<Rightarrow> ptr \<Rightarrow> ptr \<Rightarrow> nat \<Rightarrow> int status \<times> control_call list" where
  "control_cookie C E this data len =
     (if \<not> ce_kernel E data then (Inl B_DEV_INVALID_IOCTL, [])
      else if len \<noteq> sizeof_pointer C then (Inl EINVAL, [])
      else (Inr 0, [StoreCookie this]))"

definition control_rm :: "control_env \<Rightarrow> u32 \<Rightarrow> int status \<times> control_call list" where
  "control_rm E cmd =
     (if \<not> ce_mem E then (Inl B_NO_MEMORY, [])
      else case ce_load E of
        Inl e \<Rightarrow> (Inl e, [])
      | Inr kernelData \<Rightarrow>
          (case ce_rm_ioctl E cmd kernelData of
             (ok, kernelData') \<Rightarrow>
               if \<not> ok then (Inl EINVAL, [RmIoctl cmd kernelData])
               else case ce_store E of
                 Inl e \<Rightarrow> (Inl e, [RmIoctl cmd kernelData])
               | Inr _ \<Rightarrow> (Inr 0, [RmIoctl cmd kernelData, StoreBytes kernelData'])))"

definition NvHaikuBaseDeviceHandle_Control ::
    "control_consts \<Rightarrow> control_env \<Rightarrow> nv_device list \<Rightarrow> ptr \<Rightarrow> 'p base_handle \<Rightarrow> u32 \<Rightarrow> ptr \<Rightarrow> nat \<Rightarrow>
     (int status \<times> control_call list) option" where
  "NvHaikuBaseDeviceHandle_Control C E devices this h opcode data len =
     (if fClosed h then Some (Inl EINVAL, [])
      else if opcode = B_GET_ACCELERANT_SIGNATURE C
      then Some (if bh_ctl h then (Inl EINVAL, [])
                 else case ce_strlcpy E of
                   Inl e \<Rightarrow> (Inl e, [])
                 | Inr _ \<Rightarrow> (Inr 0, [StoreName ''nvidia_gsp.accelerant'']))
      else if opcode < NV_HAIKU_BASE C then Some (Inl B_DEV_INVALID_IOCTL, [])
      else let cmd = opcode - NV_HAIKU_BASE C in
        if cmd = NV_HAIKU_GET_COOKIE then Some (control_cookie C E this data len)
        else if cmd = NV_HAIKU_MAP then control_map C E h data len
        else if cmd = NV_ESC_CARD_INFO C then Some (control_card_info C E devices h len)
        else Some (control_rm E cmd))"

section \<open>What Control keeps to\<close>

fun area_of_call :: "control_call \<Rightarrow> int list" where
  "area_of_call (Clone a _ _ _) = [a]"
| "area_of_call (MapMemory a _ _ _ _) = [a]"
| "area_of_call (MapVecs a _ _ _) = [a]"
| "area_of_call _ = []"

fun area_deleted :: "control_call \<Rightarrow> int list" where
  "area_deleted (Delete a) = [a]"
| "area_deleted _ = []"

fun protection_of_call :: "control_call \<Rightarrow> u32 list" where
  "protection_of_call (Clone _ _ prot _) = [prot]"
| "protection_of_call (MapMemory _ _ _ prot _) = [prot]"
| "protection_of_call (MapVecs _ _ prot _) = [prot]"
| "protection_of_call _ = []"

text \<open>Only the part of a context that the resource manager prepared for the kind of device decides
  what is mapped: the memory that \<open>call\<close> shows to the client.\<close>

fun shows_memory :: "control_env \<Rightarrow> 'p base_handle \<Rightarrow> control_call \<Rightarrow> bool" where
  "shows_memory E h (Clone _ src _ _) \<longleftrightarrow>
     bh_ctl h \<and> map_option na_area (ce_allocs E (mc_alloc (fMmapContext h))) = Some src"
| "shows_memory E h (MapMemory _ start sz _ _) \<longleftrightarrow>
     \<not> bh_ctl h \<and> (\<exists>p rest. mc_pRanges (fMmapContext h) = Some (p, \<lparr>range_start = start, range_size = sz\<rparr> # rest))"
| "shows_memory E h (MapVecs _ ranges _ _) \<longleftrightarrow>
     \<not> bh_ctl h \<and> (\<exists>p rest. mc_pRanges (fMmapContext h) = Some (p, ranges @ rest))"
| "shows_memory E h _ \<longleftrightarrow> True"

definition map_outcome_ok :: "control_consts \<Rightarrow> control_env \<Rightarrow> 'p base_handle \<Rightarrow> int status \<times> control_call list \<Rightarrow> bool" where
  "map_outcome_ok C E h out \<longleftrightarrow>
     (let (r, calls) = out; mapped = concat (map area_of_call calls); gone = concat (map area_deleted calls) in
      (case r of Inl _ \<Rightarrow> mapped = gone | Inr area \<Rightarrow> mapped = [area] \<and> gone = []) \<and>
      (\<forall>prot \<in> set (concat (map protection_of_call calls)).
         prot AND (B_USER_PROTECTION C OR B_CLONEABLE_AREA C) = prot) \<and>
      (\<forall>call \<in> set calls. shows_memory E h call))"

lemma finish_map_ok:
  assumes "area_of_call made = [area]" "area_deleted made = []" "shows_memory E h made"
    and "protection_of_call made = [map_protection C params]"
  shows "map_outcome_ok C E h (finish_map E area made phys cache params')"
  using assms
  by (auto simp: map_outcome_ok_def finish_map_def map_protection_def Let_def and.assoc split: sum.split)

lemma map_outcome_ok_none: "map_outcome_ok C E h (Inl e, [])"
  by (simp add: map_outcome_ok_def)

lemma map_buffer_ok:
  assumes "map_buffer C E (fMmapContext h) params = Some out" "bh_ctl h"
  shows "map_outcome_ok C E h out"
  using assms
  by (auto simp: map_buffer_def Let_def map_outcome_ok_none intro!: finish_map_ok split: option.splits sum.splits)

lemma map_ranges_ok:
  assumes "map_ranges C E (fMmapContext h) params = Some out" "\<not> bh_ctl h"
  shows "map_outcome_ok C E h out"
proof (cases "mc_numRanges (fMmapContext h) = 0 \<or> mc_numRanges (fMmapContext h) > 0xFFFFFFFF")
  case True
  then show ?thesis using assms(1) by (auto simp: map_ranges_def map_outcome_ok_none)
next
  case False
  let ?n = "mc_numRanges (fMmapContext h)"
  obtain p ranges caching where c: "mc_pRanges (fMmapContext h) = Some (p, ranges)"
      "mc_caching (fMmapContext h) = Some caching" "unat ?n \<le> length ranges"
    using assms(1) False by (auto simp: map_ranges_def not_less split: option.splits prod.splits if_splits)
  have "0 < unat ?n" using False by (simp add: unat_gt_0)
  then obtain r0 rest where r: "ranges = r0 # rest" using c(3) by (cases ranges) auto
  have one: "shows_memory E h (MapMemory a (range_start r0) (range_size r0) prot spec)" for a prot spec
    using assms(2) c(1) r by (cases r0) simp
  have many: "shows_memory E h (MapVecs a (take (unat ?n) ranges) prot spec)" for a prot spec
    using assms(2) c(1) by (auto intro!: exI [of _ "drop (unat ?n) ranges"])
  show ?thesis
    using assms(1) False c one many r
    by (auto simp: map_ranges_def Let_def map_outcome_ok_none not_less
        intro!: finish_map_ok split: sum.splits if_splits)
qed

lemma mc_prot_selects:
  "mc_valid (c\<lparr>mc_prot := prot\<rparr>) = mc_valid c" "mc_alloc (c\<lparr>mc_prot := prot\<rparr>) = mc_alloc c"
  "mc_page_index (c\<lparr>mc_prot := prot\<rparr>) = mc_page_index c" "mc_pRanges (c\<lparr>mc_prot := prot\<rparr>) = mc_pRanges c"
  "mc_numRanges (c\<lparr>mc_prot := prot\<rparr>) = mc_numRanges c" "mc_caching (c\<lparr>mc_prot := prot\<rparr>) = mc_caching c"
  "fMmapContext (h\<lparr>fMmapContext := c\<rparr>) = c" "bh_ctl (h\<lparr>fMmapContext := c\<rparr>) = bh_ctl h"
  by simp_all

lemma map_buffer_prot_unused: "map_buffer C E (c\<lparr>mc_prot := prot\<rparr>) params = map_buffer C E c params"
  unfolding map_buffer_def mc_prot_selects by (rule refl)

lemma map_ranges_prot_unused: "map_ranges C E (c\<lparr>mc_prot := prot\<rparr>) params = map_ranges C E c params"
  unfolding map_ranges_def mc_prot_selects by (rule refl)

lemma control_map_prot_unused:
  "control_map C E (h\<lparr>fMmapContext := (fMmapContext h)\<lparr>mc_prot := prot\<rparr>\<rparr>) data len = control_map C E h data len"
  unfolding control_map_def mc_prot_selects map_buffer_prot_unused map_ranges_prot_unused by (rule refl)

text \<open>
  C28: mapping memory into a client is safe for the areas of the kernel and for its protection: if
  the command ends, then either it fails and every area it made has been deleted, or it succeeds
  and the result is the one area it made; no protection bit outside of the user's and the
  cloneable bit reaches the kernel; and the client is shown exactly the buffer or the ranges of
  the context that the resource manager prepared for this file. But the protection that the
  resource manager put into the context plays no part.
\<close>

theorem control_map_safe:
  assumes "control_map C E h data len = Some out"
  shows "map_outcome_ok C E h out \<and> (\<forall>area. fst out = Inr area \<longrightarrow> mc_valid (fMmapContext h)) \<and>
         (\<forall>prot. control_map C E (h\<lparr>fMmapContext := (fMmapContext h)\<lparr>mc_prot := prot\<rparr>\<rparr>) data len = Some out)"
proof (intro conjI allI impI)
  show "map_outcome_ok C E h out"
    using assms
    by (auto simp: control_map_def map_outcome_ok_none intro: map_buffer_ok map_ranges_ok split: sum.splits if_splits)
next
  show "mc_valid (fMmapContext h)" if "fst out = Inr area" for area
    using assms that by (auto simp: control_map_def split: sum.splits if_splits)
next
  show "control_map C E (h\<lparr>fMmapContext := (fMmapContext h)\<lparr>mc_prot := prot\<rparr>\<rparr>) data len = Some out" for prot
    using assms by (simp only: control_map_prot_unused)
qed

lemma control_map_safe_witness:
  "\<exists>C E. let h = (NvHaikuBaseDeviceHandle_new list_pool 8 False)\<lparr>fMmapContext := mapping_context_zero
             \<lparr>mc_valid := True, mc_pRanges := Some (1, [\<lparr>range_start = 0xF0000000, range_size = 0x1000\<rparr>]),
              mc_numRanges := 1, mc_caching := Some NV_MEMORY_UNCACHED\<rparr>\<rparr>
   in control_map C E h 50 48 = Some (Inr 5, [MapMemory 5 0xF0000000 0x1000 3 0,
        SetType 5 0xF0000000 {B_UNCACHED_MEMORY},
        StoreParams \<lparr>mp_name = [65, 0], mp_address = 0x8000, mp_addressSpec = 0, mp_protection = 0xFF\<rparr>]) \<and>
      map_outcome_ok C E h (Inr 5, [MapMemory 5 0xF0000000 0x1000 3 0,
        SetType 5 0xF0000000 {B_UNCACHED_MEMORY},
        StoreParams \<lparr>mp_name = [65, 0], mp_address = 0x8000, mp_addressSpec = 0, mp_protection = 0xFF\<rparr>])"
proof -
  let ?C = "\<lparr>B_GET_ACCELERANT_SIGNATURE = 8000, B_DEVICE_OP_CODES_END = 9999, NV_ESC_CARD_INFO = 200,
      NV_FLAG_EXCLUDE = 8, B_USER_PROTECTION = 3, B_CLONEABLE_AREA = 0x100, B_OS_NAME_LENGTH = 2,
      sizeof_pointer = 8, sizeof_map_params = 48, sizeof_card_info = 72\<rparr>"
  let ?E = "\<lparr>ce_user = (\<lambda>_. True), ce_kernel = (\<lambda>_. False), ce_strlcpy = B_OK,
      ce_params = Inr \<lparr>mp_name = [65, 0], mp_address = 0, mp_addressSpec = 0, mp_protection = 0xFF\<rparr>,
      ce_clone = (\<lambda>_ _ _. Inl B_ERROR), ce_map = (\<lambda>_ _ _ _. Inr (5, 0x8000)), ce_map_vecs = (\<lambda>_ _ _. Inl B_ERROR),
      ce_store_params = B_OK, ce_allocs = (\<lambda>_. None), ce_clear = B_OK, ce_store_card = (\<lambda>_. B_OK),
      ce_mem = True, ce_load = Inl B_ERROR, ce_rm_ioctl = (\<lambda>_ d. (False, d)), ce_store = B_OK\<rparr>"
  let ?h = "(NvHaikuBaseDeviceHandle_new list_pool 8 False)\<lparr>fMmapContext := mapping_context_zero
             \<lparr>mc_valid := True, mc_pRanges := Some (1, [\<lparr>range_start = 0xF0000000, range_size = 0x1000\<rparr>]),
              mc_numRanges := 1, mc_caching := Some NV_MEMORY_UNCACHED\<rparr>\<rparr>"
  let ?out = "(Inr 5, [MapMemory 5 0xF0000000 0x1000 3 0, SetType 5 0xF0000000 {B_UNCACHED_MEMORY},
        StoreParams \<lparr>mp_name = [65, 0], mp_address = 0x8000, mp_addressSpec = 0, mp_protection = 0xFF\<rparr>])"
  have run: "control_map ?C ?E ?h 50 48 = Some ?out"
    by (simp add: control_map_def map_ranges_def map_protection_def finish_map_def strnlen_def
        NvHaikuBaseDeviceHandle_new_def Let_def)
  show ?thesis using control_map_safe [OF run] run by (auto simp: Let_def)
qed

text \<open>A card that is reported is one that exists, in the slot of its index, and not an excluded one.\<close>

lemma card_loop_cards:
  assumes "card_loop C E i devs = (r, calls)" "StoreCard k info \<in> set calls"
  shows "i \<le> k \<and> k < i + length devs \<and> info = card_of (devs ! (k - i)) \<and>
         nv_flags (Nv (devs ! (k - i))) AND NV_FLAG_EXCLUDE C = 0"
  using assms
proof (induction devs arbitrary: i calls)
  case (Cons dev devs)
  show ?case
  proof (cases "StoreCard k info = StoreCard i (card_of dev) \<and> nv_flags (Nv dev) AND NV_FLAG_EXCLUDE C = 0")
    case True
    then show ?thesis by auto
  next
    case False
    then obtain calls' where "card_loop C E (i + 1) devs = (r, calls')" "StoreCard k info \<in> set calls'"
      using Cons.prems by (auto split: if_splits sum.splits prod.splits)
    then have "i + 1 \<le> k \<and> k < i + 1 + length devs \<and> info = card_of (devs ! (k - (i + 1))) \<and>
        nv_flags (Nv (devs ! (k - (i + 1)))) AND NV_FLAG_EXCLUDE C = 0"
      by (rule Cons.IH)
    moreover from this have "(dev # devs) ! (k - i) = devs ! (k - (i + 1))" by (simp add: nth_Cons')
    ultimately show ?thesis by simp
  qed
qed simp

text \<open>The list of cards never writes past the client's buffer.\<close>

lemma card_info_in_bounds:
  assumes "control_card_info C E devices h len = (r, calls)" "StoreCard k info \<in> set calls"
    and "0 < sizeof_card_info C"
  shows "(k + 1) * sizeof_card_info C \<le> len"
proof -
  obtain calls' where c: "\<not> len div sizeof_card_info C < length devices" "card_loop C E 0 devices = (r, calls')"
      "StoreCard k info \<in> set calls'"
    using assms(1,2) by (auto simp: control_card_info_def split: if_splits sum.splits prod.splits)
  then have "k + 1 \<le> len div sizeof_card_info C" using card_loop_cards by fastforce
  then show ?thesis using assms(3) by (metis less_eq_div_iff_mult_less_eq)
qed

end
