(* ===== verification/Devfs.thy ===== *)
theory Devfs
  imports Prelude
begin

text \<open>
  \<open>nvidia_gsp/Drivers_cpp.h\<close>: the hooks that a driver class exports to the kernel, made from a
  driver (which finds devices by name), a device class (which opens) and a handle class, and the
  wrapper \<open>DevfsNodeHandle\<close> that calls them. The model is parametric in the three, as the template
  is: \<open>'c\<close> is what a cookie points to, \<open>'q\<close> the arguments of a request, and every operation threads
  the state \<open>'s\<close> of the driver.
\<close>

section \<open>Hooks\<close>

type_synonym ('c, 'q, 's) node_method = "'c \<Rightarrow> 'q \<Rightarrow> 's \<Rightarrow> unit status \<times> 's"

text \<open>The optional hooks are null pointers when the handle class lacks the method. The second
  component of an \<open>open\<close> is what it stores in \<open>*cookie\<close>: nothing, or a pointer that may be null.\<close>

record ('c, 'q, 's) device_hooks =
  open_hook :: "string \<Rightarrow> 's \<Rightarrow> unit status \<times> 'c option option \<times> 's"
  close_hook :: "'c \<Rightarrow> 's \<Rightarrow> unit status \<times> 's"
  free_hook :: "'c \<Rightarrow> 's \<Rightarrow> unit status \<times> 's"
  read_hook :: "('c, 'q, 's) node_method option"
  write_hook :: "('c, 'q, 's) node_method option"
  control_hook :: "('c, 'q, 's) node_method option"
  select_hook :: "('c, 'q, 's) node_method option"
  deselect_hook :: "('c, 'q, 's) node_method option"

text \<open>The handle class: its destructor, its \<open>Close\<close> and the methods it has.\<close>

record ('c, 'q, 's) handle_class =
  hc_dtor :: "'c \<Rightarrow> 's \<Rightarrow> 's"
  hc_Close :: "'c \<Rightarrow> 's \<Rightarrow> unit status \<times> 's"
  hc_Read :: "('c, 'q, 's) node_method option"
  hc_Write :: "('c, 'q, 's) node_method option"
  hc_Control :: "('c, 'q, 's) node_method option"
  hc_Select :: "('c, 'q, 's) node_method option"
  hc_Deselect :: "('c, 'q, 's) node_method option"

definition class_open ::
    "(string \<Rightarrow> 'd option) \<Rightarrow> ('d \<Rightarrow> 's \<Rightarrow> 'c status \<times> 's) \<Rightarrow>
     string \<Rightarrow> 's \<Rightarrow> unit status \<times> 'c option option \<times> 's" where
  "class_open FindDevice Open name s =
     (case FindDevice name of
        None \<Rightarrow> (Inl ENOENT, None, s)
      | Some inst \<Rightarrow>
          (case Open inst s of
             (Inl e, s') \<Rightarrow> (Inl e, Some None, s')
           | (Inr h, s') \<Rightarrow> (B_OK, Some (Some h), s')))"

definition class_free :: "('c, 'q, 's) handle_class \<Rightarrow> 'c \<Rightarrow> 's \<Rightarrow> unit status \<times> 's" where
  "class_free H h s = (B_OK, hc_dtor H h s)"

definition GetDevfsNodeClass ::
    "(string \<Rightarrow> 'd option) \<Rightarrow> ('d \<Rightarrow> 's \<Rightarrow> 'c status \<times> 's) \<Rightarrow>
     ('c, 'q, 's) handle_class \<Rightarrow> ('c, 'q, 's) device_hooks" where
  "GetDevfsNodeClass FindDevice Open H =
     \<lparr>open_hook = class_open FindDevice Open, close_hook = hc_Close H, free_hook = class_free H,
      read_hook = hc_Read H, write_hook = hc_Write H, control_hook = hc_Control H,
      select_hook = hc_Select H, deselect_hook = hc_Deselect H\<rparr>"

section \<open>DevfsNodeHandle\<close>

text \<open>A handle is a class and an instance, which is null before \<open>Open\<close> and after \<open>Free\<close>. A call
  through a null class or hook, or on a null instance, has no value.\<close>

record ('c, 'q, 's) DevfsNodeHandle =
  fCls :: "('c, 'q, 's) device_hooks option"
  fInst :: "'c option"

definition DevfsNodeHandle_new :: "('c, 'q, 's) DevfsNodeHandle" where
  "DevfsNodeHandle_new = \<lparr>fCls = None, fInst = None\<rparr>"

definition DevfsNode_Open ::
    "('c, 'q, 's) device_hooks \<Rightarrow> string \<Rightarrow> ('c, 'q, 's) DevfsNodeHandle \<Rightarrow> 's \<Rightarrow>
     unit status \<times> ('c, 'q, 's) DevfsNodeHandle \<times> 's" where
  "DevfsNode_Open cls path h s =
     (let h = h\<lparr>fCls := Some cls\<rparr>
      in case open_hook cls path s of
           (r, None, s') \<Rightarrow> (r, h, s')
         | (r, Some inst, s') \<Rightarrow> (r, h\<lparr>fInst := inst\<rparr>, s'))"

definition DevfsNodeHandle_Close ::
    "('c, 'q, 's) DevfsNodeHandle \<Rightarrow> 's \<Rightarrow> (unit status \<times> 's) option" where
  "DevfsNodeHandle_Close h s =
     (case (fCls h, fInst h) of (Some cls, Some c) \<Rightarrow> Some (close_hook cls c s) | _ \<Rightarrow> None)"

definition DevfsNodeHandle_Free ::
    "('c, 'q, 's) DevfsNodeHandle \<Rightarrow> 's \<Rightarrow> (unit status \<times> ('c, 'q, 's) DevfsNodeHandle \<times> 's) option" where
  "DevfsNodeHandle_Free h s =
     (case (fCls h, fInst h) of
        (Some cls, Some c) \<Rightarrow> (case free_hook cls c s of (r, s') \<Rightarrow> Some (r, h\<lparr>fInst := None\<rparr>, s'))
      | _ \<Rightarrow> None)"

text \<open>The members \<open>Read\<close>, \<open>Write\<close>, \<open>Control\<close>, \<open>Select\<close> and \<open>Deselect\<close> convert to \<open>bool\<close> and can be
  called; all five have the same form.\<close>

definition has_method ::
    "(('c, 'q, 's) device_hooks \<Rightarrow> ('c, 'q, 's) node_method option) \<Rightarrow> ('c, 'q, 's) DevfsNodeHandle \<Rightarrow> bool option" where
  "has_method hook h = map_option (\<lambda>cls. hook cls \<noteq> None) (fCls h)"

definition call_method ::
    "(('c, 'q, 's) device_hooks \<Rightarrow> ('c, 'q, 's) node_method option) \<Rightarrow> ('c, 'q, 's) DevfsNodeHandle \<Rightarrow>
     'q \<Rightarrow> 's \<Rightarrow> (unit status \<times> 's) option" where
  "call_method hook h q s =
     (case (fCls h, fInst h) of
        (Some cls, Some c) \<Rightarrow> map_option (\<lambda>f. f c q s) (hook cls)
      | _ \<Rightarrow> None)"

section \<open>The entry points\<close>

text \<open>\<open>DRIVER_ENTRY_POINTS\<close>; \<open>init_driver\<close>, \<open>uninit_driver\<close> and \<open>publish_devices\<close> only forward to the
  driver class, \<open>find_device\<close> hands out the class of the node that was found.\<close>

definition init_hardware :: "unit status" where "init_hardware = B_OK"

definition find_device :: "(string \<Rightarrow> ('k \<times> 'd) option) \<Rightarrow> string \<Rightarrow> 'k option" where
  "find_device FindDevice name = map_option fst (FindDevice name)"

section \<open>A client of the wrapper\<close>

text \<open>A client opens a node, asks whether the methods are there before it calls them, closes and frees.
  It remembers whether it has an open file, and what \<open>Open\<close> gave it and it freed is logged.\<close>

datatype devfs_method = ReadMethod | WriteMethod | ControlMethod | SelectMethod | DeselectMethod

fun method_hook :: "devfs_method \<Rightarrow> ('c, 'q, 's) device_hooks \<Rightarrow> ('c, 'q, 's) node_method option" where
  "method_hook ReadMethod = read_hook"
| "method_hook WriteMethod = write_hook"
| "method_hook ControlMethod = control_hook"
| "method_hook SelectMethod = select_hook"
| "method_hook DeselectMethod = deselect_hook"

datatype 'q client_op = ClientOpen string | ClientCall devfs_method 'q | ClientClose | ClientFree

record ('c, 'q, 's) client =
  cl_handle :: "('c, 'q, 's) DevfsNodeHandle"
  cl_open :: bool
  cl_state :: 's
  cl_got :: "'c list"
  cl_freed :: "'c list"

definition client_new :: "'s \<Rightarrow> ('c, 'q, 's) client" where
  "client_new s = \<lparr>cl_handle = DevfsNodeHandle_new, cl_open = False, cl_state = s, cl_got = [], cl_freed = []\<rparr>"

text \<open>\<open>None\<close> is a call through a null pointer.\<close>

fun client_step :: "('c, 'q, 's) device_hooks \<Rightarrow> 'q client_op \<Rightarrow> ('c, 'q, 's) client \<Rightarrow> ('c, 'q, 's) client option" where
  "client_step cls (ClientOpen path) k =
     (if cl_open k then Some k
      else case DevfsNode_Open cls path (cl_handle k) (cl_state k) of
        (Inl e, h, s) \<Rightarrow> Some (k\<lparr>cl_handle := h, cl_state := s\<rparr>)
      | (Inr _, h, s) \<Rightarrow>
          (case fInst h of
             None \<Rightarrow> None
           | Some c \<Rightarrow> Some (k\<lparr>cl_handle := h, cl_open := True, cl_state := s, cl_got := cl_got k @ [c]\<rparr>)))"
| "client_step cls (ClientCall m q) k =
     (if \<not> cl_open k then Some k
      else case has_method (method_hook m) (cl_handle k) of
        None \<Rightarrow> None
      | Some False \<Rightarrow> Some k
      | Some True \<Rightarrow> map_option (\<lambda>(r, s). k\<lparr>cl_state := s\<rparr>) (call_method (method_hook m) (cl_handle k) q (cl_state k)))"
| "client_step cls ClientClose k =
     (if \<not> cl_open k then Some k
      else map_option (\<lambda>(r, s). k\<lparr>cl_state := s\<rparr>) (DevfsNodeHandle_Close (cl_handle k) (cl_state k)))"
| "client_step cls ClientFree k =
     (if \<not> cl_open k then Some k
      else case fInst (cl_handle k) of
        None \<Rightarrow> None
      | Some c \<Rightarrow>
          map_option (\<lambda>(r, h, s). k\<lparr>cl_handle := h, cl_open := False, cl_state := s, cl_freed := cl_freed k @ [c]\<rparr>)
            (DevfsNodeHandle_Free (cl_handle k) (cl_state k)))"

fun client_run :: "('c, 'q, 's) device_hooks \<Rightarrow> 'q client_op list \<Rightarrow> ('c, 'q, 's) client \<Rightarrow> ('c, 'q, 's) client option" where
  "client_run cls [] k = Some k"
| "client_run cls (op # ops) k = Option.bind (client_step cls op k) (client_run cls ops)"

text \<open>The type of a handle in the hands of a client: while a file is open, the class is the one it was
  opened with and the instance is what \<open>Open\<close> gave last.\<close>

definition client_typed :: "('c, 'q, 's) device_hooks \<Rightarrow> ('c, 'q, 's) client \<Rightarrow> bool" where
  "client_typed cls k \<longleftrightarrow>
     (if cl_open k then fCls (cl_handle k) = Some cls \<and>
        (\<exists>c. fInst (cl_handle k) = Some c \<and> cl_got k = cl_freed k @ [c])
      else cl_got k = cl_freed k)"

lemma class_open_cases:
  assumes "DevfsNode_Open (GetDevfsNodeClass Find Open H) path h s = (r, h', s')"
  shows "fCls h' = Some (GetDevfsNodeClass Find Open H) \<and> (\<forall>u. r = Inr u \<longrightarrow> (\<exists>c. fInst h' = Some c))"
  using assms
  by (auto simp: DevfsNode_Open_def GetDevfsNodeClass_def class_open_def Let_def
      split: option.splits prod.splits sum.splits)

lemma client_step_typed:
  assumes "client_typed (GetDevfsNodeClass Find Open H) k"
  shows "\<exists>k'. client_step (GetDevfsNodeClass Find Open H) op k = Some k' \<and> client_typed (GetDevfsNodeClass Find Open H) k'"
proof (cases op)
  case (ClientOpen path)
  let ?cls = "GetDevfsNodeClass Find Open H"
  obtain r h s where out: "DevfsNode_Open ?cls path (cl_handle k) (cl_state k) = (r, h, s)" by (metis surj_pair)
  show ?thesis
    using ClientOpen assms out class_open_cases [OF out]
    by (cases r) (auto simp: client_typed_def split: if_splits)
next
  case (ClientCall m q)
  show ?thesis
  proof (cases "cl_open k \<and> method_hook m (GetDevfsNodeClass Find Open H) \<noteq> None")
    case True
    then obtain c f where cf: "fInst (cl_handle k) = Some c" "method_hook m (GetDevfsNodeClass Find Open H) = Some f"
      using assms by (auto simp: client_typed_def)
    obtain r s where "f c q (cl_state k) = (r, s)" by (metis surj_pair)
    then have "client_step (GetDevfsNodeClass Find Open H) op k = Some (k\<lparr>cl_state := s\<rparr>)"
      using ClientCall True cf assms by (simp add: client_typed_def has_method_def call_method_def)
    then show ?thesis using assms True by (simp add: client_typed_def)
  next
    case False
    then show ?thesis using ClientCall assms by (auto simp: client_typed_def has_method_def)
  qed
next
  case ClientClose
  show ?thesis
  proof (cases "cl_open k")
    case True
    then obtain c where c: "fInst (cl_handle k) = Some c" using assms by (auto simp: client_typed_def)
    obtain r s where "close_hook (GetDevfsNodeClass Find Open H) c (cl_state k) = (r, s)" by (metis surj_pair)
    then have "client_step (GetDevfsNodeClass Find Open H) op k = Some (k\<lparr>cl_state := s\<rparr>)"
      using ClientClose True c assms by (simp add: client_typed_def DevfsNodeHandle_Close_def)
    then show ?thesis using assms True by (simp add: client_typed_def)
  qed (use ClientClose assms in simp)
next
  case ClientFree
  show ?thesis
  proof (cases "cl_open k")
    case True
    then obtain c where c: "fInst (cl_handle k) = Some c" using assms by (auto simp: client_typed_def)
    obtain r s where "free_hook (GetDevfsNodeClass Find Open H) c (cl_state k) = (r, s)" by (metis surj_pair)
    then have "client_step (GetDevfsNodeClass Find Open H) op k = Some (k\<lparr>cl_handle := (cl_handle k)\<lparr>fInst := None\<rparr>,
        cl_open := False, cl_state := s, cl_freed := cl_freed k @ [c]\<rparr>)"
      using ClientFree True c assms by (simp add: client_typed_def DevfsNodeHandle_Free_def)
    then show ?thesis using assms True c by (simp add: client_typed_def)
  qed (use ClientFree assms in simp)
qed


end
