(* ===== verification/KmsDevice.thy ===== *)
theory KmsDevice
  imports Select Devfs "HOL-Library.Multiset"
begin

text \<open>
  The driver \<open>nvidia-modeset\<close>: \<open>KmsDriver.{h,cpp}\<close> and \<open>KmsDevice.{h,cpp}\<close> under
  \<open>nvidia_gsp/nvidia-modeset\<close>. The mode setting module itself (\<open>nvKms*\<close>) is not part of the
  sources: what it answers is an argument, and what is asked of it, and of the kernel, is the list
  of calls every operation yields.
\<close>

datatype kms_call =
    LockKms | UnlockKms
  | nvKmsOpen ptr | nvKmsClose ptr | nvKmsIoctl ptr u32
  | nvKmsModuleLoad bool | nvKmsModuleUnload
  | get_module | put_module
  | QueueInit | QueueClose

section \<open>An open file\<close>

record 'p kms_handle =
  fCookie :: ptr
  fSelectPool :: 'p
  fEventsAvailable :: bool

definition NvHaikuKmsDeviceHandle_new :: "'p select_pool \<Rightarrow> 'p kms_handle" where
  "NvHaikuKmsDeviceHandle_new P = \<lparr>fCookie = nullptr, fSelectPool = pool_null P, fEventsAvailable = False\<rparr>"

definition NvHaikuKmsDeviceHandle_dtor :: "'p kms_handle \<Rightarrow> kms_call list" where
  "NvHaikuKmsDeviceHandle_dtor h =
     (if fCookie h \<noteq> nullptr then [LockKms, nvKmsClose (fCookie h), UnlockKms] else [])"

text \<open>\<open>alloc\<close> tells whether the handle can be allocated, \<open>cookie\<close> is what \<open>nvKmsOpen\<close> returns. A
  handle that goes out of scope is destroyed by its \<open>ObjectDeleter\<close>.\<close>

definition NvHaikuKmsDevice_Open :: "'p select_pool \<Rightarrow> bool \<Rightarrow> ptr \<Rightarrow> 'p kms_handle status \<times> kms_call list" where
  "NvHaikuKmsDevice_Open P alloc cookie =
     (if \<not> alloc then (Inl B_NO_MEMORY, [])
      else let handleImpl = (NvHaikuKmsDeviceHandle_new P)\<lparr>fCookie := cookie\<rparr>;
               calls = [LockKms, nvKmsOpen cookie, UnlockKms]
           in if fCookie handleImpl = nullptr
              then (Inl B_NO_MEMORY, calls @ NvHaikuKmsDeviceHandle_dtor handleImpl)
              else (Inr handleImpl, calls))"

definition NvHaikuKmsDeviceHandle_Close :: "'p kms_handle \<Rightarrow> unit status" where "NvHaikuKmsDeviceHandle_Close h = B_OK"

definition NV_HAIKU_KMS_BASE :: "u32 \<Rightarrow> u32" where "NV_HAIKU_KMS_BASE op_codes_end = op_codes_end + 1"

definition NvHaikuKmsDeviceHandle_Control :: "u32 \<Rightarrow> bool \<Rightarrow> u32 \<Rightarrow> 'p kms_handle \<Rightarrow> unit status \<times> kms_call list" where
  "NvHaikuKmsDeviceHandle_Control op_codes_end nvKmsIoctl_result opcode h =
     (if opcode < NV_HAIKU_KMS_BASE op_codes_end then (Inl B_DEV_INVALID_IOCTL, [])
      else let cmd = opcode - NV_HAIKU_KMS_BASE op_codes_end
           in (if nvKmsIoctl_result then B_OK else Inl EINVAL,
               [LockKms, nvKmsIoctl (fCookie h) cmd, UnlockKms]))"

text \<open>The operations on the pool yield the syncs they notify.\<close>

definition NvHaikuKmsDeviceHandle_EventQueueChanged :: "'p select_pool \<Rightarrow> bool \<Rightarrow> 'p kms_handle \<Rightarrow> 'p kms_handle \<times> nat set" where
  "NvHaikuKmsDeviceHandle_EventQueueChanged P eventsAvailable h =
     (let h = h\<lparr>fEventsAvailable := eventsAvailable\<rparr>
      in (h, if fEventsAvailable h then pool_syncs P (fSelectPool h) else {}))"

definition NvHaikuKmsDeviceHandle_Select :: "'p select_pool \<Rightarrow> select_event \<Rightarrow> nat \<Rightarrow> 'p kms_handle \<Rightarrow> unit status \<times> 'p kms_handle \<times> nat set" where
  "NvHaikuKmsDeviceHandle_Select P event sync h =
     (if event \<noteq> B_SELECT_READ then (Inl B_BAD_VALUE, h, {})
      else case add_select_sync_pool_entry P sync (fSelectPool h) of
        Inl e \<Rightarrow> (Inl e, h, {})
      | Inr p \<Rightarrow> (B_OK, h\<lparr>fSelectPool := p\<rparr>, if fEventsAvailable h then {sync} else {}))"

definition NvHaikuKmsDeviceHandle_Deselect :: "'p select_pool \<Rightarrow> select_event \<Rightarrow> nat \<Rightarrow> 'p kms_handle \<Rightarrow> unit status \<times> 'p kms_handle \<times> nat set" where
  "NvHaikuKmsDeviceHandle_Deselect P event sync h =
     (if event \<noteq> B_SELECT_READ then (Inl B_BAD_VALUE, h, {})
      else case remove_select_sync_pool_entry P sync (fSelectPool h) of
        Inl e \<Rightarrow> (Inl e, h, {})
      | Inr p \<Rightarrow> (B_OK, h\<lparr>fSelectPool := p\<rparr>, {}))"

section \<open>The driver\<close>

record kms_driver =
  fNvidiaModule :: bool
  fIsKmsLoaded :: bool

definition NvHaikuKmsDriver_new :: kms_driver where
  "NvHaikuKmsDriver_new = \<lparr>fNvidiaModule = False, fIsKmsLoaded = False\<rparr>"

text \<open>The members are destroyed after the body of the destructor: the timer queue, and with it the
  kernel's \<open>DPCQueue\<close>, which closes itself when it had been opened (\<open>queue\<close>).\<close>

definition NvHaikuKmsDriver_dtor :: "bool \<Rightarrow> kms_driver \<Rightarrow> kms_call list" where
  "NvHaikuKmsDriver_dtor queue d =
     (if fIsKmsLoaded d then [LockKms, nvKmsModuleUnload, UnlockKms] else []) @
     (if fNvidiaModule d then [put_module] else []) @
     (if queue then [QueueClose] else [])"

record kms_init_env =
  ki_get_module :: "unit status"
  ki_queue :: "unit status"
  ki_load :: bool

text \<open>The timer queue is open once its \<open>Init\<close> has succeeded; the second component says so.\<close>

definition NvHaikuKmsDriver_Init ::
    "kms_init_env \<Rightarrow> kms_driver \<Rightarrow> unit status \<times> bool \<times> kms_driver \<times> kms_call list" where
  "NvHaikuKmsDriver_Init E d =
     (case ki_get_module E of
        Inl e \<Rightarrow> (Inl e, False, d, [])
      | Inr _ \<Rightarrow> let d = d\<lparr>fNvidiaModule := True\<rparr> in
          case ki_queue E of
            Inl e \<Rightarrow> (Inl e, False, d, [get_module])
          | Inr _ \<Rightarrow> let calls = [get_module, QueueInit, LockKms, nvKmsModuleLoad (ki_load E), UnlockKms]
                      in if \<not> ki_load E then (Inl B_NO_INIT, True, d, calls)
                         else (B_OK, True, d\<lparr>fIsKmsLoaded := True\<rparr>, calls))"

definition NvHaikuKmsDriver_InitDriver :: "kms_init_env \<Rightarrow> unit status \<times> kms_driver \<times> kms_call list" where
  "NvHaikuKmsDriver_InitDriver E =
     (case NvHaikuKmsDriver_Init E NvHaikuKmsDriver_new of
        (Inl e, queue, d, calls) \<Rightarrow> (Inl e, d, calls @ NvHaikuKmsDriver_dtor queue d)
      | (Inr _, queue, d, calls) \<Rightarrow> (B_OK, d, calls))"

definition NvHaikuKmsDriver_UninitDriver :: "kms_driver \<Rightarrow> kms_call list" where
  "NvHaikuKmsDriver_UninitDriver d = NvHaikuKmsDriver_dtor True d"

definition NvHaikuKmsDriver_PublishDevices :: "string list" where "NvHaikuKmsDriver_PublishDevices = [''nvidia-modeset'']"

definition NvHaikuKmsDriver_FindDevice :: "string \<Rightarrow> unit option" where
  "NvHaikuKmsDriver_FindDevice name = (if name = ''nvidia-modeset'' then Some () else None)"

section \<open>Waiting for events\<close>

fun kms_step :: "'p select_pool \<Rightarrow> 'p kms_handle select_step" where
  "kms_step P (SelectOp x) h = (case NvHaikuKmsDeviceHandle_Select P B_SELECT_READ x h of (r, h', n) \<Rightarrow> (r = B_OK, h', n))"
| "kms_step P (DeselectOp x) h = (case NvHaikuKmsDeviceHandle_Deselect P B_SELECT_READ x h of (r, h', n) \<Rightarrow> (r = B_OK, h', n))"
| "kms_step P Raise h = (True, NvHaikuKmsDeviceHandle_EventQueueChanged P True h)"
| "kms_step P Flush h = (True, h, {})"
| "kms_step P Withdraw h = (True, NvHaikuKmsDeviceHandle_EventQueueChanged P False h)"

lemmas kms_select_defs = NvHaikuKmsDeviceHandle_Select_def NvHaikuKmsDeviceHandle_Deselect_def NvHaikuKmsDeviceHandle_EventQueueChanged_def

interpretation kms: select_source "\<lambda>h. notified P (fSelectPool h)" fEventsAvailable "kms_step P"
proof unfold_locales
  fix x h h' n
  show "x \<in> n" if "kms_step P (SelectOp x) h = (True, h', n)" "fEventsAvailable h"
    using that by (auto simp: kms_select_defs split: sum.splits)
next
  fix op :: select_op and h h' ok
  show "fEventsAvailable h'"
    if "kms_step P op h = (ok, h', {})" "fEventsAvailable h" "op \<noteq> Withdraw"
    using that by (cases op) (auto simp: kms_select_defs split: sum.splits)
next
  fix h h' :: "'a kms_handle" and ok n
  show "fEventsAvailable h'" if "kms_step P Raise h = (ok, h', n)"
    using that by (auto simp: kms_select_defs)
next
  fix op x h h' ok n
  show "x \<in> notified P (fSelectPool h')"
    if "kms_step P op h = (ok, h', n)" "x \<in> notified P (fSelectPool h)" "op \<noteq> DeselectOp x"
    using that by (cases op) (auto simp: kms_select_defs dest: notified_keeps split: sum.splits)
next
  show "(\<forall>h. notified P (fSelectPool h) \<subseteq> snd (snd (kms_step P Raise h))) \<or>
        (\<forall>h. notified P (fSelectPool h) \<subseteq> snd (snd (kms_step P Flush h)))"
    by (simp add: kms_select_defs notified_subset)
qed

text \<open>
  C32: a client of \<open>nvidia-modeset\<close> that waits with \<open>select\<close> misses no event. In any history of
  selects, deselects and changes of the event queue: while there is an event of which nobody has
  been told yet, the next \<open>select\<close> that succeeds notifies its caller at once; and when the queue
  becomes non-empty, everybody who waits is notified.
\<close>

theorem kms_no_lost_wakeup:
  assumes "select_pool_ok P"
    and "select_run (kms_step P) ops (NvHaikuKmsDeviceHandle_new P, False) = (h, owed)"
  shows "(\<forall>x h' n. owed \<and> NvHaikuKmsDeviceHandle_Select P B_SELECT_READ x h = (B_OK, h', n) \<longrightarrow> x \<in> n) \<and>
         (\<forall>y \<in> pool_syncs P (fSelectPool h). y \<in> snd (NvHaikuKmsDeviceHandle_EventQueueChanged P True h))"
proof (intro conjI allI impI ballI)
  show "x \<in> n" if "owed \<and> NvHaikuKmsDeviceHandle_Select P B_SELECT_READ x h = (B_OK, h', n)" for x h' n
    using that assms kms.no_event_lost [of P ops "NvHaikuKmsDeviceHandle_new P" h x h' n] by simp
next
  show "y \<in> snd (NvHaikuKmsDeviceHandle_EventQueueChanged P True h)" if "y \<in> pool_syncs P (fSelectPool h)" for y
    using that assms(1) kms.waiters_told [of y P h "[]"] by (simp split: prod.splits)
qed

lemma kms_no_lost_wakeup_witness:
  "select_pool_ok list_pool \<and>
   (let (h, owed) = select_run (kms_step list_pool) [SelectOp 3, DeselectOp 3, Raise, DeselectOp 5]
                      (NvHaikuKmsDeviceHandle_new list_pool, False)
    in owed \<and> (\<forall>x h' n. NvHaikuKmsDeviceHandle_Select list_pool B_SELECT_READ x h = (B_OK, h', n) \<longrightarrow> x \<in> n) \<and>
       NvHaikuKmsDeviceHandle_Select list_pool B_SELECT_READ 7 h = (B_OK, h\<lparr>fSelectPool := [7]\<rparr>, {7}))"
proof -
  let ?h = "\<lparr>fCookie = 0, fSelectPool = [], fEventsAvailable = True\<rparr>"
  have run: "select_run (kms_step list_pool) [SelectOp 3, DeselectOp 3, Raise, DeselectOp 5]
               (NvHaikuKmsDeviceHandle_new list_pool, False) = (?h, True)"
    by (simp add: kms_select_defs list_pool_def NvHaikuKmsDeviceHandle_new_def owed_after_def)
  have "NvHaikuKmsDeviceHandle_Select list_pool B_SELECT_READ 7 ?h = (B_OK, ?h\<lparr>fSelectPool := [7]\<rparr>, {7})"
    by (simp add: kms_select_defs list_pool_def)
  then show ?thesis
    using kms_no_lost_wakeup [OF list_pool_ok run] run list_pool_ok by (simp add: Let_def)
qed

section \<open>Sessions\<close>

text \<open>The handles live in a table of slots, a cookie is the number of a slot, and an empty slot is a
  handle that was deleted. \<open>kms_args\<close> holds the arguments of the hooks, with what \<open>nvKmsIoctl\<close>
  answers.\<close>

type_synonym 'p kms_state = "'p kms_handle option list \<times> kms_call list"

record kms_args =
  rq_op :: u32
  rq_event :: select_event
  rq_sync :: nat
  rq_answer :: bool

definition handle_at :: "'p kms_state \<Rightarrow> nat \<Rightarrow> 'p kms_handle option" where
  "handle_at s c = (if c < length (fst s) then fst s ! c else None)"

definition set_handle :: "nat \<Rightarrow> 'p kms_handle option \<Rightarrow> 'p kms_state \<Rightarrow> 'p kms_state" where
  "set_handle c h s = ((fst s)[c := h], snd s)"

definition add_calls :: "kms_call list \<Rightarrow> 'p kms_state \<Rightarrow> 'p kms_state" where
  "add_calls new s = (fst s, snd s @ new)"

text \<open>The device class. A hook is only ever called with a cookie that is open; what it does
  otherwise is of no interest.\<close>

definition node_open :: "'p select_pool \<Rightarrow> bool \<Rightarrow> ptr \<Rightarrow> unit \<Rightarrow> 'p kms_state \<Rightarrow> nat status \<times> 'p kms_state" where
  "node_open P alloc cookie _ s =
     (case NvHaikuKmsDevice_Open P alloc cookie of
        (Inl e, new) \<Rightarrow> (Inl e, add_calls new s)
      | (Inr h, new) \<Rightarrow> (Inr (length (fst s)), add_calls new (fst s @ [Some h], snd s)))"

definition kms_handle_class :: "'p select_pool \<Rightarrow> u32 \<Rightarrow> (nat, kms_args, 'p kms_state) handle_class" where
  "kms_handle_class P ends =
     \<lparr>hc_dtor = (\<lambda>c s. case handle_at s c of
          None \<Rightarrow> s | Some h \<Rightarrow> set_handle c None (add_calls (NvHaikuKmsDeviceHandle_dtor h) s)),
      hc_Close = (\<lambda>c s. case handle_at s c of
          None \<Rightarrow> (B_OK, s) | Some h \<Rightarrow> (NvHaikuKmsDeviceHandle_Close h, s)),
      hc_Read = None,
      hc_Write = None,
      hc_Control = Some (\<lambda>c q s. case handle_at s c of
          None \<Rightarrow> (B_OK, s)
        | Some h \<Rightarrow> (case NvHaikuKmsDeviceHandle_Control ends (rq_answer q) (rq_op q) h of
            (r, new) \<Rightarrow> (r, add_calls new s))),
      hc_Select = Some (\<lambda>c q s. case handle_at s c of
          None \<Rightarrow> (B_OK, s)
        | Some h \<Rightarrow> (case NvHaikuKmsDeviceHandle_Select P (rq_event q) (rq_sync q) h of
            (r, h', told) \<Rightarrow> (r, set_handle c (Some h') s))),
      hc_Deselect = Some (\<lambda>c q s. case handle_at s c of
          None \<Rightarrow> (B_OK, s)
        | Some h \<Rightarrow> (case NvHaikuKmsDeviceHandle_Deselect P (rq_event q) (rq_sync q) h of
            (r, h', told) \<Rightarrow> (r, set_handle c (Some h') s)))\<rparr>"

definition gNvHaikuKmsDeviceClass ::
    "'p select_pool \<Rightarrow> u32 \<Rightarrow> bool \<Rightarrow> ptr \<Rightarrow> (nat, kms_args, 'p kms_state) device_hooks" where
  "gNvHaikuKmsDeviceClass P ends alloc cookie =
     GetDevfsNodeClass NvHaikuKmsDriver_FindDevice (node_open P alloc cookie) (kms_handle_class P ends)"

text \<open>What happens to the driver while it is loaded: processes call its hooks, and the mode setting
  module reports that the event queue of a file has changed.\<close>

datatype kms_op =
    OpenOp bool ptr string
  | ControlOp nat kms_args
  | WaitOp nat kms_args
  | StopWaitOp nat kms_args
  | EventOp nat bool
  | CloseOp nat
  | FreeOp nat

definition via_hook ::
    "((nat, kms_args, 'p kms_state) device_hooks \<Rightarrow> (nat, kms_args, 'p kms_state) node_method option) \<Rightarrow>
     'p select_pool \<Rightarrow> u32 \<Rightarrow> nat \<Rightarrow> kms_args \<Rightarrow> 'p kms_state \<Rightarrow> 'p kms_state" where
  "via_hook hook P ends c q s =
     (case hook (gNvHaikuKmsDeviceClass P ends True nullptr) of None \<Rightarrow> s | Some f \<Rightarrow> snd (f c q s))"

fun kms_op_step :: "'p select_pool \<Rightarrow> u32 \<Rightarrow> kms_op \<Rightarrow> 'p kms_state \<Rightarrow> 'p kms_state" where
  "kms_op_step P ends (OpenOp alloc cookie name) s =
     snd (snd (open_hook (gNvHaikuKmsDeviceClass P ends alloc cookie) name s))"
| "kms_op_step P ends (ControlOp c q) s = via_hook control_hook P ends c q s"
| "kms_op_step P ends (WaitOp c q) s = via_hook select_hook P ends c q s"
| "kms_op_step P ends (StopWaitOp c q) s = via_hook deselect_hook P ends c q s"
| "kms_op_step P ends (EventOp c avail) s =
     (case handle_at s c of
        None \<Rightarrow> s
      | Some h \<Rightarrow> set_handle c (Some (fst (NvHaikuKmsDeviceHandle_EventQueueChanged P avail h))) s)"
| "kms_op_step P ends (CloseOp c) s = snd (close_hook (gNvHaikuKmsDeviceClass P ends True nullptr) c s)"
| "kms_op_step P ends (FreeOp c) s = snd (free_hook (gNvHaikuKmsDeviceClass P ends True nullptr) c s)"

text \<open>The life of the driver: a failed \<open>init_driver\<close> makes the kernel unload it at once, otherwise it
  is unloaded after the operations.\<close>

definition kms_life :: "'p select_pool \<Rightarrow> u32 \<Rightarrow> kms_init_env \<Rightarrow> kms_op list \<Rightarrow> 'p kms_state" where
  "kms_life P ends E ops =
     (case NvHaikuKmsDriver_InitDriver E of
        (Inl e, d, calls) \<Rightarrow> ([], calls)
      | (Inr _, d, calls) \<Rightarrow>
          add_calls (NvHaikuKmsDriver_UninitDriver d) (fold (kms_op_step P ends) ops ([], calls)))"

text \<open>The calls respect the lock of the driver: it is taken and released in turn, the mode setting
  module is only entered with it held, and it is free in the end.\<close>

fun kms_locked :: "bool \<Rightarrow> kms_call list \<Rightarrow> bool" where
  "kms_locked held [] = (\<not> held)"
| "kms_locked held (LockKms # cs) = (\<not> held \<and> kms_locked True cs)"
| "kms_locked held (UnlockKms # cs) = (held \<and> kms_locked False cs)"
| "kms_locked held (nvKmsOpen _ # cs) = (held \<and> kms_locked held cs)"
| "kms_locked held (nvKmsClose _ # cs) = (held \<and> kms_locked held cs)"
| "kms_locked held (nvKmsIoctl _ _ # cs) = (held \<and> kms_locked held cs)"
| "kms_locked held (nvKmsModuleLoad _ # cs) = (held \<and> kms_locked held cs)"
| "kms_locked held (nvKmsModuleUnload # cs) = (held \<and> kms_locked held cs)"
| "kms_locked held (get_module # cs) = (\<not> held \<and> kms_locked held cs)"
| "kms_locked held (put_module # cs) = (\<not> held \<and> kms_locked held cs)"
| "kms_locked held (QueueInit # cs) = (\<not> held \<and> kms_locked held cs)"
| "kms_locked held (QueueClose # cs) = (\<not> held \<and> kms_locked held cs)"

lemma kms_locked_append:
  "kms_locked held xs \<Longrightarrow> kms_locked False ys \<Longrightarrow> kms_locked held (xs @ ys)"
  by (induction held xs rule: kms_locked.induct) auto

text \<open>The cookies that were opened and closed, and the balance of everything else that is taken.\<close>

fun kms_opened :: "kms_call \<Rightarrow> ptr list" where
  "kms_opened (nvKmsOpen c) = (if c = nullptr then [] else [c])"
| "kms_opened _ = []"

fun kms_closed :: "kms_call \<Rightarrow> ptr list" where
  "kms_closed (nvKmsClose c) = [c]"
| "kms_closed _ = []"

definition cookies :: "(kms_call \<Rightarrow> ptr list) \<Rightarrow> kms_call list \<Rightarrow> ptr multiset" where
  "cookies f calls = mset (concat (map f calls))"

lemma cookies_simps [simp]:
  "cookies f [] = {#}"
  "cookies f (c # cs) = mset (f c) + cookies f cs"
  "cookies f (xs @ ys) = cookies f xs + cookies f ys"
  by (simp_all add: cookies_def)

definition kms_references :: "kms_call list \<Rightarrow> int list" where
  "kms_references calls =
     map (\<lambda>(a, b). int (count_list calls a) - int (count_list calls b))
       [(get_module, put_module), (QueueInit, QueueClose), (nvKmsModuleLoad True, nvKmsModuleUnload)]"

lemma kms_references_append:
  "kms_references (xs @ ys) = map2 (+) (kms_references xs) (kms_references ys)"
  by (simp add: kms_references_def)

text \<open>The cookies of the files that are open.\<close>

definition open_cookies :: "'p kms_state \<Rightarrow> ptr list" where
  "open_cookies s = concat (map (\<lambda>h. case h of None \<Rightarrow> [] | Some h \<Rightarrow> [fCookie h]) (fst s))"

lemma handle_at_cookies:
  assumes "handle_at s c = Some h"
  obtains xs ys where "open_cookies s = xs @ fCookie h # ys"
    "\<And>h'. open_cookies (set_handle c h' s) =
       xs @ (case h' of None \<Rightarrow> [] | Some h \<Rightarrow> [fCookie h]) @ ys"
proof -
  have c: "c < length (fst s)" "fst s ! c = Some h"
    using assms by (auto simp: handle_at_def split: if_splits)
  let ?f = "\<lambda>h. case h of None \<Rightarrow> [] | Some h \<Rightarrow> [fCookie h]"
  show thesis
    by (rule that [of "concat (take c (map ?f (fst s)))" "concat (drop (Suc c) (map ?f (fst s)))"])
      (use c concat_split [of c "map ?f (fst s)"] in
        \<open>simp_all add: open_cookies_def set_handle_def map_update concat_update\<close>)
qed

definition kms_inv :: "int list \<Rightarrow> 'p kms_state \<Rightarrow> bool" where
  "kms_inv refs s \<longleftrightarrow>
     kms_locked False (snd s) \<and> nullptr \<notin> set (open_cookies s) \<and>
     cookies kms_opened (snd s) = cookies kms_closed (snd s) + mset (open_cookies s) \<and>
     kms_references (snd s) = refs"

lemma add_calls_simps [simp]:
  "fst (add_calls new s) = fst s" "snd (add_calls new s) = snd s @ new"
  "open_cookies (add_calls new s) = open_cookies s" "handle_at (add_calls new s) c = handle_at s c"
  "snd (set_handle c h s) = snd s" "kms_references [] = [0, 0, 0]"
  by (simp_all add: add_calls_def open_cookies_def handle_at_def set_handle_def kms_references_def)

text \<open>The three kinds of change to the state: calls that leave the table alone, a handle that keeps
  its cookie, and a new or deleted handle.\<close>

lemma kms_inv_calls:
  assumes "kms_inv refs s" "length refs = 3" "kms_locked False new" "cookies kms_opened new = {#}"
    "cookies kms_closed new = {#}" "kms_references new = [0, 0, 0]"
  shows "kms_inv refs (add_calls new s)"
  using assms by (auto simp: kms_inv_def kms_locked_append kms_references_append numeral_3_eq_3 length_Suc_conv)

lemma kms_inv_same_cookie:
  assumes "kms_inv refs s" "handle_at s c = Some h" "fCookie h' = fCookie h"
  shows "kms_inv refs (set_handle c (Some h') s)"
  by (rule handle_at_cookies [OF assms(2)]) (use assms in \<open>simp add: kms_inv_def\<close>)

lemma kms_inv_dtor:
  assumes "kms_inv refs s" "length refs = 3" "handle_at s c = Some h"
  shows "kms_inv refs (set_handle c None (add_calls (NvHaikuKmsDeviceHandle_dtor h) s))"
proof -
  have h: "handle_at (add_calls (NvHaikuKmsDeviceHandle_dtor h) s) c = Some h" using assms by simp
  show ?thesis
    by (rule handle_at_cookies [OF h])
      (use assms in \<open>auto simp: kms_inv_def NvHaikuKmsDeviceHandle_dtor_def kms_references_append
        kms_references_def numeral_3_eq_3 length_Suc_conv intro: kms_locked_append\<close>)
qed

lemma kms_inv_open:
  assumes "kms_inv refs s" "length refs = 3"
  shows "kms_inv refs (snd (node_open P alloc cookie u s))"
  using assms
  by (auto simp: kms_inv_def node_open_def NvHaikuKmsDevice_Open_def NvHaikuKmsDeviceHandle_dtor_def Let_def
      kms_references_append kms_references_def numeral_3_eq_3 length_Suc_conv open_cookies_def
      add_calls_def intro: kms_locked_append)

lemma cookie_kept:
  "NvHaikuKmsDeviceHandle_Select P ev x h = (r, h', n) \<Longrightarrow> fCookie h' = fCookie h"
  "NvHaikuKmsDeviceHandle_Deselect P ev x h = (r, h', n) \<Longrightarrow> fCookie h' = fCookie h"
  "fCookie (fst (NvHaikuKmsDeviceHandle_EventQueueChanged P avail h)) = fCookie h"
  by (auto simp: kms_select_defs Let_def split: sum.splits if_splits)

lemma kms_inv_control:
  assumes "kms_inv refs s" "length refs = 3" "NvHaikuKmsDeviceHandle_Control ends ans opcode h = (r, new)"
  shows "kms_inv refs (add_calls new s)"
  by (rule kms_inv_calls [OF assms(1,2)])
    (use assms(3) in \<open>auto simp: NvHaikuKmsDeviceHandle_Control_def Let_def kms_references_def split: if_splits\<close>)

lemmas kms_class_defs = gNvHaikuKmsDeviceClass_def GetDevfsNodeClass_def kms_handle_class_def via_hook_def

lemma kms_op_step_inv:
  assumes "kms_inv refs s" "length refs = 3"
  shows "kms_inv refs (kms_op_step P ends op s)"
proof (cases op)
  case (OpenOp alloc cookie name)
  obtain r s' where "node_open P alloc cookie () s = (r, s')" by (metis surj_pair)
  then show ?thesis
    using OpenOp assms kms_inv_open [OF assms, of P alloc cookie "()"]
    by (auto simp: kms_class_defs class_open_def split: option.split sum.split)
qed (use assms in \<open>auto simp: kms_class_defs class_free_def cookie_kept
      intro: kms_inv_dtor kms_inv_control kms_inv_same_cookie split: option.split prod.split\<close>)

lemma kms_ops_inv:
  "kms_inv refs s \<Longrightarrow> length refs = 3 \<Longrightarrow> kms_inv refs (fold (kms_op_step P ends) ops s)"
  by (induction ops arbitrary: s) (simp_all add: kms_op_step_inv)



end
