(* ===== verification/DriverLoading.thy ===== *)
theory DriverLoading
  imports GpuClients KmsDevice
begin

text \<open>
  Loading and unloading of the two kernel drivers against each other. Both take the module that
  \<open>nvidia_gsp/nvidia/NvidiaModule.cpp\<close> exports: \<open>nvidia_gsp\<close> in \<open>NvHaikuDriver::InitDriver\<close>
  (\<open>Driver.cpp\<close>), \<open>nvidia_gsp_modeset\<close> in \<open>NvHaikuKmsDriver::InitDriver\<close> (\<open>KmsDriver.cpp\<close>). The one object
  \<open>NvHaikuDriver\<close> lives inside the module: it is made for the first that comes and destroyed with the last
  that leaves, and in between its GPUs are opened and closed by the clients of both.
\<close>

section \<open>The module and its users\<close>

text \<open>The module manager of Haiku counts the users of a module. It asks the module to initialise itself
  for the first one, who gets the error when that fails, and to clean up after the last one. \<open>led\<close> is what
  the instance has taken from the outside, \<open>instance\<close> the object with the clients of its GPUs.\<close>

record loading =
  module_users :: nat
  module_instance :: "gpu_world option"
  led :: ledger
  gsp_loaded :: bool
  kms_loaded :: "kms_driver option"

definition nv_get_module :: "init_env \<Rightarrow> loading \<Rightarrow> (unit status \<times> loading) option" where
  "nv_get_module env s =
     (if 0 < module_users s then Some (B_OK, s\<lparr>module_users := module_users s + 1\<rparr>)
      else case NvidiaModuleOps B_MODULE_INIT env (NvHaikuDriver_new, led s) of
             None \<Rightarrow> None
           | Some (Inl e, d, l) \<Rightarrow> Some (Inl e, s\<lparr>led := l\<rparr>)
           | Some (Inr _, d, l) \<Rightarrow>
               Some (B_OK, s\<lparr>module_users := 1, module_instance := Some \<lparr>kernel_driver = d, files = [], granted = []\<rparr>,
                             led := l\<rparr>))"

text \<open>No value where the module has no user, or where cleaning up crashes.\<close>

definition nv_put_module :: "init_env \<Rightarrow> loading \<Rightarrow> loading option" where
  "nv_put_module env s =
     (if module_users s = 0 then None
      else if 1 < module_users s then Some (s\<lparr>module_users := module_users s - 1\<rparr>)
      else case module_instance s of
             None \<Rightarrow> None
           | Some w \<Rightarrow>
               map_option (\<lambda>(_, _, l). s\<lparr>module_users := 0, module_instance := None, led := l\<rparr>)
                 (NvidiaModuleOps B_MODULE_UNINIT env (kernel_driver w, led s)))"

section \<open>The entry points of the drivers\<close>

definition NvHaikuDriver_InitDriver :: "init_env \<Rightarrow> loading \<Rightarrow> (unit status \<times> loading) option" where
  "NvHaikuDriver_InitDriver env s = nv_get_module env s"

definition NvHaikuDriver_UninitDriver :: "init_env \<Rightarrow> loading \<Rightarrow> loading option" where
  "NvHaikuDriver_UninitDriver env s = nv_put_module env s"

text \<open>The calls of the mode setting driver as the module manager sees them.\<close>

fun put_modules :: "init_env \<Rightarrow> kms_call list \<Rightarrow> loading \<Rightarrow> loading option" where
  "put_modules env [] s = Some s"
| "put_modules env (call # calls) s =
     (if call = put_module then Option.bind (nv_put_module env s) (put_modules env calls)
      else put_modules env calls s)"

text \<open>\<open>NvHaikuKmsDriver::InitDriver\<close> with the answer that its \<open>get_module\<close> gets here.\<close>

definition kms_init_driver :: "init_env \<Rightarrow> kms_init_env \<Rightarrow> loading \<Rightarrow> (unit status \<times> kms_driver \<times> loading) option" where
  "kms_init_driver env E s =
     (case nv_get_module env s of
        None \<Rightarrow> None
      | Some (st, s) \<Rightarrow>
          (case NvHaikuKmsDriver_InitDriver (E\<lparr>ki_get_module := st\<rparr>) of
             (r, d, calls) \<Rightarrow> map_option (\<lambda>s. (r, d, s)) (put_modules env calls s)))"

definition kms_uninit_driver :: "init_env \<Rightarrow> kms_driver \<Rightarrow> loading \<Rightarrow> loading option" where
  "kms_uninit_driver env d s = put_modules env (NvHaikuKmsDriver_UninitDriver d) s"

text \<open>A driver is unloaded when no file of it is open; the mode setting module closes the GPUs it was
  granted when it is unloaded. Device files are opened while \<open>nvidia_gsp\<close> is loaded, GPUs are granted while
  \<open>nvidia_gsp_modeset\<close> is. \<open>ok\<close> restricts the answers at the initialisation of the module.\<close>

fun op_allowed :: "gpu_op \<Rightarrow> loading \<Rightarrow> bool" where
  "op_allowed (OpenFile errno0 name mem env) s = gsp_loaded s"
| "op_allowed (CloseFile k) s = gsp_loaded s"
| "op_allowed (NvkmsOpenGpu env gpuId) s = (kms_loaded s \<noteq> None)"
| "op_allowed (NvkmsCloseGpu gpuId) s = (kms_loaded s \<noteq> None)"

inductive load_step :: "(init_env \<Rightarrow> bool) \<Rightarrow> loading \<Rightarrow> loading \<Rightarrow> bool" for ok where
  load_gsp: "\<not> gsp_loaded s \<Longrightarrow> ok env \<Longrightarrow> NvHaikuDriver_InitDriver env s = Some (r, s') \<Longrightarrow>
     load_step ok s (s'\<lparr>gsp_loaded := \<not> isl r\<rparr>)"
| unload_gsp: "gsp_loaded s \<Longrightarrow> module_instance s = Some w \<Longrightarrow> files w = [] \<Longrightarrow>
     NvHaikuDriver_UninitDriver env s = Some s' \<Longrightarrow> load_step ok s (s'\<lparr>gsp_loaded := False\<rparr>)"
| load_kms: "kms_loaded s = None \<Longrightarrow> ok env \<Longrightarrow> kms_init_driver env E s = Some (r, d, s') \<Longrightarrow>
     load_step ok s (s'\<lparr>kms_loaded := if isl r then None else Some d\<rparr>)"
| unload_kms: "kms_loaded s = Some d \<Longrightarrow> module_instance s = Some w \<Longrightarrow> granted w = [] \<Longrightarrow>
     kms_uninit_driver env d s = Some s' \<Longrightarrow> load_step ok s (s'\<lparr>kms_loaded := None\<rparr>)"
| gpu: "module_instance s = Some w \<Longrightarrow> op_allowed op s \<Longrightarrow>
     load_step ok s (s\<lparr>module_instance := Some (gpu_step op w)\<rparr>)"

definition load_start :: "ledger \<Rightarrow> loading" where
  "load_start l = \<lparr>module_users = 0, module_instance = None, led = l, gsp_loaded = False, kms_loaded = None\<rparr>"

inductive load_reach :: "(init_env \<Rightarrow> bool) \<Rightarrow> ledger \<Rightarrow> loading \<Rightarrow> bool" for ok l where
  start: "load_reach ok l (load_start l)"
| step: "load_reach ok l s \<Longrightarrow> load_step ok s s' \<Longrightarrow> load_reach ok l s'"

definition adapters_down :: "init_env \<Rightarrow> bool" where
  "adapters_down env \<longleftrightarrow> (\<forall>(p, pe, add) \<in> set (ie_scan env). \<not> adapter_up (pe_hw pe))"

section \<open>The GPUs leave the rest of the driver alone\<close>

lemma Start_fInitSoftware: "Start env d = (r, d') \<Longrightarrow> fInitSoftware d' = fInitSoftware d"
  by (auto simp: Start_def Let_def split: option.splits if_splits)

lemma Stop_fInitSoftware [simp]: "fInitSoftware (Stop d) = fInitSoftware d"
  by (simp add: Stop_def Let_def)

lemma AcquireRef_fInitSoftware: "AcquireRef env d = (r, d') \<Longrightarrow> fInitSoftware d' = fInitSoftware d"
  by (auto simp: AcquireRef_def Let_def dest: Start_fInitSoftware split: prod.splits sum.splits if_splits)

lemma ReleaseRef_fInitSoftware [simp]: "fInitSoftware (ReleaseRef d) = fInitSoftware d"
  by (simp add: ReleaseRef_def Let_def)

definition same_rest :: "driver \<Rightarrow> driver \<Rightarrow> bool" where
  "same_rest d d' \<longleftrightarrow> (\<exists>gs. d' = d\<lparr>fDevices := gs\<rparr> \<and> map fInitSoftware gs = map fInitSoftware (fDevices d))"

lemma same_rest_refl [simp]: "same_rest d d"
  by (auto simp: same_rest_def intro: exI [of _ "fDevices d"])

lemma same_rest_update:
  assumes "fInitSoftware gpu = fInitSoftware (fDevices d ! i)"
  shows "same_rest d (update_device i gpu d)"
proof -
  have "map fInitSoftware ((fDevices d)[i := gpu]) = map fInitSoftware (fDevices d)"
  proof (rule nth_equalityI)
    fix j assume "j < length (map fInitSoftware ((fDevices d)[i := gpu]))"
    then show "map fInitSoftware ((fDevices d)[i := gpu]) ! j = map fInitSoftware (fDevices d) ! j"
      using assms by (cases "i = j") simp_all
  qed simp
  then show ?thesis unfolding same_rest_def update_device_def by blast
qed

lemma open_gpu_loop_fInitSoftware:
  "open_gpu_loop env i gpus = (r, gpus') \<Longrightarrow> map fInitSoftware gpus' = map fInitSoftware gpus"
  by (induction gpus arbitrary: r gpus')
    (auto dest: AcquireRef_fInitSoftware split: if_splits prod.splits sum.splits)

lemma close_gpu_loop_fInitSoftware:
  "map fInitSoftware (close_gpu_loop i gpus) = map fInitSoftware gpus"
  by (induction gpus) auto

lemma Open_fInitSoftware: "NvHaikuDevice_Open mem env d = (r, d') \<Longrightarrow> fInitSoftware d' = fInitSoftware d"
  by (cases mem) (auto simp: NvHaikuDevice_Open_def CHECK_RET_st_def dest: AcquireRef_fInitSoftware split: prod.splits sum.splits)

lemma gpu_step_same_rest: "same_rest (kernel_driver w) (kernel_driver (gpu_step op w))"
proof (cases op)
  case (OpenFile errno0 name mem env)
  then show ?thesis
    by (auto intro!: same_rest_update dest: Open_fInitSoftware split: option.split devfs_node.split prod.split sum.split)
next
  case (CloseFile k)
  then show ?thesis
    by (auto simp: Let_def NvHaikuDevice_Closed_def intro!: same_rest_update split: devfs_node.split)
next
  case (NvkmsOpenGpu env gpuId)
  then show ?thesis
    by (auto simp: nvkms_open_gpu_def nvidia_module_open_gpu_def same_rest_def
        dest: open_gpu_loop_fInitSoftware split: prod.split)
next
  case (NvkmsCloseGpu gpuId)
  then show ?thesis
    by (auto simp: nvkms_close_gpu_def nvidia_module_close_gpu_def same_rest_def close_gpu_loop_fInitSoftware
        intro: exI [of _ "fDevices (kernel_driver w)"])
qed

lemma same_rest_owns:
  assumes "same_rest d d'"
  shows "owns d' l0 l = owns d l0 l" "fDeviceNamesArray d' = fDeviceNamesArray d"
    "fPCI d' = fPCI d" "fInitRmDone d' = fInitRmDone d" "fControlDevice d' = fControlDevice d"
proof -
  from assms obtain gs where gs: "d' = d\<lparr>fDevices := gs\<rparr>" "map fInitSoftware gs = map fInitSoftware (fDevices d)"
    by (auto simp: same_rest_def)
  then have "length gs = length (fDevices d)" by (metis length_map)
  moreover have "all_init d' = all_init d"
  proof -
    have "fInitSoftware ` set gs = fInitSoftware ` set (fDevices d)" using gs(2) by (metis set_map)
    then show ?thesis unfolding all_init_def gs(1) by (auto simp: image_def set_eq_iff)
  qed
  ultimately show "owns d' l0 l = owns d l0 l" "fDeviceNamesArray d' = fDeviceNamesArray d"
    "fPCI d' = fPCI d" "fInitRmDone d' = fInitRmDone d" "fControlDevice d' = fControlDevice d"
    by (simp_all add: owns_def gs(1))
qed

section \<open>The module has an instance exactly while it has a user\<close>

definition instance_ok :: "ledger \<Rightarrow> loading \<Rightarrow> gpu_world \<Rightarrow> bool" where
  "instance_ok l s w \<longleftrightarrow>
     (let d = kernel_driver w in owns d l (led s) \<and> fPCI d \<and> fInitRmDone d \<and> fControlDevice d \<and>
        names_ok (fDeviceNamesArray d)) \<and> world_ok w \<and>
     (\<not> gsp_loaded s \<longrightarrow> files w = []) \<and> (kms_loaded s = None \<longrightarrow> granted w = [])"

definition load_inv :: "ledger \<Rightarrow> loading \<Rightarrow> bool" where
  "load_inv l s \<longleftrightarrow>
     module_users s = of_bool (gsp_loaded s) + of_bool (kms_loaded s \<noteq> None) \<and>
     (\<forall>d. kms_loaded s = Some d \<longrightarrow> fNvidiaModule d) \<and>
     (case module_instance s of
        None \<Rightarrow> module_users s = 0 \<and> same_resources (led s) l
      | Some w \<Rightarrow> 0 < module_users s \<and> instance_ok l s w)"

lemma owns_same: "same_resources l1 l \<Longrightarrow> owns d l1 l2 = owns d l l2"
  by (simp add: owns_def same_resources_def)

lemma same_resources_trans: "same_resources a b \<Longrightarrow> same_resources b c \<Longrightarrow> same_resources a c"
  by (simp add: same_resources_def)

lemma Init_flags:
  assumes "NvHaikuDriver_Init env (NvHaikuDriver_new, l) = Some (B_OK, d, l1)"
  shows "fPCI d \<and> fInitRmDone d \<and> fControlDevice d"
proof -
  define d0 where "d0 = NvHaikuDriver_new\<lparr>fPCI := True, fInitRmDone := True, fControlDevice := True\<rparr>"
  from assms obtain l0 d1 l2 where scan: "scan_pci (ie_scan env) (d0, l0) = Some (B_OK, d1, l2)"
    and d: "fPCI d = fPCI d1" "fInitRmDone d = fInitRmDone d1" "fControlDevice d = fControlDevice d1"
    by (auto simp: NvHaikuDriver_Init_def d0_def Let_def split: sum.splits option.splits if_splits)
  have "all_init d0" by (simp add: d0_def all_init_def NvHaikuDriver_new_def)
  from scan_pci_ledger [OF scan this] obtain gs where "d1 = d0\<lparr>fDevices := gs\<rparr>" by blast
  then show ?thesis using d by (simp add: d0_def)
qed

text \<open>What initialising and cleaning up do to the ledger.\<close>

lemma module_init_cases:
  assumes "nvidia_module_init env l1 = Some (r, d, l2)" "same_resources l1 l" "adapters_down env"
  shows "case r of Inl _ \<Rightarrow> same_resources l2 l
         | Inr _ \<Rightarrow> owns d l l2 \<and> fPCI d \<and> fInitRmDone d \<and> fControlDevice d \<and> names_ok (fDeviceNamesArray d) \<and>
             world_ok \<lparr>kernel_driver = d, files = [], granted = []\<rparr>"
proof -
  from assms(1) obtain r0 d0 l0 where init: "NvHaikuDriver_Init env (NvHaikuDriver_new, l1) = Some (r0, d0, l0)"
    by (auto simp: nvidia_module_init_def split: option.splits)
  note cases = Init_new_cases [OF init]
  show ?thesis
  proof (cases r0)
    case (Inl e)
    obtain a l3 where "NvHaikuDriver_dtor (d0, l0) = Some (a, l3)" "same_resources l3 l1"
      using dtor_owns [of d0 l1 l0] cases by blast
    then show ?thesis using assms(1,2) init Inl
      by (auto simp: nvidia_module_init_def intro: same_resources_trans)
  next
    case (Inr u)
    then have eq: "r = B_OK" "d = d0" "l2 = l0" using assms(1) init by (auto simp: nvidia_module_init_def)
    have "world_ok \<lparr>kernel_driver = d, files = [], granted = []\<rparr>"
      using loaded_held [of env l1 d l2] assms(1,3) eq
      by (auto simp: world_ok_def clients_ok_def references_def adapters_down_def)
    then show ?thesis using cases Init_flags [of env l1 d0 l0] init Inr eq owns_same [OF assms(2)] by simp
  qed
qed

lemma module_uninit_ok:
  assumes "instance_ok l s w"
  shows "\<exists>l2. nvidia_module_uninit (kernel_driver w, led s) = Some l2 \<and> same_resources l2 l"
  using dtor_owns [of "kernel_driver w" l "led s"] assms
  by (auto simp: instance_ok_def nvidia_module_uninit_def Let_def)

text \<open>Taking and leaving the module. The instance of \<open>s\<close> depends on the users only through their number and
  through who may have files and grants.\<close>

lemma get_module_cases:
  assumes "nv_get_module env s = Some (r, s')" "load_inv l s" "adapters_down env"
  shows "gsp_loaded s' = gsp_loaded s \<and> kms_loaded s' = kms_loaded s \<and>
    (case r of
       Inl _ \<Rightarrow> load_inv l s' \<and> module_users s' = module_users s
     | Inr _ \<Rightarrow> module_users s' = Suc (module_users s) \<and> (\<exists>w. module_instance s' = Some w \<and> instance_ok l s' w))"
proof (cases "0 < module_users s")
  case True
  then have "s' = s\<lparr>module_users := module_users s + 1\<rparr>" "r = B_OK" using assms(1) by (simp_all add: nv_get_module_def)
  then show ?thesis using assms(2) True by (auto simp: load_inv_def instance_ok_def split: option.splits)
next
  case False
  then have res: "same_resources (led s) l" and zero: "module_users s = 0"
    using assms(2) by (auto simp: load_inv_def split: option.splits)
  then have users: "\<not> gsp_loaded s" "kms_loaded s = None" using assms(2) by (auto simp: load_inv_def)
  from assms(1) False obtain d l2 where init: "nvidia_module_init env (led s) = Some (r, d, l2)"
    and s': "s' = (case r of Inl _ \<Rightarrow> s\<lparr>led := l2\<rparr>
        | Inr _ \<Rightarrow> s\<lparr>module_users := 1, module_instance := Some \<lparr>kernel_driver = d, files = [], granted = []\<rparr>, led := l2\<rparr>)"
    by (auto simp: nv_get_module_def NvidiaModuleOps_def split: option.splits sum.splits)
  from module_init_cases [OF init res assms(3)] show ?thesis
  proof (cases r)
    case (Inl e)
    then show ?thesis using module_init_cases [OF init res assms(3)] s' assms(2) zero
      by (auto simp: load_inv_def split: option.splits)
  next
    case (Inr u)
    then show ?thesis using module_init_cases [OF init res assms(3)] s' zero users
      by (simp add: instance_ok_def Let_def)
  qed
qed

lemma put_module_cases:
  assumes "module_instance s = Some w" "instance_ok l s w" "0 < module_users s"
  shows "\<exists>s'. nv_put_module env s = Some s' \<and> gsp_loaded s' = gsp_loaded s \<and> kms_loaded s' = kms_loaded s \<and>
    module_users s' = module_users s - 1 \<and>
    (if module_users s = 1 then module_instance s' = None \<and> same_resources (led s') l
     else module_instance s' = Some w \<and> led s' = led s)"
proof (cases "module_users s = 1")
  case True
  obtain l2 where "nvidia_module_uninit (kernel_driver w, led s) = Some l2" "same_resources l2 l"
    using module_uninit_ok [OF assms(2)] by blast
  then show ?thesis using True assms(1) by (simp add: nv_put_module_def NvidiaModuleOps_def)
next
  case False
  then show ?thesis using assms by (simp add: nv_put_module_def)
qed

lemma put_modules_dtor:
  "put_modules env (NvHaikuKmsDriver_dtor queue d) s = (if fNvidiaModule d then nv_put_module env s else Some s)"
  by (cases "nv_put_module env s") (simp_all add: NvHaikuKmsDriver_dtor_def)

lemma put_modules_append:
  "put_module \<notin> set calls \<Longrightarrow> put_modules env (calls @ calls') s = put_modules env calls' s"
  by (induction calls) auto

text \<open>The mode setting driver keeps the module exactly when its initialisation succeeds.\<close>

lemma kms_init_puts:
  assumes "NvHaikuKmsDriver_InitDriver E = (r, d, calls)"
  shows "put_modules env calls s = (if isl r \<and> \<not> isl (ki_get_module E) then nv_put_module env s else Some s) \<and>
    (\<not> isl r \<longrightarrow> fNvidiaModule d \<and> \<not> isl (ki_get_module E))"
proof -
  obtain r0 queue d0 calls0 where init: "NvHaikuKmsDriver_Init E NvHaikuKmsDriver_new = (r0, queue, d0, calls0)"
    by (metis surj_pair)
  then have no_put: "put_module \<notin> set calls0" and known: "fNvidiaModule d0 = (\<not> isl (ki_get_module E))"
    "\<not> isl r0 \<longrightarrow> \<not> isl (ki_get_module E)"
    by (cases "ki_get_module E"; auto simp: NvHaikuKmsDriver_Init_def NvHaikuKmsDriver_new_def Let_def split: sum.splits if_splits)+
  show ?thesis
  proof (cases r0)
    case (Inl e)
    then have "r = Inl e" "calls = calls0 @ NvHaikuKmsDriver_dtor queue d0"
      using assms init by (auto simp: NvHaikuKmsDriver_InitDriver_def)
    then show ?thesis using known by (simp add: put_modules_append [OF no_put] put_modules_dtor)
  next
    case (Inr u)
    then have "r = B_OK" "d = d0" "calls = calls0" using assms init by (simp_all add: NvHaikuKmsDriver_InitDriver_def)
    then show ?thesis using known Inr put_modules_append [OF no_put, of env "[]"] by simp
  qed
qed

lemma gpu_step_keeps_files:
  "op_allowed op s \<Longrightarrow> \<not> gsp_loaded s \<Longrightarrow> files (gpu_step op w) = files w"
  "op_allowed op s \<Longrightarrow> kms_loaded s = None \<Longrightarrow> granted (gpu_step op w) = granted w"
  by (cases op; auto split: prod.split option.split devfs_node.split sum.split simp: Let_def)+

lemma instance_ok_gpu_step:
  assumes "instance_ok l s w" "op_allowed op s"
  shows "instance_ok l (s\<lparr>module_instance := Some (gpu_step op w)\<rparr>) (gpu_step op w)"
proof -
  have "world_ok (gpu_step op w)" using gpu_run_ok [of w "[op]"] assms(1) by (simp add: gpu_run_def instance_ok_def)
  then show ?thesis
    using assms gpu_step_keeps_files [OF assms(2), of w] same_rest_owns [OF gpu_step_same_rest [of w op]]
    by (simp add: instance_ok_def Let_def)
qed

text \<open>A user has left.\<close>

lemma load_inv_left:
  assumes "nv_put_module env s = Some s'" "module_instance s = Some w" "instance_ok l s w"
    and "module_users s = Suc (of_bool g + of_bool (k \<noteq> None))" "\<forall>d. k = Some d \<longrightarrow> fNvidiaModule d"
    and "g = gsp_loaded s \<or> \<not> g \<and> files w = []" "k = kms_loaded s \<or> k = None \<and> granted w = []"
  shows "load_inv l (s'\<lparr>gsp_loaded := g, kms_loaded := k\<rparr>)"
proof -
  obtain s1 where s1: "nv_put_module env s = Some s1" "module_users s1 = module_users s - 1"
    "if module_users s = 1 then module_instance s1 = None \<and> same_resources (led s1) l
     else module_instance s1 = Some w \<and> led s1 = led s"
    using put_module_cases [OF assms(2,3), of env] assms(4) by auto
  with assms(1) have "s1 = s'" by simp
  then show ?thesis using s1 assms(3-7)
    by (auto simp: load_inv_def instance_ok_def Let_def split: if_splits)
qed

lemma put_module_loaded:
  assumes "nv_put_module env s = Some s'"
  shows "gsp_loaded s' = gsp_loaded s \<and> kms_loaded s' = kms_loaded s"
  using assms by (auto simp: nv_put_module_def split: if_splits option.splits)

lemma loading_update_same:
  "kms_loaded s = k \<Longrightarrow> s\<lparr>gsp_loaded := g, kms_loaded := k\<rparr> = s\<lparr>gsp_loaded := g\<rparr>"
  "gsp_loaded s = g \<Longrightarrow> s\<lparr>gsp_loaded := g, kms_loaded := k\<rparr> = s\<lparr>kms_loaded := k\<rparr>"
  by (cases s; simp)+

lemma load_gsp_inv:
  assumes "load_inv l s" "\<not> gsp_loaded s" "adapters_down env" "nv_get_module env s = Some (r, s')"
  shows "load_inv l (s'\<lparr>gsp_loaded := \<not> isl r\<rparr>)"
  using get_module_cases [OF assms(4,1,3)] assms(1,2)
  by (cases r) (auto simp: load_inv_def instance_ok_def Let_def split: option.splits)

lemma load_kms_inv:
  assumes "load_inv l s" "kms_loaded s = None" "adapters_down env" "kms_init_driver env E s = Some (r, d, s')"
  shows "load_inv l (s'\<lparr>kms_loaded := if isl r then None else Some d\<rparr>)"
proof -
  from assms(4) obtain st s1 calls where get: "nv_get_module env s = Some (st, s1)"
    and init: "NvHaikuKmsDriver_InitDriver (E\<lparr>ki_get_module := st\<rparr>) = (r, d, calls)"
    and puts: "put_modules env calls s1 = Some s'"
    by (auto simp: kms_init_driver_def split: option.splits prod.splits)
  note got = get_module_cases [OF get assms(1,3)] and kms = kms_init_puts [OF init, of env s1]
  have users: "module_users s = of_bool (gsp_loaded s)" using assms(1,2) by (simp add: load_inv_def)
  show ?thesis
  proof (cases st)
    case (Inl e)
    then show ?thesis using got kms puts assms(2)
      by (auto simp: load_inv_def instance_ok_def split: option.splits)
  next
    case (Inr u)
    then obtain w where w: "module_users s1 = Suc (module_users s)" "module_instance s1 = Some w" "instance_ok l s1 w"
      and same: "gsp_loaded s1 = gsp_loaded s" "kms_loaded s1 = None"
      using got assms(2) by auto
    show ?thesis
    proof (cases "isl r")
      case True
      then have put: "nv_put_module env s1 = Some s'" using kms puts Inr by simp
      have "load_inv l (s'\<lparr>gsp_loaded := gsp_loaded s1, kms_loaded := None\<rparr>)"
        by (rule load_inv_left [OF put w(2,3)]) (use w(1) same users in simp_all)
      then show ?thesis using True loading_update_same(2) [of s' "gsp_loaded s1" None] put_module_loaded [OF put] by simp
    next
      case False
      then have "s' = s1" "fNvidiaModule d" using kms puts by simp_all
      then show ?thesis using False w same users by (auto simp: load_inv_def instance_ok_def Let_def)
    qed
  qed
qed

lemma load_step_inv:
  assumes "load_step adapters_down s s'" "load_inv l s"
  shows "load_inv l s'"
  using assms
proof (induction rule: load_step.induct)
  case (load_gsp s env r s')
  then show ?case using load_gsp_inv [of l s env r s'] by (simp add: NvHaikuDriver_InitDriver_def)
next
  case (unload_gsp s w env s')
  then have put: "nv_put_module env s = Some s'" by (simp add: NvHaikuDriver_UninitDriver_def)
  have "load_inv l (s'\<lparr>gsp_loaded := False, kms_loaded := kms_loaded s\<rparr>)"
    by (rule load_inv_left [OF put unload_gsp(2)]) (use unload_gsp in \<open>auto simp: load_inv_def\<close>)
  then show ?case using loading_update_same(1) [of s' "kms_loaded s" False] put_module_loaded [OF put] by simp
next
  case (load_kms s env E r d s')
  then show ?case by (rule load_kms_inv [rotated])
next
  case (unload_kms s d w env s')
  then have "fNvidiaModule d" by (simp add: load_inv_def)
  then have put: "nv_put_module env s = Some s'"
    using unload_kms(4) by (simp add: kms_uninit_driver_def NvHaikuKmsDriver_UninitDriver_def put_modules_dtor)
  have "load_inv l (s'\<lparr>gsp_loaded := gsp_loaded s, kms_loaded := None\<rparr>)"
    by (rule load_inv_left [OF put unload_kms(2)]) (use unload_kms in \<open>auto simp: load_inv_def\<close>)
  then show ?case using loading_update_same(2) [of s' "gsp_loaded s" None] put_module_loaded [OF put] by simp
next
  case (gpu s w op)
  then show ?case using instance_ok_gpu_step [of l s w op] by (auto simp: load_inv_def)
qed

interpretation load: invariant_system "\<lambda>s. s = load_start l" "load_step adapters_down" "load_reach adapters_down l" "load_inv l"
proof
  show "I s" if "load_reach adapters_down l s" "\<And>s. s = load_start l \<Longrightarrow> I s"
    "\<And>s t. load_reach adapters_down l s \<Longrightarrow> I s \<Longrightarrow> load_step adapters_down s t \<Longrightarrow> I t" for I s
    using that(1) by (induction rule: load_reach.induct) (blast intro: that(2,3))+
next
  show "load_inv l s" if "s = load_start l" for s
    using that by (simp add: load_inv_def load_start_def same_resources_def)
qed (auto intro: load_reach.intros load_step_inv)

lemma load_reach_inv: "load_reach adapters_down l s \<Longrightarrow> load_inv l s"
  by (rule load.inv_reach)

section \<open>Two drivers, one module\<close>

text \<open>C12: The two drivers share one instance of the resource manager, in whatever order they are loaded and
  unloaded, failed attempts included, and whatever their clients do with the GPUs in between. It exists exactly
  while one of them is loaded; then it has taken the PCI module, the resource manager, the event locks and the
  private states of its devices once, and otherwise nothing is taken. The open counts of the GPUs are right all
  the time, so that a driver with no files or grants left can be unloaded: it never crashes, and when both
  have none no GPU is up.\<close>

theorem drivers_share_module:
  assumes "load_reach adapters_down l s"
  shows "module_users s = of_bool (gsp_loaded s) + of_bool (kms_loaded s \<noteq> None) \<and>
    (case module_instance s of
       None \<Rightarrow> \<not> gsp_loaded s \<and> kms_loaded s = None \<and> same_resources (led s) l
     | Some w \<Rightarrow>
         let gpus = fDevices (kernel_driver w) in
         (gsp_loaded s \<or> kms_loaded s \<noteq> None) \<and>
         pci_refs (led s) = pci_refs l + 1 \<and> rm_refs (led s) = rm_refs l + 1 \<and>
         event_locks (led s) = event_locks l + 1 \<and> private_states (led s) = private_states l + int (length gpus) \<and>
         (\<forall>i < length gpus. fOpenCount (gpus ! i) = int (references gpus (files w) (granted w) i) \<and>
            powered (gpus ! i) = (0 < references gpus (files w) (granted w) i)) \<and>
         (gsp_loaded s \<longrightarrow> (\<exists>s'. NvHaikuDriver_UninitDriver env s = Some s')) \<and>
         (\<forall>d. kms_loaded s = Some d \<longrightarrow> (\<exists>s'. kms_uninit_driver env d s = Some s')) \<and>
         (files w = [] \<and> granted w = [] \<longrightarrow> (\<forall>gpu \<in> set gpus. \<not> powered gpu)))"
proof -
  note inv = load_reach_inv [OF assms]
  show ?thesis
  proof (cases "module_instance s")
    case None
    then show ?thesis using inv by (auto simp: load_inv_def)
  next
    case (Some w)
    then have ok: "instance_ok l s w" "0 < module_users s" using inv by (auto simp: load_inv_def)
    then obtain s1 where put: "nv_put_module env s = Some s1" using put_module_cases [OF Some] by blast
    have gpus: "fOpenCount (fDevices (kernel_driver w) ! i) = int (references (fDevices (kernel_driver w)) (files w) (granted w) i) \<and>
        powered (fDevices (kernel_driver w) ! i) = (0 < references (fDevices (kernel_driver w)) (files w) (granted w) i)"
      if "i < length (fDevices (kernel_driver w))" for i
      using ok(1) world_ok_device [of w i] that by (simp add: instance_ok_def held_def)
    then have "\<not> powered gpu" if "files w = []" "granted w = []" "gpu \<in> set (fDevices (kernel_driver w))" for gpu
      using that by (auto simp: in_set_conv_nth references_def)
    then show ?thesis using inv ok Some put gpus
      by (auto simp: load_inv_def instance_ok_def owns_def Let_def NvHaikuDriver_UninitDriver_def
          kms_uninit_driver_def NvHaikuKmsDriver_UninitDriver_def put_modules_dtor)
  qed
qed

text \<open>The mode setting driver is loaded first and takes a GPU, then the other one is loaded.\<close>

lemma drivers_share_module_witness:
  "\<exists>s w. load_reach adapters_down ex_ledger s \<and> module_instance s = Some w \<and> gsp_loaded s \<and> kms_loaded s \<noteq> None \<and>
     module_users s = 2 \<and> rm_refs (led s) = rm_refs ex_ledger + 1"
proof -
  let ?R = "load_reach adapters_down ex_ledger" and ?E = "\<lparr>ki_get_module = B_OK, ki_queue = B_OK, ki_load = True\<rparr>"
  obtain d l1 where ready: "nvidia_module_init ex_hole ex_ledger = Some (B_OK, d, l1)" using ex_hole_ready by blast
  have down: "adapters_down ex_hole" by (simp add: adapters_down_def ex_hole_def ex_probe_def)
  let ?w = "\<lparr>kernel_driver = d, files = [], granted = []\<rparr>"
  let ?s1 = "\<lparr>module_users = 1, module_instance = Some ?w, led = l1, gsp_loaded = False,
      kms_loaded = Some \<lparr>fNvidiaModule = True, fIsKmsLoaded = True\<rparr>\<rparr>"
  have kms: "kms_init_driver ex_hole ?E (load_start ex_ledger) =
      Some (B_OK, \<lparr>fNvidiaModule = True, fIsKmsLoaded = True\<rparr>, ?s1\<lparr>kms_loaded := None\<rparr>)"
    using ready by (simp add: kms_init_driver_def nv_get_module_def NvidiaModuleOps_def load_start_def
        NvHaikuKmsDriver_InitDriver_def NvHaikuKmsDriver_Init_def NvHaikuKmsDriver_new_def)
  have s1: "?R ?s1"
    using load_reach.step [OF load_reach.start load_step.load_kms [where ok = adapters_down, OF _ down kms]] by (simp add: load_start_def)
  let ?w2 = "gpu_step (NvkmsOpenGpu ex_start 7) ?w"
  have s2: "?R (?s1\<lparr>module_instance := Some ?w2\<rparr>)"
    by (rule load_reach.step [OF s1 load_step.gpu]) simp_all
  let ?s3 = "?s1\<lparr>module_users := 2, module_instance := Some ?w2, gsp_loaded := True\<rparr>"
  have gsp: "NvHaikuDriver_InitDriver ex_hole (?s1\<lparr>module_instance := Some ?w2\<rparr>) = Some (B_OK, ?s3\<lparr>gsp_loaded := False\<rparr>)"
    by (simp add: NvHaikuDriver_InitDriver_def nv_get_module_def del: gpu_step.simps)
  have "?R ?s3"
    using load_reach.step [OF s2 load_step.load_gsp [where ok = adapters_down, OF _ down gsp]] by (simp del: gpu_step.simps)
  with drivers_share_module [OF this] show ?thesis by (intro exI [of _ ?s3] exI [of _ ?w2]) (simp add: Let_def)
qed

end
