(* ===== verification/TimerQueue.thy ===== *)
theory TimerQueue
  imports KmsSync Steps
begin

text \<open>
  The timers of the mode setting module: \<open>nvidia_gsp/nvidia-modeset/TimerQueue.{h,cpp}\<close>. A timer is
  an object with two flags that its spinlock protects; the kernel's timer and the kernel's queue
  of deferred calls hold pointers to it. Every critical section is one step, and the step
  relation lets the kernel and the client act in any order. The driver builds this code but keeps
  it switched off (\<open>NV_TIMER_QUEUE_ENABLED\<close>).
\<close>

section \<open>A timer\<close>

text \<open>\<open>fData\<close> is \<open>fDataPtr\<close> together with \<open>fIsRefPtr\<close>: a plain pointer or a guarded one. The last four
  fields are the outside: whether the kernel's timer will fire, whether the timer is in the queue
  of deferred calls, how often it was deleted, and the calls of \<open>fProc\<close>.\<close>

record nvkms_timer =
  fTimerScheduled :: bool
  fDpcScheduled :: bool
  fData :: "ptr + ref_ptr"
  fDataU32 :: u32
  armed :: bool
  queued :: bool
  deleted :: nat
  called :: "(ptr \<times> u32) list"

definition nvkms_timer_new :: "ptr + ref_ptr \<Rightarrow> u32 \<Rightarrow> nvkms_timer" where
  "nvkms_timer_new d u =
     \<lparr>fTimerScheduled = False, fDpcScheduled = False,
      fData = (case d of Inl p \<Rightarrow> Inl p | Inr r \<Rightarrow> Inr (nvkms_inc_ref r)), fDataU32 = u,
      armed = False, queued = False, deleted = 0, called = []\<rparr>"

definition nvkms_timer_dtor :: "nvkms_timer \<Rightarrow> nvkms_timer" where
  "nvkms_timer_dtor t = t\<lparr>deleted := deleted t + 1\<rparr>"

definition nvkms_timer_Schedule :: "u64 \<Rightarrow> nvkms_timer \<Rightarrow> nvkms_timer" where
  "nvkms_timer_Schedule usec t =
     (if usec = 0 then t\<lparr>fDpcScheduled := True, queued := True\<rparr>
      else t\<lparr>fTimerScheduled := True, armed := True\<rparr>)"

definition nvkms_timer_Free :: "nvkms_timer \<Rightarrow> nvkms_timer" where
  "nvkms_timer_Free t =
     (let t = (if fTimerScheduled t then t\<lparr>armed := False, fTimerScheduled := False\<rparr> else t);
          t = (if fDpcScheduled t then t\<lparr>queued := False, fDpcScheduled := False\<rparr> else t)
      in nvkms_timer_dtor t)"

definition nvkms_timer_TimerHook :: "nvkms_timer \<Rightarrow> nvkms_timer" where
  "nvkms_timer_TimerHook t = (if fTimerScheduled t then t\<lparr>fTimerScheduled := False, queued := True\<rparr> else t)"

definition nvkms_timer_DoDPC :: "nvkms_timer \<Rightarrow> nvkms_timer" where
  "nvkms_timer_DoDPC t =
     (if \<not> fDpcScheduled t then t
      else let t = t\<lparr>fDpcScheduled := False\<rparr> in
        case fData t of
          Inl dataPtr \<Rightarrow> t\<lparr>called := called t @ [(dataPtr, fDataU32 t)]\<rparr>
        | Inr refPtr \<Rightarrow>
            (case nvkms_dec_ref refPtr of (dataPtr, refPtr) \<Rightarrow>
               let t = t\<lparr>fData := Inr refPtr\<rparr>
               in if dataPtr = nullptr then nvkms_timer_dtor t
                  else nvkms_timer_dtor (t\<lparr>called := called t @ [(dataPtr, fDataU32 t)]\<rparr>)))"

section \<open>The queue\<close>

text \<open>\<open>mem\<close> tells whether the object can be allocated.\<close>

definition NvTimerQueue_Alloc :: "bool \<Rightarrow> ptr \<Rightarrow> u32 \<Rightarrow> u64 \<Rightarrow> nvkms_timer option" where
  "NvTimerQueue_Alloc mem dataPtr u usec =
     (if mem then Some (nvkms_timer_Schedule usec (nvkms_timer_new (Inl dataPtr) u)) else None)"

definition NvTimerQueue_AllocWithRefPtr :: "bool \<Rightarrow> ref_ptr \<Rightarrow> u32 \<Rightarrow> u64 \<Rightarrow> nvkms_timer option" where
  "NvTimerQueue_AllocWithRefPtr mem refPtr u usec =
     (if mem then Some (nvkms_timer_Schedule usec (nvkms_timer_new (Inr refPtr) u)) else None)"

definition NvTimerQueue_Free :: "nvkms_timer option \<Rightarrow> nvkms_timer option" where
  "NvTimerQueue_Free handle = (case handle of None \<Rightarrow> None | Some t \<Rightarrow> Some (nvkms_timer_Free t))"

section \<open>What can happen to a timer\<close>

text \<open>The kernel's timer fires once; the queue of deferred calls takes the timer out before it calls
  \<open>DoDPC\<close>; the client frees a timer with a plain pointer at most once; the owner of a guarded
  pointer gives it up at most once.\<close>

inductive timer_step :: "nvkms_timer \<Rightarrow> nvkms_timer \<Rightarrow> bool" where
  expires: "armed t \<Longrightarrow> timer_step t (nvkms_timer_TimerHook (t\<lparr>armed := False\<rparr>))"
| dpc_runs: "queued t \<Longrightarrow> timer_step t (nvkms_timer_DoDPC (t\<lparr>queued := False\<rparr>))"
| client_frees: "fData t = Inl p \<Longrightarrow> deleted t = 0 \<Longrightarrow> timer_step t (nvkms_timer_Free t)"
| owner_frees: "fData t = Inr r \<Longrightarrow> ptr_of r \<noteq> nullptr \<Longrightarrow>
    timer_step t (t\<lparr>fData := Inr (nvkms_free_ref_ptr r)\<rparr>)"

inductive_cases timer_stepE: "timer_step t t'"

abbreviation timer_reach :: "nvkms_timer \<Rightarrow> nvkms_timer \<Rightarrow> bool" where
  "timer_reach \<equiv> timer_step\<^sup>*\<^sup>*"

lemmas timer_defs = nvkms_timer_new_def nvkms_timer_dtor_def nvkms_timer_Schedule_def nvkms_timer_Free_def nvkms_timer_TimerHook_def
  nvkms_timer_DoDPC_def NvTimerQueue_Alloc_def NvTimerQueue_AllocWithRefPtr_def Let_def

lemma free_ref_ptr_simps:
  "ref_count (nvkms_free_ref_ptr r) = ref_count r - 1"
  "freed (nvkms_free_ref_ptr r) = (if ref_count r = 1 then freed r + 1 else freed r)"
  "ptr_of (nvkms_free_ref_ptr r) = nullptr"
  using dec_ref_simps [of "r\<lparr>ptr_of := nullptr\<rparr>"]
  by (simp_all add: nvkms_free_ref_ptr_def dec_ref_state_def ref_count_def)

text \<open>How the guarded pointer of a timer stands: one reference of the owner, one of the timer.\<close>

definition guard_ok :: "bool \<Rightarrow> ref_ptr \<Rightarrow> bool" where
  "guard_ok held r \<longleftrightarrow>
     ref_count r = of_bool (ptr_of r \<noteq> nullptr) + of_bool held \<and> freed r = of_bool (ref_count r = 0)"

lemma guard_ok_steps:
  "guard_ok held r \<Longrightarrow> ptr_of r \<noteq> nullptr \<Longrightarrow> guard_ok held (nvkms_free_ref_ptr r)"
  "guard_ok True r \<Longrightarrow> nvkms_dec_ref r = (p, r') \<Longrightarrow> guard_ok False r' \<and> p = ptr_of r \<and> ptr_of r' = ptr_of r"
  using dec_ref_simps [of r]
  by (auto simp: guard_ok_def free_ref_ptr_simps dec_ref_state_def)

lemma guard_ok_new:
  "nvkms_alloc_ref_ptr True p = Some r \<Longrightarrow> p \<noteq> nullptr \<Longrightarrow>
     guard_ok True (nvkms_inc_ref r) \<and> ptr_of (nvkms_inc_ref r) = p"
  by (auto simp: guard_ok_def nvkms_alloc_ref_ptr_def nv_kref_init_def nvkms_inc_ref_def nv_kref_get_def
      ref_count_def)

section \<open>Immediate timers\<close>

text \<open>The kernel still holds a pointer to a timer that was deleted.\<close>

definition dangling :: "nvkms_timer \<Rightarrow> bool" where
  "dangling t \<longleftrightarrow> (armed t \<or> queued t) \<and> 0 < deleted t"

definition immediate_plain :: "ptr \<Rightarrow> u32 \<Rightarrow> nvkms_timer \<Rightarrow> bool" where
  "immediate_plain p u t \<longleftrightarrow>
     \<not> armed t \<and> \<not> fTimerScheduled t \<and> fDpcScheduled t = queued t \<and> fData t = Inl p \<and> fDataU32 t = u \<and>
     deleted t \<le> 1 \<and>
     (if queued t then called t = [] \<and> deleted t = 0
      else called t = [(p, u)] \<or> called t = [] \<and> deleted t = 1)"

lemma immediate_plain_step: "immediate_plain p u t \<Longrightarrow> timer_step t t' \<Longrightarrow> immediate_plain p u t'"
  by (erule timer_stepE) (auto simp: immediate_plain_def timer_defs split: if_splits)

interpretation plain: preserved timer_step "immediate_plain p u"
  by unfold_locales (rule immediate_plain_step)

definition immediate_guarded :: "ptr \<Rightarrow> u32 \<Rightarrow> nvkms_timer \<Rightarrow> bool" where
  "immediate_guarded p u t \<longleftrightarrow>
     \<not> armed t \<and> \<not> fTimerScheduled t \<and> fDpcScheduled t = queued t \<and> fDataU32 t = u \<and>
     (\<exists>r. fData t = Inr r \<and> guard_ok (queued t) r \<and> ptr_of r \<in> {p, nullptr} \<and>
        (if queued t then called t = [] \<and> deleted t = 0
         else deleted t = 1 \<and> (called t = [(p, u)] \<or> called t = [] \<and> ptr_of r = nullptr)))"

lemma immediate_guarded_step:
  assumes "immediate_guarded p u t" "timer_step t t'"
  shows "immediate_guarded p u t'"
  using assms(2)
proof (cases rule: timer_step.cases)
  case expires
  then show ?thesis using assms(1) by (simp add: immediate_guarded_def)
next
  case dpc_runs
  obtain r where r: "fData t = Inr r" "guard_ok True r" "ptr_of r \<in> {p, nullptr}"
    using assms(1) dpc_runs by (auto simp: immediate_guarded_def)
  obtain q r' where dec: "nvkms_dec_ref r = (q, r')" by (metis surj_pair)
  with r have "guard_ok False r'" "q = ptr_of r" "ptr_of r' = ptr_of r" using guard_ok_steps by blast+
  with r dec dpc_runs assms(1) show ?thesis by (auto simp: immediate_guarded_def timer_defs)
next
  case (client_frees q)
  then show ?thesis using assms(1) by (simp add: immediate_guarded_def)
next
  case (owner_frees r)
  then have "guard_ok (queued t) (nvkms_free_ref_ptr r)"
    using assms(1) guard_ok_steps by (simp add: immediate_guarded_def)
  with owner_frees assms(1) show ?thesis by (auto simp: immediate_guarded_def free_ref_ptr_simps)
qed

interpretation guarded: preserved timer_step "immediate_guarded p u"
  by unfold_locales (rule immediate_guarded_step)



section \<open>Delayed timers\<close>

definition delayed :: "nvkms_timer \<Rightarrow> bool" where
  "delayed t \<longleftrightarrow> \<not> fDpcScheduled t \<and> called t = [] \<and> (\<forall>r. fData t = Inr r \<longrightarrow> deleted t = 0)"

lemma delayed_step: "delayed t \<Longrightarrow> timer_step t t' \<Longrightarrow> delayed t'"
  by (erule timer_stepE) (auto simp: delayed_def timer_defs)

lemma guarded_step: "\<exists>r. fData t = Inr r \<Longrightarrow> timer_step t t' \<Longrightarrow> \<exists>r. fData t' = Inr r"
  by (erule timer_stepE) (auto simp: timer_defs split: prod.split)

interpretation late_timer: preserved timer_step delayed
  by unfold_locales (rule delayed_step)

interpretation guard_kept: preserved timer_step "\<lambda>t. \<exists>r. fData t = Inr r"
  by unfold_locales (rule guarded_step)

text \<open>
  C33: a timer with a delay is broken: \<open>TimerHook\<close> queues the deferred call without setting
  \<open>fDpcScheduled\<close>, so \<open>DoDPC\<close> takes it for cancelled. In no order of events is the timer's
  function ever called, a timer with a guarded pointer is never deleted, and when the client frees
  a timer that has expired, \<open>Free\<close> does not take it out of the queue: the queue is left with a
  pointer to a deleted object.
\<close>

theorem delayed_timer_broken:
  assumes "0 < usec"
  shows "(\<forall>t0 t. NvTimerQueue_Alloc True p u usec = Some t0 \<and> timer_reach t0 t \<longrightarrow> called t = []) \<and>
         (\<forall>t0 t. NvTimerQueue_AllocWithRefPtr True r u usec = Some t0 \<and> timer_reach t0 t \<longrightarrow>
            called t = [] \<and> deleted t = 0) \<and>
         (\<exists>t0 t. NvTimerQueue_Alloc True p u usec = Some t0 \<and> timer_reach t0 t \<and> dangling t)"
proof (intro conjI allI impI)
  have usec: "usec \<noteq> 0" using assms by simp
  fix t0 t
  assume *: "NvTimerQueue_Alloc True p u usec = Some t0 \<and> timer_reach t0 t"
  have "delayed t0" using * usec by (auto simp: timer_defs delayed_def)
  then show "called t = []"
    using late_timer.inv_run [OF conjunct2 [OF *]] delayed_def by blast
next
  have usec: "usec \<noteq> 0" using assms by simp
  fix t0 t
  assume *: "NvTimerQueue_AllocWithRefPtr True r u usec = Some t0 \<and> timer_reach t0 t"
  have "delayed t0 \<and> (\<exists>r. fData t0 = Inr r)" using * usec by (auto simp: timer_defs delayed_def)
  then have "delayed t \<and> (\<exists>r. fData t = Inr r)"
    using late_timer.inv_run [OF conjunct2 [OF *]] guard_kept.inv_run [OF conjunct2 [OF *]] by blast
  then show "called t = []" "deleted t = 0" by (auto simp: delayed_def)
next
  let ?start = "nvkms_timer_Schedule usec (nvkms_timer_new (Inl p) u)"
  let ?fired = "nvkms_timer_TimerHook (?start\<lparr>armed := False\<rparr>)"
  have usec: "usec \<noteq> 0" using assms by simp
  have "timer_step ?start ?fired" by (rule expires) (use usec in \<open>simp add: timer_defs\<close>)
  moreover have "timer_step ?fired (nvkms_timer_Free ?fired)"
    by (rule client_frees [of _ p]) (use usec in \<open>simp_all add: timer_defs\<close>)
  ultimately have "timer_reach ?start (nvkms_timer_Free ?fired)"
    by (rule converse_rtranclp_into_rtranclp [OF _ r_into_rtranclp])
  moreover have "dangling (nvkms_timer_Free ?fired)" using usec by (simp add: timer_defs dangling_def)
  ultimately show "\<exists>t0 t. NvTimerQueue_Alloc True p u usec = Some t0 \<and> timer_reach t0 t \<and> dangling t"
    by (auto simp: NvTimerQueue_Alloc_def)
qed

lemma delayed_timer_broken_witness:
  "0 < (100 :: u64) \<and> (\<exists>t0 t. NvTimerQueue_Alloc True 9 5 100 = Some t0 \<and> timer_reach t0 t \<and> dangling t)"
  using delayed_timer_broken [of 100 9 5] by simp

end
