(* ===== verification/KernelSupport.thy ===== *)
theory KernelSupport
  imports BaseControl DriverLoading TimerQueue
begin

text \<open>
  The glue between the parts of the two kernel drivers: \<open>nvidia_gsp/ContainerOf.h\<close>, which leads from a
  member to its object, \<open>CppUtils.cpp\<close>, the hooks of the C++ runtime, the file of a GPU that is closed
  (\<open>Device.cpp\<close>), the event of the mode setting module on its way to an open file (\<open>nvkms-haiku.cpp\<close>),
  and the life of the timer queue (\<open>TimerQueue.cpp\<close>).
\<close>

section \<open>From a member to its object\<close>

text \<open>Addresses are numbers: a member lies at its offset behind the start of the object.\<close>

definition OffsetOf :: "ptr \<Rightarrow> ptr \<Rightarrow> nat" where "OffsetOf this member_address = member_address - this"
definition ContainerOf :: "ptr \<Rightarrow> nat \<Rightarrow> ptr" where "ContainerOf member_address offset = member_address - offset"

lemma ContainerOf_member: "this \<le> member_address \<Longrightarrow> ContainerOf member_address (OffsetOf this member_address) = this"
  by (simp add: ContainerOf_def OffsetOf_def)

text \<open>The offset of the class leads from the member of any object back to it.\<close>

lemma ContainerOf_same_class: "ContainerOf (this + offset) offset = this"
  by (simp add: ContainerOf_def)

text \<open>A failed assertion of the C++ library panics.\<close>

definition glibcxx_assert_fail :: "string \<Rightarrow> int \<Rightarrow> string \<Rightarrow> unit option" where
  "glibcxx_assert_fail file line message = None"

section \<open>Closing the file of a GPU\<close>

definition NvHaikuDeviceHandle_Close :: "nv_device \<Rightarrow> 'p base_handle \<Rightarrow> unit status \<times> nv_device \<times> 'p base_handle" where
  "NvHaikuDeviceHandle_Close d h =
     (let d = NvHaikuDevice_Closed d; (st, h) = NvHaikuBaseDeviceHandle_Close h in (st, d, h))"

text \<open>Opening a file and closing it leaves the open count, and closing is reported as a success. On a GPU
  that someone else has open nothing happens to the hardware.\<close>

lemma open_close_count:
  assumes "NvHaikuDevice_Open mem env d = (B_OK, d1)" "NvHaikuDeviceHandle_Close d1 h = (st, d2, h')"
  shows "st = B_OK \<and> fClosed h' \<and> fOpenCount d2 = fOpenCount d \<and> (fOpenCount d \<noteq> 0 \<longrightarrow> d2 = d)"
proof -
  from assms(1) have "mem" by (cases mem) (auto simp: NvHaikuDevice_Open_def)
  with assms(1) have acquired: "AcquireRef env d = (B_OK, d1)" by (simp add: Open_AcquireRef)
  show ?thesis
  proof (cases "fOpenCount d = 0")
    case True
    then have "fOpenCount d1 = 1" using AcquireRef_first [OF True acquired] by simp
    then show ?thesis using assms(2) True
      by (auto simp: NvHaikuDeviceHandle_Close_def NvHaikuDevice_Closed_def NvHaikuBaseDeviceHandle_Close_def
          ReleaseRef_def Let_def)
  next
    case False
    then have "d1 = d\<lparr>fOpenCount := fOpenCount d + 1\<rparr>" using acquired by (simp add: AcquireRef_open)
    then show ?thesis using assms(2) False
      by (auto simp: NvHaikuDeviceHandle_Close_def NvHaikuDevice_Closed_def NvHaikuBaseDeviceHandle_Close_def
          ReleaseRef_def Let_def)
  qed
qed

section \<open>Events of the mode setting module\<close>

text \<open>\<open>pOpenKernel\<close> is the address of the handle; \<open>handles\<close> are those of the open files.\<close>

definition nvkms_event_queue_changed ::
    "'p select_pool \<Rightarrow> ptr \<Rightarrow> bool \<Rightarrow> (ptr \<rightharpoonup> 'p kms_handle) \<Rightarrow> ((ptr \<rightharpoonup> 'p kms_handle) \<times> nat set) option" where
  "nvkms_event_queue_changed P pOpenKernel eventsAvailable handles =
     map_option (\<lambda>h. case NvHaikuKmsDeviceHandle_EventQueueChanged P eventsAvailable h of
         (h, woken) \<Rightarrow> (handles(pOpenKernel \<mapsto> h), woken)) (handles pOpenKernel)"

text \<open>Only the file named is changed, and who waits for it is woken exactly when there are events.\<close>

lemma event_reaches_its_file:
  assumes "nvkms_event_queue_changed P p ev handles = Some (handles', woken)" "handles p = Some h"
  shows "handles' = handles(p \<mapsto> h\<lparr>fEventsAvailable := ev\<rparr>) \<and> woken = (if ev then pool_syncs P (fSelectPool h) else {})"
  using assms by (auto simp: nvkms_event_queue_changed_def NvHaikuKmsDeviceHandle_EventQueueChanged_def Let_def)

section \<open>The life of the timer queue\<close>

text \<open>The calls on the kernel's queue; \<open>Init\<close> answers what the queue answers, \<open>Fini\<close> closes it and waits
  for the timers that are in it.\<close>

definition NvTimerQueue_Init :: "unit status \<Rightarrow> unit status \<times> kms_call list" where
  "NvTimerQueue_Init queue = (queue, if queue = B_OK then [QueueInit] else [])"

definition NvTimerQueue_Fini :: "kms_call list" where "NvTimerQueue_Fini = [QueueClose]"

text \<open>The driver opens the queue through \<open>Init\<close>, but it never calls \<open>Fini\<close>: the destructor of the kernel's
  queue closes it.\<close>

lemma driver_opens_queue:
  assumes "ki_get_module E = B_OK" "NvHaikuKmsDriver_Init E d = (r, queue, d', calls)"
  shows "queue = (fst (NvTimerQueue_Init (ki_queue E)) = B_OK) \<and> (QueueInit \<in> set calls) = queue"
  using assms by (auto simp: NvHaikuKmsDriver_Init_def NvTimerQueue_Init_def Let_def split: sum.splits if_splits)

end
