(* ===== verification/Handles.thy ===== *)
theory Handles
  imports Prelude "HOL-Library.Multiset"
begin

text \<open>
  The move-only handle classes of \<open>nvrm_cpp_sdk\<close>: \<open>FileDesc\<close>, \<open>NvRmObject\<close>, \<open>NvKmsSurface\<close>
  and \<open>NvRmMemoryMapping\<close>. Each owns at most one resource; its destructor and its move assignment
  release it, a move takes it over. The contract they share is the locale \<open>unique_owner\<close>: what a
  client of such a class relies on, namely that whatever it moves around, every resource handed in
  is released exactly once.

  A method that releases something returns the list of the releases it makes. A release that fails
  throws; in a destructor that ends the program.
\<close>

section \<open>The contract of a move-only owner\<close>

text \<open>Programs over a list of objects: move-assign one from another, from a temporary that holds a
  new resource, move-construct a further object, or destroy one (which leaves an empty slot).\<close>

datatype 'o own_op = Assign nat nat | Fresh nat 'o | Construct nat | Destroy nat

fun own_step ::
    "('o \<Rightarrow> 'r list) \<Rightarrow> ('o \<Rightarrow> 'o \<times> 'o) \<Rightarrow> ('o \<Rightarrow> 'o \<Rightarrow> 'o \<times> 'o \<times> 'r list) \<Rightarrow> 'o \<Rightarrow>
     'o own_op \<Rightarrow> 'o list \<Rightarrow> 'o list \<times> 'r list" where
  "own_step dtor ctor assign blank (Assign i j) xs =
     (let (x, y, rel) = assign (xs ! i) (xs ! j) in (xs[i := x, j := y], rel))"
| "own_step dtor ctor assign blank (Fresh i tmp) xs =
     (let (x, y, rel) = assign (xs ! i) tmp in (xs[i := x], rel @ dtor y))"
| "own_step dtor ctor assign blank (Construct j) xs =
     (let (y, x) = ctor (xs ! j) in (xs[j := x] @ [y], []))"
| "own_step dtor ctor assign blank (Destroy i) xs = (xs[i := blank], dtor (xs ! i))"

fun own_ok :: "'o own_op list \<Rightarrow> nat \<Rightarrow> bool" where
  "own_ok [] n = True"
| "own_ok (Assign i j # ops) n = (i < n \<and> j < n \<and> i \<noteq> j \<and> own_ok ops n)"
| "own_ok (Fresh i tmp # ops) n = (i < n \<and> own_ok ops n)"
| "own_ok (Construct j # ops) n = (j < n \<and> own_ok ops (Suc n))"
| "own_ok (Destroy i # ops) n = (i < n \<and> own_ok ops n)"

text \<open>A program, and then the destructors of all objects.\<close>

fun own_run ::
    "('o \<Rightarrow> 'r list) \<Rightarrow> ('o \<Rightarrow> 'o \<times> 'o) \<Rightarrow> ('o \<Rightarrow> 'o \<Rightarrow> 'o \<times> 'o \<times> 'r list) \<Rightarrow> 'o \<Rightarrow>
     'o own_op list \<Rightarrow> 'o list \<Rightarrow> 'r list" where
  "own_run dtor ctor assign blank [] xs = concat (map dtor xs)"
| "own_run dtor ctor assign blank (op # ops) xs =
     (let (xs', rel) = own_step dtor ctor assign blank op xs
      in rel @ own_run dtor ctor assign blank ops xs')"

fun acquired :: "('o \<Rightarrow> 'r list) \<Rightarrow> 'o own_op list \<Rightarrow> 'r list" where
  "acquired owned [] = []"
| "acquired owned (Fresh i tmp # ops) = owned tmp @ acquired owned ops"
| "acquired owned (op # ops) = acquired owned ops"

lemma mset_concat_update:
  "i < length xs \<Longrightarrow>
     mset (concat (map f (xs[i := y]))) + mset (f (xs ! i)) = mset (concat (map f xs)) + mset (f y)"
proof (induction xs arbitrary: i)
  case (Cons x xs)
  then show ?case by (cases i) (auto simp: ac_simps)
qed simp

lemma mset_moved: "n + c = m \<Longrightarrow> m + a = e + c \<Longrightarrow> n + a = (e :: 'a multiset)"
  by (metis add.commute add.left_commute add_left_imp_eq)

locale unique_owner =
  fixes owned :: "'o \<Rightarrow> 'r list"
    and dtor :: "'o \<Rightarrow> 'r list"
    and ctor :: "'o \<Rightarrow> 'o \<times> 'o"
    and assign :: "'o \<Rightarrow> 'o \<Rightarrow> 'o \<times> 'o \<times> 'r list"
    and blank :: 'o
  assumes dtor_owned: "dtor x = owned x"
    and owned_empty: "owned blank = []"
    and ctor_moves: "ctor x = (y, x') \<Longrightarrow> owned y = owned x \<and> owned x' = []"
    and assign_moves: "assign x y = (x', y', rel) \<Longrightarrow>
          owned x' = owned y \<and> owned y' = [] \<and> rel = owned x"
begin

lemma step_conserves:
  assumes "own_ok (op # ops) (length xs)" "own_step dtor ctor assign blank op xs = (xs', rel)"
  shows "mset (concat (map owned xs')) + mset rel = mset (concat (map owned xs)) + mset (acquired owned [op])
         \<and> own_ok ops (length xs')"
proof (cases op)
  case (Assign i j)
  obtain x y r where a: "assign (xs ! i) (xs ! j) = (x, y, r)" by (cases "assign (xs ! i) (xs ! j)")
  with assms Assign have ij: "i < length xs" "j < length xs" "i \<noteq> j"
    and xs': "xs' = xs[i := x, j := y]" "rel = r" and ok: "own_ok ops (length xs')" by auto
  from assign_moves [OF a] have *: "owned x = owned (xs ! j)" "owned y = []" "r = owned (xs ! i)" by simp_all
  have "mset (concat (map owned (xs[i := x, j := y]))) + mset (owned (xs ! j)) =
      mset (concat (map owned (xs[i := x])))"
    using mset_concat_update [of j "xs[i := x]" owned y] ij * by simp
  moreover have "mset (concat (map owned (xs[i := x]))) + mset (owned (xs ! i)) =
      mset (concat (map owned xs)) + mset (owned (xs ! j))"
    using mset_concat_update [of i xs owned x] ij * by simp
  ultimately have "mset (concat (map owned (xs[i := x, j := y]))) + mset (owned (xs ! i)) =
      mset (concat (map owned xs))" by (rule mset_moved)
  then show ?thesis using xs' ok Assign * by simp
next
  case (Fresh i tmp)
  obtain x y r where a: "assign (xs ! i) tmp = (x, y, r)" by (cases "assign (xs ! i) tmp")
  with assms Fresh have i: "i < length xs" and xs': "xs' = xs[i := x]" "rel = r @ dtor y"
    and ok: "own_ok ops (length xs')" by auto
  from assign_moves [OF a] have "owned x = owned tmp" "owned y = []" "r = owned (xs ! i)" by simp_all
  with mset_concat_update [of i xs owned x] i xs' ok Fresh show ?thesis
    by (simp add: dtor_owned ac_simps)
next
  case (Construct j)
  obtain y x where c: "ctor (xs ! j) = (y, x)" by (cases "ctor (xs ! j)")
  with assms Construct have j: "j < length xs" and xs': "xs' = xs[j := x] @ [y]" "rel = []"
    and ok: "own_ok ops (length xs')" by auto
  from ctor_moves [OF c] have "owned y = owned (xs ! j)" "owned x = []" by simp_all
  with mset_concat_update [of j xs owned x] j xs' ok Construct show ?thesis by (simp add: ac_simps)
next
  case (Destroy i)
  with assms have i: "i < length xs" and xs': "xs' = xs[i := blank]" "rel = dtor (xs ! i)"
    and ok: "own_ok ops (length xs')" by auto
  from mset_concat_update [of i xs owned blank] i xs' ok Destroy show ?thesis
    by (simp add: dtor_owned owned_empty)
qed

lemma acquired_Cons: "mset (acquired owned (op # ops)) = mset (acquired owned [op]) + mset (acquired owned ops)"
  by (cases op) simp_all

text \<open>Every resource is released exactly once: those the objects own at the start and those handed
  in on the way.\<close>

lemma released_once:
  "own_ok ops (length xs) \<Longrightarrow>
     mset (own_run dtor ctor assign blank ops xs) = mset (concat (map owned xs)) + mset (acquired owned ops)"
proof (induction ops arbitrary: xs)
  case Nil
  have "map dtor xs = map owned xs" by (simp add: dtor_owned)
  then show ?case by (simp only: own_run.simps acquired.simps) simp
next
  case (Cons op ops)
  obtain xs' rel where step: "own_step dtor ctor assign blank op xs = (xs', rel)"
    by (cases "own_step dtor ctor assign blank op xs")
  from step_conserves [OF Cons.prems step] have
    *: "mset (concat (map owned xs')) + mset rel = mset (concat (map owned xs)) + mset (acquired owned [op])"
    and ok: "own_ok ops (length xs')" by simp_all
  from Cons.IH [OF ok] * step show ?case
    by (simp add: acquired_Cons [of op ops] ac_simps)
qed

end

section \<open>FileDesc\<close>

record FileDesc = fFd :: int

definition FileDesc_new :: FileDesc where "FileDesc_new = \<lparr>fFd = -1\<rparr>"
definition FileDesc_of :: "int \<Rightarrow> FileDesc" where "FileDesc_of fd = \<lparr>fFd = fd\<rparr>"

definition FileDesc_IsSet :: "FileDesc \<Rightarrow> bool" where "FileDesc_IsSet f \<longleftrightarrow> 0 \<le> fFd f"

definition FileDesc_ctor :: "FileDesc \<Rightarrow> FileDesc \<times> FileDesc" where
  "FileDesc_ctor other = (\<lparr>fFd = fFd other\<rparr>, other\<lparr>fFd := -1\<rparr>)"

text \<open>The list holds the descriptors that are closed.\<close>

definition FileDesc_dtor :: "FileDesc \<Rightarrow> int list" where
  "FileDesc_dtor f = (if FileDesc_IsSet f then [fFd f] else [])"

definition FileDesc_assign :: "FileDesc \<Rightarrow> FileDesc \<Rightarrow> FileDesc \<times> FileDesc \<times> int list" where
  "FileDesc_assign this other =
     (let rel = (if FileDesc_IsSet this then [fFd this] else [])
      in (this\<lparr>fFd := fFd other\<rparr>, other\<lparr>fFd := -1\<rparr>, rel))"

definition FileDesc_Get :: "FileDesc \<Rightarrow> int" where [simp]: "FileDesc_Get x = fFd x"

definition FileDesc_Detach :: "FileDesc \<Rightarrow> int \<times> FileDesc" where
  "FileDesc_Detach f = (fFd f, f\<lparr>fFd := -1\<rparr>)"

interpretation fd: unique_owner FileDesc_dtor FileDesc_dtor FileDesc_ctor FileDesc_assign FileDesc_new
  by unfold_locales
    (auto simp: FileDesc_dtor_def FileDesc_ctor_def FileDesc_assign_def FileDesc_new_def
      FileDesc_IsSet_def Let_def)

section \<open>NvRmObject\<close>

record NvRmObject =
  fRm :: ptr
  fHObject :: u32

definition NvRmObject_new :: NvRmObject where "NvRmObject_new = \<lparr>fRm = nullptr, fHObject = 0\<rparr>"
definition NvRmObject_of :: "ptr \<Rightarrow> u32 \<Rightarrow> NvRmObject" where
  "NvRmObject_of rm h = \<lparr>fRm = rm, fHObject = h\<rparr>"

definition NvRmObject_ctor :: "NvRmObject \<Rightarrow> NvRmObject \<times> NvRmObject" where
  "NvRmObject_ctor other = (\<lparr>fRm = fRm other, fHObject = fHObject other\<rparr>, other\<lparr>fHObject := 0\<rparr>)"

text \<open>The list holds the calls \<open>fRm->Free(fHObject)\<close>.\<close>

definition NvRmObject_dtor :: "NvRmObject \<Rightarrow> (ptr \<times> u32) list" where
  "NvRmObject_dtor ob = (if fHObject ob \<noteq> 0 then [(fRm ob, fHObject ob)] else [])"

definition NvRmObject_assign ::
    "NvRmObject \<Rightarrow> NvRmObject \<Rightarrow> NvRmObject \<times> NvRmObject \<times> (ptr \<times> u32) list" where
  "NvRmObject_assign this other =
     (let rel = (if fHObject this \<noteq> 0 then [(fRm this, fHObject this)] else [])
      in (this\<lparr>fRm := fRm other, fHObject := fHObject other\<rparr>, other\<lparr>fHObject := 0\<rparr>, rel))"

definition NvRmObject_Get :: "NvRmObject \<Rightarrow> u32" where [simp]: "NvRmObject_Get x = fHObject x"

definition NvRmObject_Detach :: "NvRmObject \<Rightarrow> u32 \<times> NvRmObject" where
  "NvRmObject_Detach ob = (fHObject ob, ob\<lparr>fHObject := 0\<rparr>)"

interpretation rmobj: unique_owner NvRmObject_dtor NvRmObject_dtor NvRmObject_ctor NvRmObject_assign
    NvRmObject_new
  by unfold_locales
    (auto simp: NvRmObject_dtor_def NvRmObject_ctor_def NvRmObject_assign_def NvRmObject_new_def Let_def)

section \<open>NvKmsSurface\<close>

record NvKmsSurface =
  fKmsDev :: ptr
  fHandle :: u32

definition NvKmsSurface_new :: NvKmsSurface where "NvKmsSurface_new = \<lparr>fKmsDev = nullptr, fHandle = 0\<rparr>"
definition NvKmsSurface_of :: "ptr \<Rightarrow> u32 \<Rightarrow> NvKmsSurface" where
  "NvKmsSurface_of dev h = \<lparr>fKmsDev = dev, fHandle = h\<rparr>"

definition NvKmsSurface_IsSet :: "NvKmsSurface \<Rightarrow> bool" where "NvKmsSurface_IsSet s \<longleftrightarrow> fHandle s \<noteq> 0"

definition NvKmsSurface_ctor :: "NvKmsSurface \<Rightarrow> NvKmsSurface \<times> NvKmsSurface" where
  "NvKmsSurface_ctor other = (\<lparr>fKmsDev = fKmsDev other, fHandle = fHandle other\<rparr>, other\<lparr>fHandle := 0\<rparr>)"

text \<open>\<open>Delete\<close> issues \<open>NVKMS_IOCTL_UNREGISTER_SURFACE\<close> for this device and handle.\<close>

definition NvKmsSurface_Delete :: "NvKmsSurface \<Rightarrow> (ptr \<times> u32) list" where
  "NvKmsSurface_Delete s = [(fKmsDev s, fHandle s)]"

definition NvKmsSurface_dtor :: "NvKmsSurface \<Rightarrow> (ptr \<times> u32) list" where
  "NvKmsSurface_dtor s = (if fHandle s \<noteq> 0 then NvKmsSurface_Delete s else [])"

definition NvKmsSurface_assign ::
    "NvKmsSurface \<Rightarrow> NvKmsSurface \<Rightarrow> NvKmsSurface \<times> NvKmsSurface \<times> (ptr \<times> u32) list" where
  "NvKmsSurface_assign this other =
     (let rel = (if fHandle this \<noteq> 0 then NvKmsSurface_Delete this else [])
      in (this\<lparr>fKmsDev := fKmsDev other, fHandle := fHandle other\<rparr>, other\<lparr>fHandle := 0\<rparr>, rel))"

definition NvKmsSurface_Get :: "NvKmsSurface \<Rightarrow> u32" where [simp]: "NvKmsSurface_Get x = fHandle x"

definition NvKmsSurface_Detach :: "NvKmsSurface \<Rightarrow> u32 \<times> NvKmsSurface" where
  "NvKmsSurface_Detach s = (fHandle s, s\<lparr>fHandle := 0\<rparr>)"

interpretation surf: unique_owner NvKmsSurface_dtor NvKmsSurface_dtor NvKmsSurface_ctor
    NvKmsSurface_assign NvKmsSurface_new
  by unfold_locales
    (auto simp: NvKmsSurface_dtor_def NvKmsSurface_ctor_def NvKmsSurface_assign_def
      NvKmsSurface_new_def NvKmsSurface_Delete_def Let_def)

section \<open>NvRmMemoryMapping\<close>

record NvRmMemoryMapping =
  mRm :: ptr
  fHDevice :: u32
  fHMemory :: u32
  fPLinearAddress :: ptr
  fFlags :: u32
  fAddress :: ptr
  fSize :: u64
  fArea :: int

text \<open>What \<open>Delete\<close> gives back: the area it passes to \<open>delete_area\<close>, and the mapping it passes to
  \<open>UnmapMemory\<close>.\<close>

type_synonym rm_mapping = "ptr \<times> u32 \<times> u32 \<times> ptr \<times> u32"

definition NvRmMemoryMapping_new :: NvRmMemoryMapping where
  "NvRmMemoryMapping_new = \<lparr>mRm = nullptr, fHDevice = 0, fHMemory = 0, fPLinearAddress = nullptr,
     fFlags = 0, fAddress = nullptr, fSize = 0, fArea = -1\<rparr>"

definition NvRmMemoryMapping_of :: "ptr \<Rightarrow> u32 \<Rightarrow> u32 \<Rightarrow> ptr \<Rightarrow> u32 \<Rightarrow> ptr \<Rightarrow> u64 \<Rightarrow> int \<Rightarrow> NvRmMemoryMapping" where
  [simp]: "NvRmMemoryMapping_of rm hDevice hMemory pLinearAddress flags address len area =
     \<lparr>mRm = rm, fHDevice = hDevice, fHMemory = hMemory, fPLinearAddress = pLinearAddress, fFlags = flags,
      fAddress = address, fSize = len, fArea = area\<rparr>"

definition Address :: "NvRmMemoryMapping \<Rightarrow> ptr" where
  [simp]: "Address m = fAddress m"

definition NvRmMemoryMapping_IsSet :: "NvRmMemoryMapping \<Rightarrow> bool" where
  "NvRmMemoryMapping_IsSet m \<longleftrightarrow> fAddress m \<noteq> nullptr"

definition NvRmMemoryMapping_Delete :: "NvRmMemoryMapping \<Rightarrow> (int \<times> rm_mapping) list" where
  "NvRmMemoryMapping_Delete m = [(fArea m, mRm m, fHDevice m, fHMemory m, fPLinearAddress m, fFlags m)]"

definition NvRmMemoryMapping_ctor :: "NvRmMemoryMapping \<Rightarrow> NvRmMemoryMapping \<times> NvRmMemoryMapping" where
  "NvRmMemoryMapping_ctor other =
     (\<lparr>mRm = mRm other, fHDevice = fHDevice other, fHMemory = fHMemory other,
       fPLinearAddress = fPLinearAddress other, fFlags = fFlags other, fAddress = fAddress other,
       fSize = fSize other, fArea = fArea other\<rparr>, other\<lparr>fAddress := nullptr\<rparr>)"

definition NvRmMemoryMapping_dtor :: "NvRmMemoryMapping \<Rightarrow> (int \<times> rm_mapping) list" where
  "NvRmMemoryMapping_dtor m = (if NvRmMemoryMapping_IsSet m then NvRmMemoryMapping_Delete m else [])"

text \<open>The move assignment copies every field but \<open>fArea\<close>.\<close>

definition NvRmMemoryMapping_assign ::
    "NvRmMemoryMapping \<Rightarrow> NvRmMemoryMapping \<Rightarrow>
     NvRmMemoryMapping \<times> NvRmMemoryMapping \<times> (int \<times> rm_mapping) list" where
  "NvRmMemoryMapping_assign this other =
     (let rel = (if NvRmMemoryMapping_IsSet this then NvRmMemoryMapping_Delete this else [])
      in (this\<lparr>mRm := mRm other, fHDevice := fHDevice other, fHMemory := fHMemory other,
               fPLinearAddress := fPLinearAddress other, fFlags := fFlags other,
               fAddress := fAddress other, fSize := fSize other\<rparr>,
          other\<lparr>fAddress := nullptr\<rparr>, rel))"

text \<open>Seen from the resource manager alone the class keeps the contract.\<close>

definition mapping_owned :: "NvRmMemoryMapping \<Rightarrow> rm_mapping list" where
  "mapping_owned m = map snd (NvRmMemoryMapping_dtor m)"

definition mapping_assign_rm ::
    "NvRmMemoryMapping \<Rightarrow> NvRmMemoryMapping \<Rightarrow> NvRmMemoryMapping \<times> NvRmMemoryMapping \<times> rm_mapping list" where
  "mapping_assign_rm this other =
     (let (x, y, rel) = NvRmMemoryMapping_assign this other in (x, y, map snd rel))"

interpretation map_rm: unique_owner mapping_owned mapping_owned NvRmMemoryMapping_ctor mapping_assign_rm
    NvRmMemoryMapping_new
  by unfold_locales
    (auto simp: mapping_owned_def mapping_assign_rm_def NvRmMemoryMapping_dtor_def
      NvRmMemoryMapping_ctor_def NvRmMemoryMapping_assign_def NvRmMemoryMapping_new_def
      NvRmMemoryMapping_Delete_def NvRmMemoryMapping_IsSet_def Let_def)

section \<open>Properties\<close>



text \<open>
  A mapping that is assigned loses its area: after \<open>fMapping = rmDev.MapMemory(...)\<close> on a new
  object the destructor asks the kernel to delete area -1 and never the area of the mapping, so the
  area stays mapped while the resource manager is told that the memory is unmapped.
\<close>

lemma mapping_assign_loses_area:
  assumes "NvRmMemoryMapping_IsSet m"
  shows "case NvRmMemoryMapping_assign NvRmMemoryMapping_new m of (this, other, rel) \<Rightarrow>
           rel @ NvRmMemoryMapping_dtor this @ NvRmMemoryMapping_dtor other =
           [(-1, mRm m, fHDevice m, fHMemory m, fPLinearAddress m, fFlags m)]"
  using assms
  by (simp add: NvRmMemoryMapping_assign_def NvRmMemoryMapping_new_def NvRmMemoryMapping_dtor_def
      NvRmMemoryMapping_IsSet_def NvRmMemoryMapping_Delete_def Let_def)

end
