(* ===== verification/RmApi.thy ===== *)
theory RmApi
  imports Handles
begin

text \<open>
  The client side of the resource manager: \<open>nvrm_cpp_sdk/ErrorUtils\<close>, \<open>NvRmApi\<close> and
  \<open>NvRmDevice\<close>. The kernel is a parameter: a function for each \<open>ioctl\<close> that takes the parameter
  block and the kernel's state and yields the result, \<open>errno\<close>, the block it wrote back and its new
  state. A C++ exception is the left value of a sum.
\<close>

section \<open>Errors\<close>

datatype errno = EINTR | EAGAIN | ERR error

datatype sys_error = GenericError errno | NvStatusError u32

definition CheckErrno :: "int \<Rightarrow> errno \<Rightarrow> sys_error + unit" where
  "CheckErrno res err = (if res < 0 then Inl (GenericError err) else Inr ())"

definition CheckNvStatus :: "u32 \<Rightarrow> sys_error + unit" where
  "CheckNvStatus res = (if res \<noteq> 0 then Inl (NvStatusError res) else Inr ())"

text \<open>Both raise; the text of the exception is what the C library says of an error number, or the NVIDIA
  library of a status.\<close>

definition RaiseErrno :: "errno \<Rightarrow> sys_error + 'a" where "RaiseErrno err = Inl (GenericError err)"
definition RaiseNvStatus :: "u32 \<Rightarrow> sys_error + 'a" where "RaiseNvStatus res = Inl (NvStatusError res)"

definition NvStatusErrorCategory_name :: string where "NvStatusErrorCategory_name = ''NV_STATUS''"
definition NvStatusErrorCategory_message :: "(u32 \<Rightarrow> string) \<Rightarrow> u32 \<Rightarrow> string" where
  "NvStatusErrorCategory_message nvstatusToString ev = nvstatusToString ev"

lemma checks_raise:
  "CheckErrno res err = (if res < 0 then RaiseErrno err else Inr ())"
  "CheckNvStatus st = (if st \<noteq> 0 then RaiseNvStatus st else Inr ())"
  by (simp_all add: CheckErrno_def CheckNvStatus_def RaiseErrno_def RaiseNvStatus_def)

section \<open>The retry loop\<close>

type_synonym ('p, 'k) ioctl_fn = "int \<Rightarrow> u32 \<Rightarrow> 'p \<Rightarrow> 'k \<Rightarrow> int \<times> errno \<times> 'p \<times> 'k"

definition retryable :: "int \<Rightarrow> errno \<Rightarrow> bool" where
  "retryable res err \<longleftrightarrow> res < 0 \<and> (err = EINTR \<or> err = EAGAIN)"

text \<open>\<open>NV_HAIKU_BASE\<close> is \<open>B_DEVICE_OP_CODES_END + 1\<close>.\<close>

definition NV_HAIKU_BASE :: "u32 \<Rightarrow> u32" where "NV_HAIKU_BASE op_codes_end = op_codes_end + 1"
definition NV_HAIKU_GET_COOKIE :: u32 where "NV_HAIKU_GET_COOKIE = 0"
definition NV_HAIKU_MAP :: u32 where "NV_HAIKU_MAP = 1"

partial_function (option) ioctl_loop ::
    "('p \<Rightarrow> 'k \<Rightarrow> int \<times> errno \<times> 'p \<times> 'k) \<Rightarrow> 'p \<Rightarrow> 'k \<Rightarrow> (int \<times> errno \<times> 'p \<times> 'k) option" where
  "ioctl_loop io p k =
     (let (res, err, p1, k1) = io p k
      in if retryable res err then ioctl_loop io p1 k1 else Some (res, err, p1, k1))"

definition NvRmIoctl ::
    "u32 \<Rightarrow> ('p, 'k) ioctl_fn \<Rightarrow> int \<Rightarrow> u32 \<Rightarrow> 'p \<Rightarrow> 'k \<Rightarrow> (int \<times> errno \<times> 'p \<times> 'k) option" where
  "NvRmIoctl base ioctl fd cmd p k = ioctl_loop (\<lambda>p k. ioctl fd (cmd + base) p k) p k"

text \<open>The state of the loop after \<open>n\<close> calls.\<close>

fun ioctl_iter :: "('p \<Rightarrow> 'k \<Rightarrow> int \<times> errno \<times> 'p \<times> 'k) \<Rightarrow> nat \<Rightarrow> 'p \<Rightarrow> 'k \<Rightarrow> int \<times> errno \<times> 'p \<times> 'k" where
  "ioctl_iter io 0 p k = io p k"
| "ioctl_iter io (Suc n) p k = (let (res, err, p1, k1) = io p k in ioctl_iter io n p1 k1)"

definition gives_up :: "int \<times> errno \<times> 'p \<times> 'k \<Rightarrow> bool" where
  "gives_up r \<longleftrightarrow> \<not> retryable (fst r) (fst (snd r))"

lemma ioctl_loop_unfold:
  "ioctl_loop io p k =
     (case io p k of (res, err, p1, k1) \<Rightarrow>
        if retryable res err then ioctl_loop io p1 k1 else Some (res, err, p1, k1))"
  by (subst ioctl_loop.simps) (simp add: Let_def)

lemma ioctl_loop_iter:
  "gives_up (ioctl_iter io n p k) \<Longrightarrow> (\<And>m. m < n \<Longrightarrow> \<not> gives_up (ioctl_iter io m p k)) \<Longrightarrow>
     ioctl_loop io p k = Some (ioctl_iter io n p k)"
proof (induction n arbitrary: p k)
  case 0
  then show ?case
    by (cases "io p k") (simp add: ioctl_loop_unfold [of io p k] gives_up_def)
next
  case (Suc n)
  obtain res err p1 k1 where io: "io p k = (res, err, p1, k1)" by (cases "io p k")
  from Suc.prems(2) [of 0] io have retry: "retryable res err" by (simp add: gives_up_def)
  have "ioctl_loop io p1 k1 = Some (ioctl_iter io n p1 k1)"
  proof (rule Suc.IH)
    show "gives_up (ioctl_iter io n p1 k1)" using Suc.prems(1) io by simp
    fix m
    assume "m < n"
    then show "\<not> gives_up (ioctl_iter io m p1 k1)" using Suc.prems(2) [of "Suc m"] io by simp
  qed
  with io retry show ?case by (simp add: ioctl_loop_unfold [of io p k])
qed

lemma ioctl_loop_Some:
  "ioctl_loop io p k = Some r \<Longrightarrow>
     \<exists>n. r = ioctl_iter io n p k \<and> gives_up r \<and> (\<forall>m < n. \<not> gives_up (ioctl_iter io m p k))"
proof (induction rule: ioctl_loop.raw_induct [rotated, consumes 1, case_names step])
  case (step loop io p k r)
  obtain res err p1 k1 where io: "io p k = (res, err, p1, k1)" by (cases "io p k")
  show ?case
  proof (cases "retryable res err")
    case False
    with step(2) io have "r = io p k" "gives_up r" by (auto simp: gives_up_def)
    then show ?thesis by (intro exI [of _ 0]) simp
  next
    case True
    with step(2) io have "loop io p1 k1 = Some r" by simp
    from step(1) [OF this] obtain n where n: "r = ioctl_iter io n p1 k1" "gives_up r"
      "\<forall>m < n. \<not> gives_up (ioctl_iter io m p1 k1)" by blast
    with io True show ?thesis
      by (intro exI [of _ "Suc n"]) (auto simp: less_Suc_eq_0_disj gives_up_def)
  qed
qed



section \<open>NvRmApi\<close>

text \<open>Escape codes and class numbers of the resource manager's headers.\<close>

record nv_codes =
  HAIKU_BASE :: u32
  NV_ESC_RM_ALLOC :: u32
  NV_ESC_RM_FREE :: u32
  NV_ESC_RM_CONTROL :: u32
  NV_ESC_RM_MAP_MEMORY :: u32
  NV_ESC_RM_UNMAP_MEMORY :: u32
  NV_ESC_ALLOC_OS_EVENT :: u32
  NV_ESC_FREE_OS_EVENT :: u32
  NV_ESC_CARD_INFO :: u32
  NV01_ROOT_CLIENT :: u32
  NV01_DEVICE_0 :: u32
  NV20_SUBDEVICE_0 :: u32

record NvRmApi =
  apiFd :: FileDesc
  fClient :: NvRmObject

record NVOS21 =
  os21_hRoot :: u32
  os21_hObjectParent :: u32
  os21_hObjectNew :: u32
  os21_hClass :: u32
  os21_pAllocParms :: ptr
  os21_paramsSize :: u32
  os21_status :: u32

record NVOS00 =
  os00_hRoot :: u32
  os00_hObjectOld :: u32
  os00_status :: u32

record NVOS54 =
  os54_hClient :: u32
  os54_hObject :: u32
  os54_cmd :: u32
  os54_flags :: u32
  os54_params :: ptr
  os54_paramsSize :: u32
  os54_status :: u32

record NVOS33 =
  os33_hClient :: u32
  os33_hDevice :: u32
  os33_hMemory :: u32
  os33_offset :: u64
  os33_length :: u64
  os33_pLinearAddress :: ptr
  os33_status :: u32
  os33_flags :: u32
  os33_fd :: int

record NVOS34 =
  os34_hClient :: u32
  os34_hDevice :: u32
  os34_hMemory :: u32
  os34_pLinearAddress :: ptr
  os34_status :: u32
  os34_flags :: u32

record os_event =
  ev_hClient :: u32
  ev_fd :: u32
  ev_Status :: u32

text \<open>What each wrapper does with the answer: \<open>CheckErrno(ret); CheckNvStatus(p.status);\<close>. No
  value when the retry loop does not end.\<close>

definition rm_checked ::
    "(int \<times> errno \<times> 'p \<times> 'k) option \<Rightarrow> ('p \<Rightarrow> u32) \<Rightarrow> ('p \<Rightarrow> 'a) \<Rightarrow> ((sys_error + 'a) \<times> 'k) option" where
  "rm_checked answer status result =
     map_option (\<lambda>(ret, err, p, k).
       (case CheckErrno ret err of
          Inl e \<Rightarrow> Inl e
        | Inr _ \<Rightarrow> (case CheckNvStatus (status p) of Inl e \<Rightarrow> Inl e | Inr _ \<Rightarrow> Inr (result p)), k)) answer"

definition NvRmApi_Alloc ::
    "nv_codes \<Rightarrow> (NVOS21, 'k) ioctl_fn \<Rightarrow> NvRmApi \<Rightarrow> u32 \<Rightarrow> u32 \<Rightarrow> ptr \<Rightarrow> u32 \<Rightarrow> 'k \<Rightarrow>
     ((sys_error + u32) \<times> 'k) option" where
  "NvRmApi_Alloc c ioctl rm hClass hParent params paramsSize k =
     (let p = \<lparr>os21_hRoot = fHObject (fClient rm), os21_hObjectParent = hParent, os21_hObjectNew = 0,
               os21_hClass = hClass, os21_pAllocParms = params, os21_paramsSize = paramsSize,
               os21_status = 0\<rparr>
      in rm_checked (NvRmIoctl (HAIKU_BASE c) ioctl (fFd (apiFd rm)) (NV_ESC_RM_ALLOC c) p k)
           os21_status os21_hObjectNew)"

definition NvRmApi_Free ::
    "nv_codes \<Rightarrow> (NVOS00, 'k) ioctl_fn \<Rightarrow> NvRmApi \<Rightarrow> u32 \<Rightarrow> 'k \<Rightarrow> ((sys_error + unit) \<times> 'k) option" where
  "NvRmApi_Free c ioctl rm hObject k =
     (let p = \<lparr>os00_hRoot = fHObject (fClient rm), os00_hObjectOld = hObject, os00_status = 0\<rparr>
      in rm_checked (NvRmIoctl (HAIKU_BASE c) ioctl (fFd (apiFd rm)) (NV_ESC_RM_FREE c) p k)
           os00_status (\<lambda>_. ()))"

definition NvRmApi_Control ::
    "nv_codes \<Rightarrow> (NVOS54, 'k) ioctl_fn \<Rightarrow> NvRmApi \<Rightarrow> u32 \<Rightarrow> u32 \<Rightarrow> ptr \<Rightarrow> u32 \<Rightarrow> u32 \<Rightarrow> 'k \<Rightarrow>
     ((sys_error + unit) \<times> 'k) option" where
  "NvRmApi_Control c ioctl rm hObject cmd params paramsSize flags k =
     (let p = \<lparr>os54_hClient = fHObject (fClient rm), os54_hObject = hObject, os54_cmd = cmd,
               os54_flags = flags, os54_params = params, os54_paramsSize = paramsSize, os54_status = 0\<rparr>
      in rm_checked (NvRmIoctl (HAIKU_BASE c) ioctl (fFd (apiFd rm)) (NV_ESC_RM_CONTROL c) p k)
           os54_status (\<lambda>_. ()))"

text \<open>\<open>pLinearAddress\<close> is passed in and written back only on success.\<close>

definition NvRmApi_MapMemory ::
    "nv_codes \<Rightarrow> (NVOS33, 'k) ioctl_fn \<Rightarrow> NvRmApi \<Rightarrow> u32 \<Rightarrow> u32 \<Rightarrow> u64 \<Rightarrow> u64 \<Rightarrow> ptr \<Rightarrow> u32 \<Rightarrow> int \<Rightarrow> 'k \<Rightarrow>
     ((sys_error + ptr) \<times> 'k) option" where
  "NvRmApi_MapMemory c ioctl rm hDevice hMemory offset len pLinearAddress flags memFd k =
     (let p = \<lparr>os33_hClient = fHObject (fClient rm), os33_hDevice = hDevice, os33_hMemory = hMemory,
               os33_offset = offset, os33_length = len, os33_pLinearAddress = pLinearAddress,
               os33_status = 0, os33_flags = flags, os33_fd = memFd\<rparr>
      in rm_checked (NvRmIoctl (HAIKU_BASE c) ioctl (fFd (apiFd rm)) (NV_ESC_RM_MAP_MEMORY c) p k)
           os33_status os33_pLinearAddress)"

definition NvRmApi_UnmapMemory ::
    "nv_codes \<Rightarrow> (NVOS34, 'k) ioctl_fn \<Rightarrow> NvRmApi \<Rightarrow> u32 \<Rightarrow> u32 \<Rightarrow> ptr \<Rightarrow> u32 \<Rightarrow> 'k \<Rightarrow>
     ((sys_error + unit) \<times> 'k) option" where
  "NvRmApi_UnmapMemory c ioctl rm hDevice hMemory pLinearAddress flags k =
     (let p = \<lparr>os34_hClient = fHObject (fClient rm), os34_hDevice = hDevice, os34_hMemory = hMemory,
               os34_pLinearAddress = pLinearAddress, os34_status = 0, os34_flags = flags\<rparr>
      in rm_checked (NvRmIoctl (HAIKU_BASE c) ioctl (fFd (apiFd rm)) (NV_ESC_RM_UNMAP_MEMORY c) p k)
           os34_status (\<lambda>_. ()))"

definition NvRmApi_AllocOsEvent ::
    "nv_codes \<Rightarrow> (os_event, 'k) ioctl_fn \<Rightarrow> NvRmApi \<Rightarrow> int \<Rightarrow> 'k \<Rightarrow> ((sys_error + unit) \<times> 'k) option" where
  "NvRmApi_AllocOsEvent c ioctl rm fd k =
     (let p = \<lparr>ev_hClient = fHObject (fClient rm), ev_fd = word_of_int fd, ev_Status = 0\<rparr>
      in rm_checked (NvRmIoctl (HAIKU_BASE c) ioctl (fFd (apiFd rm)) (NV_ESC_ALLOC_OS_EVENT c) p k)
           ev_Status (\<lambda>_. ()))"

definition NvRmApi_FreeOsEvent ::
    "nv_codes \<Rightarrow> (os_event, 'k) ioctl_fn \<Rightarrow> NvRmApi \<Rightarrow> int \<Rightarrow> 'k \<Rightarrow> ((sys_error + unit) \<times> 'k) option" where
  "NvRmApi_FreeOsEvent c ioctl rm fd k =
     (let p = \<lparr>ev_hClient = fHObject (fClient rm), ev_fd = word_of_int fd, ev_Status = 0\<rparr>
      in rm_checked (NvRmIoctl (HAIKU_BASE c) ioctl (fFd (apiFd rm)) (NV_ESC_FREE_OS_EVENT c) p k)
           ev_Status (\<lambda>_. ()))"

text \<open>\<open>CardInfo\<close> has no status to check; the buffer is the list the kernel writes back.\<close>

definition NvRmApi_CardInfo ::
    "nv_codes \<Rightarrow> ('i list, 'k) ioctl_fn \<Rightarrow> NvRmApi \<Rightarrow> 'i list \<Rightarrow> 'k \<Rightarrow> ((sys_error + 'i list) \<times> 'k) option" where
  "NvRmApi_CardInfo c ioctl rm infos k =
     rm_checked (NvRmIoctl (HAIKU_BASE c) ioctl (fFd (apiFd rm)) (NV_ESC_CARD_INFO c) infos k)
       (\<lambda>_. 0) (\<lambda>p. p)"

text \<open>The constructor: \<open>assert(fFd.IsSet())\<close> ends the program (\<open>None\<close>) when the control device
  cannot be opened; the client is allocated with a null client as root.\<close>

definition NvRmApi_new ::
    "nv_codes \<Rightarrow> (NVOS21, 'k) ioctl_fn \<Rightarrow> ptr \<Rightarrow> int \<Rightarrow> 'k \<Rightarrow> ((sys_error + NvRmApi) \<times> 'k) option" where
  "NvRmApi_new c ioctl this opened k =
     (let rm = \<lparr>apiFd = fst (FileDesc_assign FileDesc_new (FileDesc_of opened)), fClient = NvRmObject_new\<rparr>
      in if \<not> FileDesc_IsSet (apiFd rm) then None
         else map_option (\<lambda>(r, k). (case r of Inl e \<Rightarrow> Inl e
                | Inr h \<Rightarrow> Inr (rm\<lparr>fClient := fst (NvRmObject_assign (fClient rm) (NvRmObject_of this h))\<rparr>), k))
                (NvRmApi_Alloc c ioctl rm (NV01_ROOT_CLIENT c) 0 0 0 k))"

text \<open>The destructor destroys the client, then the descriptor: the releases in that order.\<close>

definition NvRmApi_dtor :: "NvRmApi \<Rightarrow> (ptr \<times> u32) list \<times> int list" where
  "NvRmApi_dtor rm = (NvRmObject_dtor (fClient rm), FileDesc_dtor (apiFd rm))"

lemma rm_checked_Inr:
  "rm_checked answer status result = Some (Inr v, k) \<longleftrightarrow>
     (\<exists>ret err p. answer = Some (ret, err, p, k) \<and> 0 \<le> ret \<and> status p = 0 \<and> v = result p)"
  by (cases answer) (auto simp: rm_checked_def CheckErrno_def CheckNvStatus_def split: prod.splits)

end
