(* ===== verification/Bitmap.thy ===== *)
theory Bitmap
  imports RmApi
begin

text \<open>
  Bitmaps in video memory: \<open>accelerant/NvUtils\<close> (the attributes of a memory request),
  \<open>NvRmDevice::MapMemory\<close> and \<open>ExportObjectToFd\<close>, and \<open>accelerant/NvKmsBitmap\<close>, which puts
  an allocation, a KMS surface and a mapping together. The constructor can throw after each of its
  steps; its effects are kept as the list of what is acquired and released, in order.
\<close>

section \<open>Memory requests\<close>

datatype surface_layout = LayoutBlockLinear | LayoutPitch | LayoutOther
datatype allocation_type = SCANOUT | NOTIFIER | OFFSCREEN | TypeOther

text \<open>The bit fields of \<open>attr\<close> and \<open>attr2\<close> that the code sets with \<open>FLD_SET_DRF\<close>; the fields of
  the resource manager's header do not overlap, so a value is a map from fields.\<close>

datatype attr_field = FORMAT | DEPTH | COMPR | LOCATION | COHERENCY | PHYSICALITY | PAGE_SIZE
  | ISO | NISO_DISPLAY | GPU_CACHEABLE
datatype attr_value = V_BLOCK_LINEAR | V_PITCH | V_32 | V_UNKNOWN | V_ANY | V_NONE | V_PCI | V_VIDMEM
  | V_WRITE_COMBINE | V_WRITE_BACK | V_UNCACHED | V_CONTIGUOUS | V_NONCONTIGUOUS | V_4KB | V_YES | V_NO

datatype alloc_flag = NO_SCANOUT | ALIGNMENT_FORCE | FORCE_MEM_GROWS_UP
datatype memory_type = TYPE_NONE | TYPE_PRIMARY | TYPE_DMA | TYPE_IMAGE

record mem_alloc_params =
  ma_owner :: u32
  ma_size :: u64
  ma_type :: memory_type
  ma_alignment :: u64
  ma_flags :: "alloc_flag set"
  ma_attr :: "attr_field \<Rightarrow> attr_value option"
  ma_attr2 :: "attr_field \<Rightarrow> attr_value option"

definition NVKMS_RM_HEAP_ID :: u32 where "NVKMS_RM_HEAP_ID = 0xDCBA"
definition NV_EVO_SURFACE_ALIGNMENT :: u64 where "NV_EVO_SURFACE_ALIGNMENT = 0x1000"

definition mem_alloc_new :: "u64 \<Rightarrow> mem_alloc_params" where
  "mem_alloc_new sz = \<lparr>ma_owner = NVKMS_RM_HEAP_ID, ma_size = sz, ma_type = TYPE_NONE,
     ma_alignment = 0, ma_flags = {}, ma_attr = (\<lambda>_. None), ma_attr2 = (\<lambda>_. None)\<rparr>"

definition set_attr :: "attr_field \<Rightarrow> attr_value \<Rightarrow> mem_alloc_params \<Rightarrow> mem_alloc_params" where
  "set_attr f v p = p\<lparr>ma_attr := (ma_attr p)(f \<mapsto> v)\<rparr>"

definition set_attr2 :: "attr_field \<Rightarrow> attr_value \<Rightarrow> mem_alloc_params \<Rightarrow> mem_alloc_params" where
  "set_attr2 f v p = p\<lparr>ma_attr2 := (ma_attr2 p)(f \<mapsto> v)\<rparr>"

text \<open>The switch over the layout, the same in both functions.\<close>

definition layout_attrs ::
    "surface_layout \<Rightarrow> bool \<Rightarrow> mem_alloc_params \<Rightarrow> sys_error + mem_alloc_params" where
  "layout_attrs layout compressible p =
     (case layout of
        LayoutBlockLinear \<Rightarrow>
          let p = set_attr FORMAT V_BLOCK_LINEAR p
          in Inr (if compressible then set_attr COMPR V_ANY (set_attr DEPTH V_32 p)
                  else set_attr DEPTH V_UNKNOWN p)
      | LayoutPitch \<Rightarrow> Inr (set_attr FORMAT V_PITCH p)
      | LayoutOther \<Rightarrow> Inl (GenericError (ERR EINVAL)))"

text \<open>The request of \<open>nvKmsKapiAllocateVideoMemory\<close>.\<close>

definition video_memory_params ::
    "surface_layout \<Rightarrow> u64 \<Rightarrow> allocation_type \<Rightarrow> bool \<Rightarrow> sys_error + mem_alloc_params" where
  "video_memory_params layout sz type compressible =
     (case layout_attrs layout compressible (mem_alloc_new sz) of
        Inl e \<Rightarrow> Inl e
      | Inr p \<Rightarrow>
          let p = set_attr2 GPU_CACHEABLE V_NO (set_attr LOCATION V_VIDMEM p)
          in case type of
               SCANOUT \<Rightarrow>
                 Inr (set_attr2 ISO V_YES (set_attr PHYSICALITY V_CONTIGUOUS
                   (p\<lparr>ma_type := TYPE_PRIMARY, ma_alignment := NV_EVO_SURFACE_ALIGNMENT,
                      ma_flags := ma_flags p \<union> {ALIGNMENT_FORCE, FORCE_MEM_GROWS_UP}\<rparr>)))
             | NOTIFIER \<Rightarrow>
                 if layout = LayoutBlockLinear then Inl (GenericError (ERR EINVAL))
                 else Inr (set_attr COHERENCY V_UNCACHED (set_attr PAGE_SIZE V_4KB
                   (p\<lparr>ma_type := TYPE_DMA\<rparr>)))
             | OFFSCREEN \<Rightarrow>
                 Inr (set_attr PHYSICALITY V_NONCONTIGUOUS
                   (p\<lparr>ma_type := TYPE_IMAGE, ma_flags := ma_flags p \<union> {NO_SCANOUT, FORCE_MEM_GROWS_UP}\<rparr>))
             | TypeOther \<Rightarrow> Inl (GenericError (ERR EINVAL)))"

text \<open>The request of \<open>nvKmsKapiAllocateSystemMemory\<close>; \<open>isoCoherent\<close> and \<open>nisoCoherent\<close> say whether the display
  engine's accesses of either kind are coherent.\<close>

definition system_memory_params ::
    "bool \<Rightarrow> bool \<Rightarrow> surface_layout \<Rightarrow> u64 \<Rightarrow> allocation_type \<Rightarrow> bool \<Rightarrow> sys_error + mem_alloc_params" where
  "system_memory_params isoCoherent nisoCoherent layout sz type compressible =
     (case layout_attrs layout compressible (mem_alloc_new sz) of
        Inl e \<Rightarrow> Inl e
      | Inr p \<Rightarrow>
          (let typed =
             (case type of
                SCANOUT \<Rightarrow> Inr (Some isoCoherent, set_attr2 ISO V_YES p)
              | NOTIFIER \<Rightarrow>
                  if layout = LayoutBlockLinear then Inl (GenericError (ERR EINVAL))
                  else Inr (Some nisoCoherent, set_attr2 NISO_DISPLAY V_YES p)
              | OFFSCREEN \<Rightarrow> Inr (None, p\<lparr>ma_flags := ma_flags p \<union> {NO_SCANOUT}\<rparr>)
              | TypeOther \<Rightarrow> Inl (GenericError (ERR EINVAL)))
           in case typed of
                Inl e \<Rightarrow> Inl e
              | Inr (pIOCoherencyModes, p) \<Rightarrow>
                  let p = set_attr2 GPU_CACHEABLE V_NO (set_attr LOCATION V_PCI p);
                      p = (if pIOCoherencyModes = None \<or> pIOCoherencyModes = Some False
                           then set_attr COHERENCY V_WRITE_COMBINE p else set_attr COHERENCY V_WRITE_BACK p)
                  in Inr (set_attr PHYSICALITY V_NONCONTIGUOUS p)))"

text \<open>What \<open>*compressible\<close> is set to, from the attributes the resource manager wrote back.\<close>

definition compressible_out :: "mem_alloc_params \<Rightarrow> bool" where
  "compressible_out p \<longleftrightarrow> ma_attr p COMPR \<noteq> Some V_NONE"

lemmas attr_simps = set_attr_def set_attr2_def mem_alloc_new_def layout_attrs_def Let_def

text \<open>
  Requests for memory of the GPU and of the system agree on what they refuse and ask for the
  right kind of memory: both raise \<open>EINVAL\<close> exactly for an unknown layout, an unknown type or a
  block linear notifier; otherwise the request has the given size and the layout's format, is
  placed in video memory or on the PCI bus, is never cached by the GPU, and memory that is to be
  scanned out is marked isochronous, and contiguous and aligned when it is in video memory.
\<close>

theorem memory_request_placement:
  "(case (video_memory_params layout sz type cmpr, system_memory_params isoCoherent nisoCoherent layout sz type cmpr) of
      (Inl e, Inl e') \<Rightarrow>
        e = GenericError (ERR EINVAL) \<and> e' = e \<and>
        (layout = LayoutOther \<or> type = TypeOther \<or> (type = NOTIFIER \<and> layout = LayoutBlockLinear))
    | (Inr v, Inr s) \<Rightarrow>
        \<not> (layout = LayoutOther \<or> type = TypeOther \<or> (type = NOTIFIER \<and> layout = LayoutBlockLinear)) \<and>
        ma_size v = sz \<and> ma_size s = sz \<and> ma_attr v FORMAT = ma_attr s FORMAT \<and>
        ma_attr v FORMAT = Some (if layout = LayoutPitch then V_PITCH else V_BLOCK_LINEAR) \<and>
        ma_attr v LOCATION = Some V_VIDMEM \<and> ma_attr s LOCATION = Some V_PCI \<and>
        ma_attr2 v GPU_CACHEABLE = Some V_NO \<and> ma_attr2 s GPU_CACHEABLE = Some V_NO \<and>
        (ma_attr2 v ISO = Some V_YES) = (type = SCANOUT) \<and> (ma_attr2 s ISO = Some V_YES) = (type = SCANOUT) \<and>
        (ma_attr v PHYSICALITY = Some V_CONTIGUOUS) = (type = SCANOUT) \<and>
        (ma_alignment v = NV_EVO_SURFACE_ALIGNMENT) = (type = SCANOUT) \<and>
        (ma_attr s COHERENCY = Some V_WRITE_BACK) = (type = SCANOUT \<and> isoCoherent \<or> type = NOTIFIER \<and> nisoCoherent)
    | _ \<Rightarrow> False)"
  unfolding video_memory_params_def system_memory_params_def
  by (cases layout; cases type) (simp_all add: attr_simps NV_EVO_SURFACE_ALIGNMENT_def)

section \<open>Geometry of a bitmap\<close>

definition AlignUp :: "u64 \<Rightarrow> u64 \<Rightarrow> u64" where
  "AlignUp val align = (val + (align - 1)) div align * align"

definition B_PAGE_SIZE :: u64 where "B_PAGE_SIZE = 4096"

text \<open>\<open>4*width\<close> and \<open>fBytesPerRow*height\<close> are computed in \<open>uint32\<close>.\<close>

definition bytes_per_row :: "u32 \<Rightarrow> u32" where
  "bytes_per_row width = ucast (AlignUp (ucast (4 * width)) 256)"

definition bitmap_size :: "u32 \<Rightarrow> u32 \<Rightarrow> u32" where
  "bitmap_size width height = bytes_per_row width * height"

lemma AlignUp_unat:
  assumes "unat val + unat align < 2 ^ 64" "0 < unat align"
  shows "unat (AlignUp val align) = (unat val + (unat align - 1)) div unat align * unat align"
proof -
  have one: "unat (align - 1) = unat align - 1"
    using assms(2) by (metis unat_eq_zero gr_implies_not_zero unat_minus_one)
  have sum: "unat (val + (align - 1)) = unat val + (unat align - 1)"
    using assms one by (subst unat_plus_if_size) (auto simp: word_size)
  have "(unat val + (unat align - 1)) div unat align * unat align \<le> unat val + (unat align - 1)"
    by simp
  then have "(unat val + (unat align - 1)) div unat align * unat align < 2 ^ 64"
    using assms by linarith
  moreover have "unat ((val + (align - 1)) div align) = (unat val + (unat align - 1)) div unat align"
    by (simp only: unat_div sum)
  ultimately show ?thesis
    unfolding AlignUp_def by (simp only: unat_word_ariths) simp
qed

lemma unat_mult_small:
  "unat a * unat b < 2 ^ LENGTH('a) \<Longrightarrow> unat (a * b :: 'a::len word) = unat a * unat b"
  by (simp add: unat_word_ariths)

lemma bytes_per_row_unat:
  assumes "unat w \<le> 2 ^ 14"
  shows "unat (bytes_per_row w) = (4 * unat w + 255) div 256 * 256"
proof -
  have four: "unat (4 * w) = 4 * unat w"
    using assms unat_mult_small [of 4 w] by simp
  then have u: "unat (ucast (4 * w) :: u64) = 4 * unat w"
    using assms by (simp add: unsigned_ucast_eq four take_bit_nat_eq_self)
  have "unat (AlignUp (ucast (4 * w)) 256) = (4 * unat w + 255) div 256 * 256"
    using assms u by (subst AlignUp_unat) simp_all
  moreover have "(4 * unat w + 255) div 256 * 256 \<le> 4 * unat w + 255" by simp
  then have "(4 * unat w + 255) div 256 * 256 < 2 ^ 32" using assms by simp
  ultimately show ?thesis by (simp add: bytes_per_row_def unsigned_ucast_eq take_bit_nat_eq_self)
qed

lemma bytes_per_row_bounds:
  assumes "unat w \<le> 2 ^ 14"
  shows "4 * unat w \<le> unat (bytes_per_row w)" "unat (bytes_per_row w) \<le> 2 ^ 16"
    "256 dvd unat (bytes_per_row w)" "unat (bytes_per_row w) < 4 * unat w + 256"
proof -
  have "(4 * unat w + 255) div 256 * 256 + (4 * unat w + 255) mod 256 = 4 * unat w + 255"
    by (rule div_mult_mod_eq)
  moreover have "(4 * unat w + 255) mod 256 < 256" by simp
  ultimately show "4 * unat w \<le> unat (bytes_per_row w)" "unat (bytes_per_row w) < 4 * unat w + 256"
    unfolding bytes_per_row_unat [OF assms] by linarith+
  have "(4 * unat w + 255) div 256 \<le> (2 ^ 16 + 255) div 256" using assms by (intro div_le_mono) simp
  then show "unat (bytes_per_row w) \<le> 2 ^ 16" unfolding bytes_per_row_unat [OF assms] by simp
  show "256 dvd unat (bytes_per_row w)" unfolding bytes_per_row_unat [OF assms] by simp
qed

lemma bitmap_size_unat:
  assumes "unat w \<le> 2 ^ 14" "unat h \<le> 2 ^ 14"
  shows "unat (bitmap_size w h) = unat (bytes_per_row w) * unat h"
    "unat (bytes_per_row w) * unat h \<le> 2 ^ 30"
proof -
  have "unat (bytes_per_row w) * unat h \<le> 2 ^ 16 * 2 ^ 14"
    by (rule mult_le_mono) (use bytes_per_row_bounds(2) [OF assms(1)] assms(2) in auto)
  then show le: "unat (bytes_per_row w) * unat h \<le> 2 ^ 30" by simp
  then have "unat (bytes_per_row w) * unat h < 2 ^ LENGTH(32)" by simp
  then show "unat (bitmap_size w h) = unat (bytes_per_row w) * unat h"
    unfolding bitmap_size_def by (rule unat_mult_small)
qed

lemma pixel_in_row:
  assumes "y < h" "4 * x + 4 \<le> b"
  shows "y * b + 4 * x + 4 \<le> b * (h :: nat)"
proof -
  have "Suc y * b \<le> h * b" using assms(1) by (intro mult_le_mono1) simp
  with assms(2) show ?thesis by (simp add: mult.commute)
qed

text \<open>
  The geometry of a bitmap is sound up to 16384 by 16384 pixels: a row is the smallest multiple
  of 256 bytes that holds its pixels, the size in bytes is computed without wrap-around and fits the
  \<open>int32\<close> of \<open>BitsLength\<close>, and every pixel lies inside it.
\<close>

theorem bitmap_geometry:
  assumes "unat w \<le> 2 ^ 14" "unat h \<le> 2 ^ 14"
  shows "256 dvd unat (bytes_per_row w) \<and> 4 * unat w \<le> unat (bytes_per_row w) \<and>
    unat (bytes_per_row w) < 4 * unat w + 256 \<and>
    unat (bitmap_size w h) = unat (bytes_per_row w) * unat h \<and> unat (bitmap_size w h) < 2 ^ 31 \<and>
    (\<forall>x y. x < unat w \<and> y < unat h \<longrightarrow>
       y * unat (bytes_per_row w) + 4 * x + 4 \<le> unat (bitmap_size w h))"
  using bytes_per_row_bounds [OF assms(1)] bitmap_size_unat [OF assms]
  by (auto intro!: pixel_in_row)

lemma bitmap_geometry_witness:
  "unat (bytes_per_row 1366) = 5632 \<and> unat (bitmap_size 1366 768) = 5632 * 768"
  using bitmap_geometry [of 1366 768] by (auto simp: bytes_per_row_unat)

section \<open>MapMemory and ExportObjectToFd\<close>

datatype resource = RMem "ptr \<times> u32" | RFd int | RSurf "ptr \<times> u32" | RMap rm_mapping | RArea int

datatype effect = Acq resource | Rel resource

text \<open>How a call ends: normally, by an exception, or in a failed \<open>assert\<close>.\<close>

datatype 'a outcome = Ok 'a | Throw sys_error | Abort

definition rel_fds :: "int list \<Rightarrow> effect list" where "rel_fds xs = map (\<lambda>x. Rel (RFd x)) xs"
definition rel_mems :: "(ptr \<times> u32) list \<Rightarrow> effect list" where "rel_mems xs = map (\<lambda>x. Rel (RMem x)) xs"
definition rel_surfs :: "(ptr \<times> u32) list \<Rightarrow> effect list" where "rel_surfs xs = map (\<lambda>x. Rel (RSurf x)) xs"
definition rel_maps :: "(int \<times> rm_mapping) list \<Rightarrow> effect list" where
  "rel_maps xs = concat (map (\<lambda>(a, m). [Rel (RArea a), Rel (RMap m)]) xs)"

text \<open>What the outside answers while a bitmap is made. \<open>be_device\<close> is the handle of
  \<open>rmDev.Device()\<close>; \<open>open\<close> and \<open>ioctl\<close> answer a result and \<open>errno\<close>.\<close>

record bitmap_env =
  be_rm :: ptr
  be_kms :: ptr
  be_device :: u32
  be_alloc :: "sys_error + u32"
  be_export_open :: "int \<times> errno"
  be_export :: "sys_error + unit"
  be_register :: "(int \<times> errno) \<times> u32"
  be_map_open :: int
  be_map :: "sys_error + ptr"
  be_haiku_map :: "(int \<times> errno) \<times> ptr"

definition MapMemory ::
    "bitmap_env \<Rightarrow> u32 \<Rightarrow> u64 \<Rightarrow> u32 \<Rightarrow> NvRmMemoryMapping outcome \<times> effect list" where
  "MapMemory env hMemory len flags =
     (let memFd = FileDesc_of (be_map_open env)
      in if \<not> FileDesc_IsSet memFd then (Abort, [])
         else let opened = [Acq (RFd (fFd memFd))]; closed = rel_fds (FileDesc_dtor memFd)
              in case be_map env of
                   Inl e \<Rightarrow> (Throw e, opened @ closed)
                 | Inr pLinearAddress \<Rightarrow>
                     let m = (be_rm env, be_device env, hMemory, pLinearAddress, flags);
                         ((ret, err), address) = be_haiku_map env
                     in case CheckErrno ret err of
                          Inl e \<Rightarrow> (Throw e, opened @ [Acq (RMap m)] @ closed)
                        | Inr _ \<Rightarrow>
                            (Ok (NvRmMemoryMapping_of (be_rm env) (be_device env) hMemory pLinearAddress flags
                                   address len ret),
                             opened @ [Acq (RMap m), Acq (RArea ret)] @ closed))"

definition ExportObjectToFd :: "bitmap_env \<Rightarrow> FileDesc outcome \<times> effect list" where
  "ExportObjectToFd env =
     (let (fd, err) = be_export_open env; outFd = FileDesc_of fd
      in case CheckErrno (fFd outFd) err of
           Inl e \<Rightarrow> (Throw e, [])
         | Inr _ \<Rightarrow>
             (case be_export env of
                Inl e \<Rightarrow> (Throw e, Acq (RFd fd) # rel_fds (FileDesc_dtor outFd))
              | Inr _ \<Rightarrow>
                  let (res, outFd) = FileDesc_Detach outFd
                  in (Ok (FileDesc_of res), Acq (RFd fd) # rel_fds (FileDesc_dtor outFd))))"

section \<open>NvKmsBitmap\<close>

datatype color_space = B_NO_COLOR_SPACE | B_RGB32 | B_RGBA32 | B_GRAY1 | B_GRAY8 | B_CMAP8 | B_RGB15
  | B_RGB16 | B_RGB48 | OTHER_COLOR_SPACE nat

record NvKmsBitmap =
  fMemory :: NvRmObject
  fSurface :: NvKmsSurface
  fMapping :: NvRmMemoryMapping
  fWidth :: u32
  fHeight :: u32
  fBytesPerRow :: u32
  fColorSpace :: color_space

definition NvKmsBitmap_new :: NvKmsBitmap where
  "NvKmsBitmap_new = \<lparr>fMemory = NvRmObject_new, fSurface = NvKmsSurface_new,
     fMapping = NvRmMemoryMapping_new, fWidth = 0, fHeight = 0, fBytesPerRow = 0,
     fColorSpace = B_NO_COLOR_SPACE\<rparr>"

definition NvKmsBitmap_IsSet :: "NvKmsBitmap \<Rightarrow> bool" where
  "NvKmsBitmap_IsSet b = NvKmsSurface_IsSet (fSurface b)"

definition Width :: "NvKmsBitmap \<Rightarrow> u32" where [simp]: "Width b = fWidth b"
definition Height :: "NvKmsBitmap \<Rightarrow> u32" where [simp]: "Height b = fHeight b"
definition ColorSpace :: "NvKmsBitmap \<Rightarrow> color_space" where [simp]: "ColorSpace b = fColorSpace b"
definition Memory :: "NvKmsBitmap \<Rightarrow> NvRmObject" where [simp]: "Memory b = fMemory b"
definition Surface :: "NvKmsBitmap \<Rightarrow> NvKmsSurface" where [simp]: "Surface b = fSurface b"
definition Bits :: "NvKmsBitmap \<Rightarrow> ptr" where "Bits b = Address (fMapping b)"
definition BitsLength :: "NvKmsBitmap \<Rightarrow> int" where
  "BitsLength b = sint (fBytesPerRow b * fHeight b)"
definition BytesPerRow :: "NvKmsBitmap \<Rightarrow> int" where "BytesPerRow b = sint (fBytesPerRow b)"

text \<open>The members are destroyed in reverse order of their declaration.\<close>

definition NvKmsBitmap_dtor :: "NvKmsBitmap \<Rightarrow> effect list" where
  "NvKmsBitmap_dtor b =
     rel_maps (NvRmMemoryMapping_dtor (fMapping b)) @ rel_surfs (NvKmsSurface_dtor (fSurface b))
     @ rel_mems (NvRmObject_dtor (fMemory b))"

definition NvKmsBitmap_assign ::
    "NvKmsBitmap \<Rightarrow> NvKmsBitmap \<Rightarrow> NvKmsBitmap \<times> NvKmsBitmap \<times> effect list" where
  "NvKmsBitmap_assign this other =
     (let (m, om, r1) = NvRmMemoryMapping_assign (fMapping this) (fMapping other);
          (s, os, r2) = NvKmsSurface_assign (fSurface this) (fSurface other);
          (o1, o2, r3) = NvRmObject_assign (fMemory this) (fMemory other)
      in (this\<lparr>fMapping := m, fSurface := s, fMemory := o1, fWidth := fWidth other,
               fHeight := fHeight other, fBytesPerRow := fBytesPerRow other,
               fColorSpace := fColorSpace other\<rparr>,
          other\<lparr>fMapping := om, fSurface := os, fMemory := o2, fWidth := 0, fHeight := 0,
                fBytesPerRow := 0, fColorSpace := B_NO_COLOR_SPACE\<rparr>,
          rel_maps r1 @ rel_surfs r2 @ rel_mems r3))"

text \<open>The move constructor: members default-constructed, then move-assigned.\<close>

definition NvKmsBitmap_ctor :: "NvKmsBitmap \<Rightarrow> NvKmsBitmap \<times> NvKmsBitmap \<times> effect list" where
  "NvKmsBitmap_ctor other = NvKmsBitmap_assign NvKmsBitmap_new other"

text \<open>The constructor proper, in three stages: the memory, the surface and the mapping. An exception
  in its body destroys the local \<open>memoryFd\<close> and then the members, as far as they have got.\<close>

definition make_mapping ::
    "bitmap_env \<Rightarrow> u64 \<Rightarrow> FileDesc \<Rightarrow> NvKmsBitmap \<Rightarrow> NvKmsBitmap outcome \<times> effect list" where
  "make_mapping env asz memoryFd b =
     (case MapMemory env (fHObject (fMemory b)) asz 0 of
        (Throw e, es) \<Rightarrow> (Throw e, es @ rel_fds (FileDesc_dtor memoryFd) @ NvKmsBitmap_dtor b)
      | (Abort, es) \<Rightarrow> (Abort, es)
      | (Ok m, es) \<Rightarrow> (Ok (b\<lparr>fMapping := fst (NvRmMemoryMapping_assign (fMapping b) m)\<rparr>),
                        es @ rel_fds (FileDesc_dtor memoryFd)))"

definition make_surface :: "bitmap_env \<Rightarrow> u64 \<Rightarrow> NvKmsBitmap \<Rightarrow> NvKmsBitmap outcome \<times> effect list" where
  "make_surface env asz b =
     (case ExportObjectToFd env of
        (Throw e, es) \<Rightarrow> (Throw e, es @ NvKmsBitmap_dtor b)
      | (Abort, es) \<Rightarrow> (Abort, es)
      | (Ok memoryFd, es) \<Rightarrow>
          let ((ret, err), handle) = be_register env
          in case CheckErrno ret err of
               Inl e \<Rightarrow> (Throw e, es @ rel_fds (FileDesc_dtor memoryFd) @ NvKmsBitmap_dtor b)
             | Inr _ \<Rightarrow>
                 let (s, _, _) = NvKmsSurface_assign (fSurface b) (NvKmsSurface_of (be_kms env) handle);
                     (r, es2) = make_mapping env asz memoryFd (b\<lparr>fSurface := s\<rparr>)
                 in (r, es @ Acq (RSurf (be_kms env, handle)) # es2))"

definition NvKmsBitmap_make ::
    "bitmap_env \<Rightarrow> u32 \<Rightarrow> u32 \<Rightarrow> color_space \<Rightarrow> NvKmsBitmap outcome \<times> effect list" where
  "NvKmsBitmap_make env width height colorSpace =
     (let b = NvKmsBitmap_new\<lparr>fWidth := width, fHeight := height,
                 fBytesPerRow := bytes_per_row width, fColorSpace := colorSpace\<rparr>
      in if colorSpace \<noteq> B_RGB32 \<and> colorSpace \<noteq> B_RGBA32
         then (Throw (GenericError (ERR EINVAL)), NvKmsBitmap_dtor b)
         else
           let sz = bitmap_size width height; asz = AlignUp (ucast sz) B_PAGE_SIZE
           in case video_memory_params LayoutPitch asz SCANOUT False of
                Inl e \<Rightarrow> (Throw e, NvKmsBitmap_dtor b)
              | Inr _ \<Rightarrow>
                  (case be_alloc env of
                     Inl e \<Rightarrow> (Throw e, NvKmsBitmap_dtor b)
                   | Inr h \<Rightarrow>
                       let (m, _, _) = NvRmObject_assign (fMemory b) (NvRmObject_of (be_rm env) h);
                           (r, es) = make_surface env asz (b\<lparr>fMemory := m\<rparr>)
                       in (r, Acq (RMem (be_rm env, h)) # es)))"

section \<open>Acquired and released\<close>

definition acq :: "effect list \<Rightarrow> resource multiset" where
  "acq es = mset (List.map_filter (\<lambda>e. case e of Acq r \<Rightarrow> Some r | Rel _ \<Rightarrow> None) es)"

definition rel :: "effect list \<Rightarrow> resource multiset" where
  "rel es = mset (List.map_filter (\<lambda>e. case e of Rel r \<Rightarrow> Some r | Acq _ \<Rightarrow> None) es)"

lemma acq_rel_simps [simp]:
  "acq [] = {#}" "acq (Acq r # es) = add_mset r (acq es)" "acq (Rel r # es) = acq es"
  "acq (es @ fs) = acq es + acq fs"
  "rel [] = {#}" "rel (Acq r # es) = rel es" "rel (Rel r # es) = add_mset r (rel es)"
  "rel (es @ fs) = rel es + rel fs"
  by (simp_all add: acq_def rel_def List.map_filter_def)

lemma Export_net:
  "ExportObjectToFd env = (r, es) \<Longrightarrow>
     (\<exists>e. r = Throw e) \<and> acq es = rel es \<or>
     (\<exists>fd. r = Ok (FileDesc_of fd) \<and> 0 \<le> fd \<and> acq es = add_mset (RFd fd) (rel es))"
  by (auto simp: ExportObjectToFd_def CheckErrno_def FileDesc_of_def FileDesc_dtor_def
      FileDesc_IsSet_def FileDesc_Detach_def rel_fds_def Let_def split: prod.splits if_splits sum.splits)

lemma MapMemory_net:
  "MapMemory env h len flags = (r, es) \<Longrightarrow>
     r = Abort \<or>
     (\<exists>e. r = Throw e) \<and> (acq es = rel es \<or>
        fst (fst (be_haiku_map env)) < 0 \<and> (\<exists>m. acq es = add_mset (RMap m) (rel es))) \<or>
     (\<exists>m. r = Ok m \<and> fArea m = fst (fst (be_haiku_map env)) \<and> fAddress m = snd (be_haiku_map env) \<and>
          acq es = rel es + {#RMap (mRm m, fHDevice m, fHMemory m, fPLinearAddress m, fFlags m),
                             RArea (fArea m)#})"
  by (auto simp: MapMemory_def CheckErrno_def FileDesc_of_def FileDesc_dtor_def FileDesc_IsSet_def
      rel_fds_def Let_def split: prod.splits if_splits sum.splits)

lemma fresh_members:
  "NvKmsBitmap_dtor (NvKmsBitmap_new\<lparr>fWidth := w, fHeight := h, fBytesPerRow := b, fColorSpace := c\<rparr>) = []"
  by (simp add: NvKmsBitmap_dtor_def NvKmsBitmap_new_def NvRmObject_new_def NvKmsSurface_new_def
      NvRmMemoryMapping_new_def NvRmMemoryMapping_dtor_def NvRmMemoryMapping_IsSet_def
      NvKmsSurface_dtor_def NvRmObject_dtor_def rel_maps_def rel_surfs_def rel_mems_def)

text \<open>Handles and addresses that the kernel hands out are not null.\<close>

definition bitmap_env_ok :: "bitmap_env \<Rightarrow> bool" where
  "bitmap_env_ok env \<longleftrightarrow> be_alloc env \<noteq> Inr 0 \<and> snd (be_register env) \<noteq> 0 \<and>
     snd (be_haiku_map env) \<noteq> nullptr"

lemmas owner_defs = NvKmsBitmap_dtor_def NvKmsBitmap_new_def NvRmObject_new_def NvKmsSurface_new_def
  NvRmMemoryMapping_new_def NvRmMemoryMapping_dtor_def NvRmMemoryMapping_IsSet_def
  NvRmMemoryMapping_Delete_def NvKmsSurface_dtor_def NvKmsSurface_Delete_def NvRmObject_dtor_def
  NvRmObject_assign_def NvKmsSurface_assign_def NvRmMemoryMapping_assign_def NvRmObject_of_def
  NvKmsSurface_of_def rel_maps_def rel_surfs_def rel_mems_def

lemma close_fd_effects: "0 \<le> fd \<Longrightarrow> rel_fds (FileDesc_dtor (FileDesc_of fd)) = [Rel (RFd fd)]"
  by (simp add: rel_fds_def FileDesc_dtor_def FileDesc_of_def FileDesc_IsSet_def)

text \<open>How each stage ends: \<open>res\<close> are the resources that the members own before it.\<close>

definition map_failed :: "bitmap_env \<Rightarrow> bool" where
  "map_failed env \<longleftrightarrow> fst (fst (be_haiku_map env)) < 0"

definition stage_net :: "bitmap_env \<Rightarrow> NvKmsBitmap \<Rightarrow> resource multiset \<Rightarrow> NvKmsBitmap outcome \<times> effect list \<Rightarrow> bool" where
  "stage_net env b0 res out \<longleftrightarrow>
     (case out of
        (Abort, es) \<Rightarrow> True
      | (Throw e, es) \<Rightarrow> res + acq es = rel es \<or> map_failed env \<and> (\<exists>m. res + acq es = add_mset (RMap m) (rel es))
      | (Ok b, es) \<Rightarrow>
          fWidth b = fWidth b0 \<and> fHeight b = fHeight b0 \<and> fBytesPerRow b = fBytesPerRow b0 \<and>
          fColorSpace b = fColorSpace b0 \<and>
          (\<exists>own. NvKmsBitmap_dtor b = Rel (RArea (-1)) # own \<and> acq own = {#} \<and>
                 res + acq es = rel es + rel own + {#RArea (fst (fst (be_haiku_map env)))#}))"

lemma make_mapping_net:
  assumes env: "bitmap_env_ok env" and fd: "0 \<le> fd" and new: "fMapping b = NvRmMemoryMapping_new"
    and own: "acq (NvKmsBitmap_dtor b) = {#}"
  shows "stage_net env b (add_mset (RFd fd) (rel (NvKmsBitmap_dtor b)))
           (make_mapping env asz (FileDesc_of fd) b)"
proof -
  obtain r es where map: "MapMemory env (fHObject (fMemory b)) asz 0 = (r, es)"
    by (cases "MapMemory env (fHObject (fMemory b)) asz 0")
  note defs = make_mapping_def stage_net_def close_fd_effects [OF fd] map_failed_def
  from MapMemory_net [OF map] show ?thesis
  proof (elim disjE exE conjE)
    assume "r = Abort"
    with map show ?thesis by (simp add: defs)
  next
    fix e
    assume "r = Throw e" "acq es = rel es"
    with map own show ?thesis by (simp add: defs ac_simps)
  next
    fix e m
    assume "r = Throw e" "fst (fst (be_haiku_map env)) < 0" "acq es = add_mset (RMap m) (rel es)"
    with map own show ?thesis by (simp add: defs ac_simps del: split_paired_Ex)
  next
    fix m :: NvRmMemoryMapping
    let ?m = "(mRm m, fHDevice m, fHMemory m, fPLinearAddress m, fFlags m)"
    assume m: "r = Ok m" "fArea m = fst (fst (be_haiku_map env))" "fAddress m = snd (be_haiku_map env)"
      "acq es = rel es + {#RMap ?m, RArea (fArea m)#}"
    then have addr: "fAddress m \<noteq> nullptr" using env by (simp add: bitmap_env_ok_def)
    let ?b = "b\<lparr>fMapping := fst (NvRmMemoryMapping_assign (fMapping b) m)\<rparr>"
    have "NvKmsBitmap_dtor ?b = Rel (RArea (-1)) # Rel (RMap ?m) # NvKmsBitmap_dtor b"
      using addr new by (simp add: owner_defs Let_def)
    moreover have "make_mapping env asz (FileDesc_of fd) b = (Ok ?b, es @ [Rel (RFd fd)])"
      using map m(1) close_fd_effects [OF fd] by (simp add: make_mapping_def)
    moreover have "add_mset (RFd fd) (rel (NvKmsBitmap_dtor b)) + acq (es @ [Rel (RFd fd)]) =
        rel (es @ [Rel (RFd fd)]) + rel (Rel (RMap ?m) # NvKmsBitmap_dtor b)
        + {#RArea (fst (fst (be_haiku_map env)))#}"
      using m(2,4) by simp
    moreover have "acq (Rel (RMap ?m) # NvKmsBitmap_dtor b) = {#}" using own by simp
    ultimately show ?thesis
      unfolding stage_net_def by (simp del: acq_rel_simps)
  qed
qed

lemma make_surface_net:
  assumes env: "bitmap_env_ok env" and new: "fMapping b = NvRmMemoryMapping_new" "fSurface b = NvKmsSurface_new"
    and own: "acq (NvKmsBitmap_dtor b) = {#}"
  shows "stage_net env b (rel (NvKmsBitmap_dtor b)) (make_surface env asz b)"
proof -
  obtain re ee where ex: "ExportObjectToFd env = (re, ee)" by (cases "ExportObjectToFd env")
  from Export_net [OF ex] show ?thesis
  proof (elim disjE exE conjE)
    fix e
    assume "re = Throw e" "acq ee = rel ee"
    with ex own show ?thesis by (simp add: make_surface_def stage_net_def ac_simps)
  next
    fix fd
    assume re: "re = Ok (FileDesc_of fd)" and fd: "0 \<le> fd" and net: "acq ee = add_mset (RFd fd) (rel ee)"
    obtain ret err hs where reg: "be_register env = ((ret, err), hs)" by (metis surj_pair)
    with env have hs: "hs \<noteq> 0" by (simp add: bitmap_env_ok_def)
    show ?thesis
    proof (cases "ret < 0")
      case True
      with ex re reg net own close_fd_effects [OF fd] show ?thesis
        by (simp add: make_surface_def stage_net_def CheckErrno_def ac_simps)
    next
      case False
      let ?b = "b\<lparr>fSurface := NvKmsSurface_of (be_kms env) hs\<rparr>"
      have dt: "NvKmsBitmap_dtor ?b = Rel (RSurf (be_kms env, hs)) # NvKmsBitmap_dtor b"
        using hs new by (simp add: owner_defs)
      have as: "NvKmsSurface_assign (fSurface b) (NvKmsSurface_of (be_kms env) hs) =
          (NvKmsSurface_of (be_kms env) hs, NvKmsSurface_of (be_kms env) 0, [])"
        using new(2) by (simp add: owner_defs)
      obtain r es where mk: "make_mapping env asz (FileDesc_of fd) ?b = (r, es)"
        by (cases "make_mapping env asz (FileDesc_of fd) ?b")
      have "stage_net env ?b (add_mset (RFd fd) (rel (NvKmsBitmap_dtor ?b))) (r, es)"
        using make_mapping_net [OF env fd, of ?b asz] new(1) own dt mk by simp
      moreover have "make_surface env asz b = (r, ee @ Acq (RSurf (be_kms env, hs)) # es)"
        using ex re reg False as mk by (simp add: make_surface_def CheckErrno_def)
      ultimately show ?thesis
        using net dt by (cases r) (auto simp: stage_net_def ac_simps)
    qed
  qed
qed

lemma NvKmsBitmap_make_net:
  assumes env: "bitmap_env_ok env"
  shows "stage_net env (NvKmsBitmap_new\<lparr>fWidth := w, fHeight := h, fBytesPerRow := bytes_per_row w,
           fColorSpace := cs\<rparr>) {#} (NvKmsBitmap_make env w h cs)"
proof -
  let ?b = "NvKmsBitmap_new\<lparr>fWidth := w, fHeight := h, fBytesPerRow := bytes_per_row w, fColorSpace := cs\<rparr>"
  let ?asz = "AlignUp (ucast (bitmap_size w h)) B_PAGE_SIZE"
  obtain vp where vp: "video_memory_params LayoutPitch ?asz SCANOUT False = Inr vp"
    by (simp add: video_memory_params_def attr_simps)
  show ?thesis
  proof (cases "(cs \<noteq> B_RGB32 \<and> cs \<noteq> B_RGBA32) \<or> (\<exists>e. be_alloc env = Inl e)")
    case True
    then show ?thesis
      by (auto simp: NvKmsBitmap_make_def Let_def fresh_members stage_net_def vp)
  next
    case False
    then obtain hm where mem: "be_alloc env = Inr hm" by (cases "be_alloc env") auto
    with env have hm: "hm \<noteq> 0" by (auto simp: bitmap_env_ok_def)
    let ?b1 = "?b\<lparr>fMemory := NvRmObject_of (be_rm env) hm\<rparr>"
    have dt: "NvKmsBitmap_dtor ?b1 = [Rel (RMem (be_rm env, hm))]"
      using hm by (simp add: owner_defs)
    have as: "NvRmObject_assign (fMemory ?b) (NvRmObject_of (be_rm env) hm) =
        (NvRmObject_of (be_rm env) hm, NvRmObject_of (be_rm env) 0, [])"
      by (simp add: owner_defs)
    obtain r es where mk: "make_surface env ?asz ?b1 = (r, es)" by (cases "make_surface env ?asz ?b1")
    have "stage_net env ?b1 (rel (NvKmsBitmap_dtor ?b1)) (r, es)"
      unfolding mk [symmetric]
      by (rule make_surface_net [OF env]) (simp_all add: dt, simp_all add: NvKmsBitmap_new_def)
    moreover have "NvKmsBitmap_make env w h cs = (r, Acq (RMem (be_rm env, hm)) # es)"
      using False mem vp as mk by (auto simp: NvKmsBitmap_make_def Let_def)
    ultimately show ?thesis using dt by (cases r) (auto simp: stage_net_def)
  qed
qed

text \<open>
  C18: the constructor of a bitmap is exception safe but for one case: when it throws, everything it
  acquired (video memory, descriptors, the surface, the mapping) has been released again, except
  that the resource manager's mapping stays behind when it is the kernel's \<open>NV_HAIKU_MAP\<close> that
  failed.
\<close>

theorem bitmap_make_exception_safe:
  assumes "NvKmsBitmap_make env w h cs = (Throw e, es)" "bitmap_env_ok env"
  shows "acq es = rel es \<or>
         fst (fst (be_haiku_map env)) < 0 \<and> (\<exists>m. acq es = add_mset (RMap m) (rel es))"
  using NvKmsBitmap_make_net [OF assms(2), where w = w and h = h and cs = cs] assms(1)
  by (auto simp: stage_net_def map_failed_def)

definition ex_bitmap_env :: bitmap_env where
  "ex_bitmap_env = \<lparr>be_rm = 1, be_kms = 2, be_device = 10, be_alloc = Inr 11, be_export_open = (3, ERR B_ERROR),
     be_export = Inr (), be_register = ((0, ERR B_ERROR), 12), be_map_open = 4, be_map = Inr 100,
     be_haiku_map = ((7, ERR B_ERROR), 200)\<rparr>"

lemma bitmap_make_exception_safe_witness:
  "\<exists>e es. NvKmsBitmap_make (ex_bitmap_env\<lparr>be_register := ((-1, ERR B_NO_MEMORY), 12)\<rparr>) 64 64 B_RGBA32 = (Throw e, es) \<and>
     acq es = rel es"
proof -
  let ?env = "ex_bitmap_env\<lparr>be_register := ((-1, ERR B_NO_MEMORY), 12)\<rparr>"
  have "\<exists>e es. NvKmsBitmap_make ?env 64 64 B_RGBA32 = (Throw e, es)"
    by (simp add: NvKmsBitmap_make_def make_surface_def ex_bitmap_env_def video_memory_params_def
        attr_simps NvRmObject_assign_def ExportObjectToFd_def CheckErrno_def FileDesc_of_def
        FileDesc_Detach_def)
  then obtain e es where "NvKmsBitmap_make ?env 64 64 B_RGBA32 = (Throw e, es)" by blast
  with bitmap_make_exception_safe [OF this] show ?thesis
    by (auto simp: bitmap_env_ok_def ex_bitmap_env_def)
qed

text \<open>
  A bitmap gives back its memory, its surface and its mapping, but never its area: over the life
  of a bitmap that was made, everything acquired is released exactly once except the area that maps
  its memory, and \<open>delete_area\<close> is called for area -1 instead. The constructor assigns the mapping,
  and the move assignment of \<open>NvRmMemoryMapping\<close> does not take the area along.
\<close>

theorem bitmap_leaks_area:
  assumes "NvKmsBitmap_make env w h cs = (Ok b, es)" "bitmap_env_ok env"
  shows "acq (es @ NvKmsBitmap_dtor b) + {#RArea (-1)#} =
         rel (es @ NvKmsBitmap_dtor b) + {#RArea (fst (fst (be_haiku_map env)))#}"
  using NvKmsBitmap_make_net [OF assms(2), where w = w and h = h and cs = cs] assms(1)
  by (auto simp: stage_net_def)

lemma ex_bitmap_made: "\<exists>b es. NvKmsBitmap_make ex_bitmap_env 64 64 B_RGBA32 = (Ok b, es)"
  by (simp add: NvKmsBitmap_make_def make_surface_def make_mapping_def ex_bitmap_env_def
      video_memory_params_def attr_simps NvRmObject_assign_def NvKmsSurface_assign_def
      ExportObjectToFd_def CheckErrno_def FileDesc_of_def FileDesc_Detach_def MapMemory_def
      FileDesc_IsSet_def)

lemma bitmap_leaks_area_witness:
  "\<exists>b es. NvKmsBitmap_make ex_bitmap_env 64 64 B_RGBA32 = (Ok b, es) \<and>
     acq (es @ NvKmsBitmap_dtor b) + {#RArea (-1)#} = rel (es @ NvKmsBitmap_dtor b) + {#RArea 7#}"
proof -
  obtain b es where "NvKmsBitmap_make ex_bitmap_env 64 64 B_RGBA32 = (Ok b, es)"
    using ex_bitmap_made by blast
  with bitmap_leaks_area [OF this] show ?thesis by (auto simp: bitmap_env_ok_def ex_bitmap_env_def)
qed

end
