(* ===== verification/Modes.thy ===== *)
theory Modes
  imports Bitmap
begin

unbundle bit_operations_syntax

text \<open>
  Display modes in \<open>accelerant/Accelerant.cpp\<close>: the conversions between Haiku's \<open>display_mode\<close>
  and the kernel mode setting \<open>NvKmsMode\<close>, the comparison of modes, \<open>ProposeMode\<close> and
  \<open>GetPixelClockLimits\<close>. The fields have the widths of the C structures; a division by zero, which
  kills the process, is \<open>None\<close>.
\<close>

section \<open>Modes\<close>

record display_timing =
  pixel_clock :: u32
  h_display :: u16
  h_sync_start :: u16
  h_sync_end :: u16
  h_total :: u16
  v_display :: u16
  v_sync_start :: u16
  v_sync_end :: u16
  v_total :: u16
  flags :: u32

record display_mode =
  timing :: display_timing
  space :: color_space
  virtual_width :: u16
  virtual_height :: u16
  h_display_start :: u16
  v_display_start :: u16

record NvModeTimings =
  RRx1k :: u32
  pixelClockHz :: u32
  hVisible :: u16
  hSyncStart :: u16
  hSyncEnd :: u16
  hTotal :: u16
  vVisible :: u16
  vSyncStart :: u16
  vSyncEnd :: u16
  vTotal :: u16
  interlaced :: bool
  hSyncPos :: bool
  hSyncNeg :: bool
  vSyncPos :: bool
  vSyncNeg :: bool

record NvKmsMode =
  timings :: NvModeTimings

text \<open>Flags of Haiku's \<open>Accelerant.h\<close>.\<close>

definition B_TIMING_INTERLACED :: u32 where "B_TIMING_INTERLACED = push_bit 28 1"
definition B_POSITIVE_HSYNC :: u32 where "B_POSITIVE_HSYNC = push_bit 29 1"
definition B_POSITIVE_VSYNC :: u32 where "B_POSITIVE_VSYNC = push_bit 30 1"

lemmas timing_flags = B_TIMING_INTERLACED_def B_POSITIVE_HSYNC_def B_POSITIVE_VSYNC_def

definition CalcRefreshRate :: "display_timing \<Rightarrow> u32 option" where
  "CalcRefreshRate t =
     (let multiplier = (if B_TIMING_INTERLACED AND flags t \<noteq> 0 then 2000000 else 1000000 :: u64);
          total = (ucast (h_total t) * ucast (v_total t) :: u64)
      in if total = 0 then None else Some (ucast (multiplier * ucast (pixel_clock t) div total)))"

definition ToHaikuModeTimings :: "NvModeTimings \<Rightarrow> display_timing" where
  "ToHaikuModeTimings n =
     \<lparr>pixel_clock = pixelClockHz n div 1000,
      h_display = hVisible n, h_sync_start = hSyncStart n, h_sync_end = hSyncEnd n, h_total = hTotal n,
      v_display = vVisible n, v_sync_start = vSyncStart n, v_sync_end = vSyncEnd n, v_total = vTotal n,
      flags = (if interlaced n then B_TIMING_INTERLACED else 0)
           OR (if hSyncPos n then B_POSITIVE_HSYNC else 0)
           OR (if vSyncPos n then B_POSITIVE_VSYNC else 0)\<rparr>"

definition ToNvKmsModeTimings :: "display_timing \<Rightarrow> NvModeTimings option" where
  "ToNvKmsModeTimings t =
     map_option (\<lambda>rate.
       \<lparr>RRx1k = rate, pixelClockHz = pixel_clock t * 1000,
        hVisible = h_display t, hSyncStart = h_sync_start t, hSyncEnd = h_sync_end t, hTotal = h_total t,
        vVisible = v_display t, vSyncStart = v_sync_start t, vSyncEnd = v_sync_end t, vTotal = v_total t,
        interlaced = (B_TIMING_INTERLACED AND flags t \<noteq> 0),
        hSyncPos = (B_POSITIVE_HSYNC AND flags t \<noteq> 0), hSyncNeg = (B_POSITIVE_HSYNC AND flags t = 0),
        vSyncPos = (B_POSITIVE_VSYNC AND flags t \<noteq> 0), vSyncNeg = (B_POSITIVE_VSYNC AND flags t = 0)\<rparr>)
     (CalcRefreshRate t)"

definition ToHaikuMode :: "NvKmsMode \<Rightarrow> display_mode" where
  "ToHaikuMode m =
     \<lparr>timing = ToHaikuModeTimings (timings m), space = B_RGB32,
      virtual_width = hVisible (timings m), virtual_height = vVisible (timings m),
      h_display_start = 0, v_display_start = 0\<rparr>"

definition ToNvKmsMode :: "display_mode \<Rightarrow> NvKmsMode option" where
  "ToNvKmsMode m = map_option (\<lambda>t. \<lparr>timings = t\<rparr>) (ToNvKmsModeTimings (timing m))"

section \<open>Conversions are inverse\<close>

lemma flag_bits:
  "B_TIMING_INTERLACED AND w = 0 \<longleftrightarrow> \<not> bit w 28"
  "B_POSITIVE_HSYNC AND w = 0 \<longleftrightarrow> \<not> bit w 29"
  "B_POSITIVE_VSYNC AND w = 0 \<longleftrightarrow> \<not> bit w 30"
  unfolding timing_flags push_bit_of_1 and.commute [of _ w]
  by (rule and_exp_eq_0_iff_not_bit)+

lemma bit_flag:
  "bit B_TIMING_INTERLACED n \<longleftrightarrow> n = 28" "bit B_POSITIVE_HSYNC n \<longleftrightarrow> n = 29"
  "bit B_POSITIVE_VSYNC n \<longleftrightarrow> n = 30"
  unfolding timing_flags push_bit_of_1 bit_exp_iff by auto

text \<open>Only the flags that both sides know.\<close>

definition known_flags :: "u32 \<Rightarrow> bool" where
  "known_flags w \<longleftrightarrow> w AND NOT (B_TIMING_INTERLACED OR B_POSITIVE_HSYNC OR B_POSITIVE_VSYNC) = 0"

lemma flags_rebuilt:
  assumes "known_flags w"
  shows "(if bit w 28 then B_TIMING_INTERLACED else 0) OR (if bit w 29 then B_POSITIVE_HSYNC else 0)
           OR (if bit w 30 then B_POSITIVE_VSYNC else 0) = w"
proof (rule bit_eqI)
  fix n
  assume "possible_bit TYPE(32 word) n"
  then have n: "n < 32" by simp
  have "bit w n \<Longrightarrow> n = 28 \<or> n = 29 \<or> n = 30"
  proof -
    assume b: "bit w n"
    have "\<not> bit (w AND NOT (B_TIMING_INTERLACED OR B_POSITIVE_HSYNC OR B_POSITIVE_VSYNC)) n"
      using assms by (simp add: known_flags_def)
    then show ?thesis using b n by (auto simp: bit_and_iff bit_not_iff bit_or_iff bit_flag)
  qed
  then show "bit ((if bit w 28 then B_TIMING_INTERLACED else 0) OR
      (if bit w 29 then B_POSITIVE_HSYNC else 0) OR (if bit w 30 then B_POSITIVE_VSYNC else 0)) n = bit w n"
    using n by (auto simp: bit_or_iff bit_flag)
qed

lemma kilo_roundtrip:
  assumes "unat w * 1000 < 2 ^ 32"
  shows "w * 1000 div 1000 = (w :: u32)"
proof -
  have "unat (w * 1000) = unat w * 1000" using assms unat_mult_small [of w 1000] by simp
  then have "unat (w * 1000 div 1000) = unat w" by (simp add: unat_div)
  then show ?thesis by (simp add: word_unat_eq_iff)
qed

text \<open>
  Converting a timing to the kernel's form and back gives the same timing, provided the totals
  are not zero, the pixel clock in Hz fits 32 bits and no foreign flag is set; the kernel's sync
  polarity bits are then complementary.
\<close>

theorem timings_roundtrip:
  assumes "h_total t \<noteq> 0" "v_total t \<noteq> 0" "unat (pixel_clock t) * 1000 < 2 ^ 32" "known_flags (flags t)"
  shows "\<exists>n. ToNvKmsModeTimings t = Some n \<and> ToHaikuModeTimings n = t \<and>
             hSyncNeg n = (\<not> hSyncPos n) \<and> vSyncNeg n = (\<not> vSyncPos n)"
proof -
  have "unat (ucast (h_total t) :: u64) = unat (h_total t)" "unat (ucast (v_total t) :: u64) = unat (v_total t)"
    using unsigned_less [of "h_total t", where ?'a = nat] unsigned_less [of "v_total t", where ?'a = nat]
    by (simp_all add: unsigned_ucast_eq take_bit_nat_eq_self)
  moreover have "unat (h_total t) * unat (v_total t) < 2 ^ 16 * 2 ^ 16"
    using unsigned_less [of "h_total t", where ?'a = nat] unsigned_less [of "v_total t", where ?'a = nat]
    by (intro mult_strict_mono) simp_all
  ultimately have "unat (ucast (h_total t) * ucast (v_total t) :: u64) = unat (h_total t) * unat (v_total t)"
    by (subst unat_mult_small) simp_all
  moreover have "unat (h_total t) \<noteq> 0" "unat (v_total t) \<noteq> 0" using assms(1,2) by (simp_all add: unat_eq_zero)
  ultimately have "(ucast (h_total t) * ucast (v_total t) :: u64) \<noteq> 0" by (metis mult_is_0 unat_0)
  then obtain rate where rate: "CalcRefreshRate t = Some rate"
    by (simp add: CalcRefreshRate_def Let_def)
  from flags_rebuilt [OF assms(4)] kilo_roundtrip [OF assms(3)] rate show ?thesis
    by (auto simp: ToNvKmsModeTimings_def ToHaikuModeTimings_def flag_bits)
qed

definition ex_timing :: display_timing where
  "ex_timing = \<lparr>pixel_clock = 148500, h_display = 1920, h_sync_start = 2008, h_sync_end = 2052,
     h_total = 2200, v_display = 1080, v_sync_start = 1084, v_sync_end = 1089, v_total = 1125,
     flags = B_POSITIVE_HSYNC OR B_POSITIVE_VSYNC\<rparr>"

lemma timings_roundtrip_witness:
  "\<exists>n. ToNvKmsModeTimings ex_timing = Some n \<and> ToHaikuModeTimings n = ex_timing"
proof -
  have "known_flags (flags ex_timing)" by (simp add: known_flags_def ex_timing_def timing_flags)
  with timings_roundtrip [of ex_timing] show ?thesis by (auto simp: ex_timing_def)
qed

section \<open>Comparing modes\<close>

definition ModeTimingsEqual :: "display_timing \<Rightarrow> display_timing \<Rightarrow> bool" where
  "ModeTimingsEqual a b \<longleftrightarrow>
     pixel_clock a = pixel_clock b \<and> h_display a = h_display b \<and> h_sync_start a = h_sync_start b \<and>
     h_sync_end a = h_sync_end b \<and> h_total a = h_total b \<and> v_display a = v_display b \<and>
     v_sync_start a = v_sync_start b \<and> v_sync_end a = v_sync_end b \<and> v_total a = v_total b \<and>
     flags a = flags b"

definition IsDisplayModeWithinBounds :: "display_mode \<Rightarrow> display_mode \<Rightarrow> display_mode \<Rightarrow> bool" where
  "IsDisplayModeWithinBounds mode low high =
     (let m = timing mode; l = timing low; h = timing high
      in if h_display m < h_display l \<or> h_display m > h_display h \<or>
            h_sync_start m < h_sync_start l \<or> h_sync_start m > h_sync_start h \<or>
            h_sync_end m < h_sync_end l \<or> h_sync_end m > h_sync_end h \<or>
            h_total m < h_total l \<or> h_total m > h_total h then False
         else if v_display m < v_display l \<or> v_display m > v_display h \<or>
            v_sync_start m < v_sync_start l \<or> v_sync_start m > v_sync_start h \<or>
            v_sync_end m < v_sync_end l \<or> v_sync_end m > v_sync_end h \<or>
            v_total m < v_total l \<or> v_total m > v_total h then False
         else if pixel_clock m > pixel_clock h \<or> pixel_clock m < pixel_clock l then False
         else if virtual_width mode > virtual_width high \<or> virtual_width mode < virtual_width low then False
         else if virtual_height mode > virtual_height high \<or> virtual_height mode < virtual_height low then False
         else True)"

lemma ModeTimingsEqual_iff: "ModeTimingsEqual a b \<longleftrightarrow> a = b"
  by (cases a; cases b) (auto simp: ModeTimingsEqual_def)

section \<open>ProposeMode\<close>

definition bounds_status :: "display_mode \<Rightarrow> display_mode \<Rightarrow> display_mode \<Rightarrow> unit status" where
  "bounds_status target low high =
     (if IsDisplayModeWithinBounds target low high then B_OK else Inl B_BAD_VALUE)"

definition is_candidate :: "display_mode \<Rightarrow> NvKmsMode \<Rightarrow> bool" where
  "is_candidate target m =
     (let t = ToHaikuModeTimings (timings m)
      in h_display t = h_display (timing target) \<and> v_display t = v_display (timing target) \<and>
         flags t AND B_TIMING_INTERLACED = flags (timing target) AND B_TIMING_INTERLACED)"

definition refresh_distance :: "u32 \<Rightarrow> NvKmsMode \<Rightarrow> int" where
  "refresh_distance req m = \<bar>uint (RRx1k (timings m)) - uint req\<bar>"

text \<open>The second loop; \<open>best\<close> is \<open>fModeList[bestCandidateIdx]\<close>, \<open>None\<close> for the index -1.\<close>

fun best_candidate :: "display_mode \<Rightarrow> u32 \<Rightarrow> NvKmsMode list \<Rightarrow> NvKmsMode option \<Rightarrow> NvKmsMode option" where
  "best_candidate target req [] best = best"
| "best_candidate target req (m # ms) best =
     best_candidate target req ms
       (if is_candidate target m \<and>
           (case best of None \<Rightarrow> True | Some b \<Rightarrow> refresh_distance req m < refresh_distance req b)
        then Some m else best)"

definition ProposeMode ::
    "NvKmsMode list \<Rightarrow> display_mode \<Rightarrow> display_mode \<Rightarrow> display_mode \<Rightarrow> (unit status \<times> display_mode) option" where
  "ProposeMode fModeList target low high =
     (case find (\<lambda>m. ModeTimingsEqual (timing target) (timing (ToHaikuMode m))) fModeList of
        Some m \<Rightarrow> Some (bounds_status target low high, target)
      | None \<Rightarrow>
          (case CalcRefreshRate (timing target) of
             None \<Rightarrow> None
           | Some reqRefreshRate \<Rightarrow>
               (case best_candidate target reqRefreshRate fModeList None of
                  None \<Rightarrow> Some (Inl B_ERROR, target)
                | Some m \<Rightarrow>
                    let target' = target\<lparr>timing := ToHaikuModeTimings (timings m)\<rparr>
                    in Some (bounds_status target' low high, target'))))"

lemma best_candidate_spec:
  assumes "\<forall>b. best = Some b \<longrightarrow> is_candidate target b"
  shows "case best_candidate target req ms best of
     None \<Rightarrow> best = None \<and> (\<forall>m \<in> set ms. \<not> is_candidate target m)
   | Some r \<Rightarrow> (best = Some r \<or> r \<in> set ms) \<and> is_candidate target r \<and>
       (\<forall>m \<in> set ms. is_candidate target m \<longrightarrow> refresh_distance req r \<le> refresh_distance req m) \<and>
       (\<forall>b. best = Some b \<longrightarrow> refresh_distance req r \<le> refresh_distance req b)"
  using assms
proof (induction ms arbitrary: best)
  case Nil
  then show ?case by (cases best) auto
next
  case (Cons m ms)
  define best' where "best' = (if is_candidate target m \<and>
     (case best of None \<Rightarrow> True | Some b \<Rightarrow> refresh_distance req m < refresh_distance req b) then Some m else best)"
  have "\<forall>b. best' = Some b \<longrightarrow> is_candidate target b" using Cons.prems by (auto simp: best'_def)
  note IH = Cons.IH [OF this]
  show ?case
  proof (cases "best_candidate target req ms best'")
    case None
    with IH have "best' = None" by simp
    then have "best = None" "\<not> is_candidate target m" by (auto simp: best'_def split: if_splits)
    with IH None show ?thesis by (simp add: best'_def [symmetric])
  next
    case (Some r)
    with IH have r: "best' = Some r \<or> r \<in> set ms" "is_candidate target r"
      "\<forall>m \<in> set ms. is_candidate target m \<longrightarrow> refresh_distance req r \<le> refresh_distance req m"
      "\<forall>b. best' = Some b \<longrightarrow> refresh_distance req r \<le> refresh_distance req b" by simp_all
    have "best = Some r \<or> r \<in> set (m # ms)" using r(1) by (auto simp: best'_def split: if_splits)
    moreover have "is_candidate target m \<longrightarrow> refresh_distance req r \<le> refresh_distance req m"
      using r(4) by (cases best) (auto simp: best'_def split: if_splits)
    moreover have "\<forall>b. best = Some b \<longrightarrow> refresh_distance req r \<le> refresh_distance req b"
      using r(4) by (auto simp: best'_def split: if_splits)
    moreover have "best_candidate target req (m # ms) best = Some r"
      using Some by (simp add: best'_def)
    ultimately show ?thesis using r(2,3) by simp
  qed
qed


definition ex_mode :: "u32 \<Rightarrow> NvKmsMode" where
  "ex_mode rr = \<lparr>timings = \<lparr>RRx1k = rr, pixelClockHz = 148500000, hVisible = 1920, hSyncStart = 2008,
     hSyncEnd = 2052, hTotal = 2200, vVisible = 1080, vSyncStart = 1084, vSyncEnd = 1089, vTotal = 1125,
     interlaced = False, hSyncPos = True, hSyncNeg = False, vSyncPos = True, vSyncNeg = False\<rparr>\<rparr>"


section \<open>GetPixelClockLimits\<close>

text \<open>The test of the loop compares the mode's flags with the interlace bit of \<open>v_display\<close>.\<close>

definition limits_match :: "display_mode \<Rightarrow> display_timing \<Rightarrow> bool" where
  "limits_match dm t \<longleftrightarrow>
     h_display t = h_display (timing dm) \<and> v_display t = v_display (timing dm) \<and>
     flags t AND B_TIMING_INTERLACED = ucast (v_display (timing dm)) AND B_TIMING_INTERLACED"

fun limits_loop :: "display_mode \<Rightarrow> NvKmsMode list \<Rightarrow> u32 \<times> u32 \<Rightarrow> u32 \<times> u32" where
  "limits_loop dm [] lh = lh"
| "limits_loop dm (m # ms) (low, high) =
     (let t = ToHaikuModeTimings (timings m)
      in limits_loop dm ms
           (if limits_match dm t then (min low (pixel_clock t), max high (pixel_clock t)) else (low, high)))"

definition GetPixelClockLimits :: "NvKmsMode list \<Rightarrow> display_mode \<Rightarrow> sys_error + (u32 \<times> u32)" where
  "GetPixelClockLimits fModeList dm =
     (let (low, high) = limits_loop dm fModeList (- 1, 0)
      in if low > high then Inl (GenericError (ERR B_ERROR)) else Inr (low, high))"

text \<open>The pixel clocks of the progressive modes of this resolution.\<close>

definition progressive_clocks :: "NvKmsMode list \<Rightarrow> display_mode \<Rightarrow> u32 list" where
  "progressive_clocks modes dm =
     map (\<lambda>m. pixel_clock (ToHaikuModeTimings (timings m)))
       (filter (\<lambda>m. \<not> interlaced (timings m) \<and> hVisible (timings m) = h_display (timing dm) \<and>
                    vVisible (timings m) = v_display (timing dm)) modes)"

lemma limits_match_progressive:
  "limits_match dm (ToHaikuModeTimings n) \<longleftrightarrow>
     \<not> interlaced n \<and> hVisible n = h_display (timing dm) \<and> vVisible n = v_display (timing dm)"
proof -
  have "ucast (w :: u16) AND B_TIMING_INTERLACED = (0 :: u32)" for w
    by (rule bit_word_eqI) (auto simp: bit_and_iff bit_flag bit_unsigned_iff dest: bit_imp_le_length)
  moreover have "flags (ToHaikuModeTimings n) AND B_TIMING_INTERLACED = 0 \<longleftrightarrow> \<not> interlaced n"
    unfolding and.commute [of _ B_TIMING_INTERLACED] flag_bits
    by (auto simp: ToHaikuModeTimings_def bit_or_iff bit_flag)
  ultimately show ?thesis by (auto simp: limits_match_def ToHaikuModeTimings_def)
qed

lemma limits_loop_fold:
  "limits_loop dm ms (low, high) =
     (fold min (progressive_clocks ms dm) low, fold max (progressive_clocks ms dm) high)"
  by (induction ms arbitrary: low high)
    (simp_all add: limits_match_progressive progressive_clocks_def Let_def min.commute max.commute)

text \<open>
  \<open>GetPixelClockLimits\<close> looks at progressive modes only: whatever interlacing the caller asks
  for, the result is the least and the greatest pixel clock of the progressive modes of that
  resolution, and \<open>B_ERROR\<close> when there are none. So for an interlaced mode the limits are those of
  its progressive namesakes, or an error although the mode itself is in the list.
\<close>

theorem pixel_clock_limits_progressive:
  "GetPixelClockLimits modes dm =
     (if progressive_clocks modes dm = [] then Inl (GenericError (ERR B_ERROR))
      else Inr (Min (set (progressive_clocks modes dm)), Max (set (progressive_clocks modes dm))))"
proof -
  let ?cs = "progressive_clocks modes dm"
  have ends: "min (- 1) c = c" "max 0 c = c" for c :: u32
    by (simp_all add: min_absorb2 word_order.extremum max_absorb2)
  show ?thesis
  proof (cases ?cs)
    case Nil
    then show ?thesis by (simp add: GetPixelClockLimits_def limits_loop_fold word_gt_0)
  next
    case (Cons c cs)
    have "fold min ?cs (- 1) = Min (set ?cs)" "fold max ?cs 0 = Max (set ?cs)"
      using Cons ends Min.set_eq_fold [of c cs] Max.set_eq_fold [of c cs] by (simp_all add: min.commute max.commute)
    moreover have "Min (set ?cs) \<le> Max (set ?cs)"
      using Cons by (intro order_trans [OF Min_le Max_ge]) auto
    ultimately show ?thesis using Cons by (simp add: GetPixelClockLimits_def limits_loop_fold not_less)
  qed
qed

end
