(* ===== verification/ModeMenus.thy ===== *)
theory ModeMenus
  imports Modes DeviceNames
begin

text \<open>
  The window of \<open>accelerant/ModesetTest2.cpp\<close>: a table of display modes, the menus of resolutions and
  refresh rates that are made from it with two nested \<open>std::map\<close>s, and what selecting a resolution
  does.
\<close>

section \<open>The table of modes\<close>

definition mode_entry ::
    "u32 \<Rightarrow> u16 \<Rightarrow> u16 \<Rightarrow> u16 \<Rightarrow> u16 \<Rightarrow> u16 \<Rightarrow> u16 \<Rightarrow> u16 \<Rightarrow> u16 \<Rightarrow> u32 \<Rightarrow> display_mode" where
  "mode_entry clock h1 h2 h3 h4 v1 v2 v3 v4 fl =
     \<lparr>timing = \<lparr>pixel_clock = clock, h_display = h1, h_sync_start = h2, h_sync_end = h3, h_total = h4,
                v_display = v1, v_sync_start = v2, v_sync_end = v3, v_total = v4, flags = fl\<rparr>,
      space = B_RGB32, virtual_width = h1, virtual_height = v1, h_display_start = 0, v_display_start = 0\<rparr>"

definition modes_1 :: "display_mode list" where
  "modes_1 =
    [
     mode_entry 148500 1920 2008 2052 2200 1080 1084 1089 1125 (B_POSITIVE_HSYNC OR B_POSITIVE_VSYNC),
     mode_entry 25170 640 656 752 800 480 490 492 525 0,
     mode_entry 27000 720 736 798 858 480 489 495 525 0,
     mode_entry 27000 720 736 798 858 480 489 495 525 0,
     mode_entry 74180 1280 1390 1430 1650 720 725 730 750 (B_POSITIVE_HSYNC OR B_POSITIVE_VSYNC),
     mode_entry 148350 1920 2008 2052 2200 1080 1084 1089 1125 (B_POSITIVE_HSYNC OR B_POSITIVE_VSYNC),
     mode_entry 27000 720 732 796 864 576 581 586 625 0,
     mode_entry 27000 720 732 796 864 576 581 586 625 0
    ]"

definition modes_2 :: "display_mode list" where
  "modes_2 =
    [
     mode_entry 74250 1280 1720 1760 1980 720 725 730 750 (B_POSITIVE_HSYNC OR B_POSITIVE_VSYNC),
     mode_entry 54000 1440 1464 1592 1728 576 581 586 625 B_POSITIVE_VSYNC,
     mode_entry 148500 1920 2448 2492 2640 1080 1084 1089 1125 (B_POSITIVE_HSYNC OR B_POSITIVE_VSYNC),
     mode_entry 148500 1920 2008 2052 2200 1080 1084 1089 1125 (B_POSITIVE_HSYNC OR B_POSITIVE_VSYNC),
     mode_entry 27000 720 736 798 858 480 489 495 525 0,
     mode_entry 74250 1280 1390 1430 1650 720 725 730 750 (B_POSITIVE_HSYNC OR B_POSITIVE_VSYNC),
     mode_entry 27000 720 732 796 864 576 581 586 625 0,
     mode_entry 108000 1152 1216 1344 1600 864 865 868 900 (B_POSITIVE_HSYNC OR B_POSITIVE_VSYNC)
    ]"

definition modes_3 :: "display_mode list" where
  "modes_3 =
    [
     mode_entry 108000 1280 1376 1488 1800 960 961 964 1000 (B_POSITIVE_HSYNC OR B_POSITIVE_VSYNC),
     mode_entry 108000 1280 1328 1440 1688 1024 1025 1028 1066 (B_POSITIVE_HSYNC OR B_POSITIVE_VSYNC),
     mode_entry 106500 1440 1520 1672 1904 900 903 909 934 B_POSITIVE_VSYNC,
     mode_entry 146250 1680 1784 1960 2240 1050 1053 1059 1089 B_POSITIVE_VSYNC,
     mode_entry 148500 1920 2008 2052 2200 1080 1084 1089 1125 (B_POSITIVE_HSYNC OR B_POSITIVE_VSYNC),
     mode_entry 25170 640 656 752 800 480 490 492 525 0,
     mode_entry 31500 640 656 696 832 480 481 484 520 0,
     mode_entry 31500 640 656 720 840 480 481 484 500 0
    ]"

definition modes_4 :: "display_mode list" where
  "modes_4 =
    [
     mode_entry 36000 800 824 896 1024 600 601 603 625 (B_POSITIVE_HSYNC OR B_POSITIVE_VSYNC),
     mode_entry 40000 800 840 968 1056 600 601 605 628 (B_POSITIVE_HSYNC OR B_POSITIVE_VSYNC),
     mode_entry 50000 800 856 976 1040 600 637 643 666 (B_POSITIVE_HSYNC OR B_POSITIVE_VSYNC),
     mode_entry 49500 800 816 896 1056 600 601 604 625 (B_POSITIVE_HSYNC OR B_POSITIVE_VSYNC),
     mode_entry 65000 1024 1048 1184 1344 768 771 777 806 0,
     mode_entry 75000 1024 1048 1184 1328 768 771 777 806 0,
     mode_entry 78750 1024 1040 1136 1312 768 769 772 800 (B_POSITIVE_HSYNC OR B_POSITIVE_VSYNC),
     mode_entry 135000 1280 1296 1440 1688 1024 1025 1028 1066 (B_POSITIVE_HSYNC OR B_POSITIVE_VSYNC)
    ]"

definition modes_5 :: "display_mode list" where
  "modes_5 =
    [
     mode_entry 25170 640 656 752 800 480 490 492 525 0,
     mode_entry 31500 640 656 720 840 480 481 484 500 0,
     mode_entry 36000 800 824 896 1024 600 601 603 625 (B_POSITIVE_HSYNC OR B_POSITIVE_VSYNC),
     mode_entry 40000 800 840 968 1056 600 601 605 628 (B_POSITIVE_HSYNC OR B_POSITIVE_VSYNC),
     mode_entry 50000 800 856 976 1040 600 637 643 666 (B_POSITIVE_HSYNC OR B_POSITIVE_VSYNC),
     mode_entry 49500 800 816 896 1056 600 601 604 625 (B_POSITIVE_HSYNC OR B_POSITIVE_VSYNC),
     mode_entry 65000 1024 1048 1184 1344 768 771 777 806 0,
     mode_entry 75000 1024 1048 1184 1328 768 771 777 806 0
    ]"

definition modes_6 :: "display_mode list" where
  "modes_6 =
    [
     mode_entry 78750 1024 1040 1136 1312 768 769 772 800 (B_POSITIVE_HSYNC OR B_POSITIVE_VSYNC),
     mode_entry 108000 1152 1216 1344 1600 864 865 868 900 (B_POSITIVE_HSYNC OR B_POSITIVE_VSYNC),
     mode_entry 108000 1280 1376 1488 1800 960 961 964 1000 (B_POSITIVE_HSYNC OR B_POSITIVE_VSYNC),
     mode_entry 108000 1280 1328 1440 1688 1024 1025 1028 1066 (B_POSITIVE_HSYNC OR B_POSITIVE_VSYNC),
     mode_entry 135000 1280 1296 1440 1688 1024 1025 1028 1066 (B_POSITIVE_HSYNC OR B_POSITIVE_VSYNC)
    ]"

definition modes :: "display_mode list" where
  "modes = modes_1 @ modes_2 @ modes_3 @ modes_4 @ modes_5 @ modes_6"

section \<open>Names\<close>

definition GetRefreshRate :: "display_timing \<Rightarrow> u32 option" where
  "GetRefreshRate t =
     (let multiplier = (if B_TIMING_INTERLACED AND flags t \<noteq> 0 then 2000000 else 1000000 :: u64);
          total = (ucast (h_total t) * ucast (v_total t) :: u64)
      in if total = 0 then None else Some (ucast ((multiplier * ucast (pixel_clock t)) div total)))"

definition GetResolutionName :: "display_timing \<Rightarrow> string" where
  "GetResolutionName t = show_nat (unat (h_display t)) @ ''x'' @ show_nat (unat (v_display t))"

text \<open>\<open>%03u\<close>.\<close>

definition pad3 :: "string \<Rightarrow> string" where "pad3 s = replicate (3 - length s) (CHR ''0'') @ s"

definition GetRefreshRateName :: "display_timing \<Rightarrow> string option" where
  "GetRefreshRateName t =
     map_option (\<lambda>refreshRate.
       show_nat (unat (refreshRate div 1000)) @ ''.'' @ pad3 (show_nat (unat (refreshRate mod 1000))) @ '' Hz'' @
       (if B_TIMING_INTERLACED AND flags t \<noteq> 0 then '' (interlaced)'' else '''')) (GetRefreshRate t)"

definition GetColorSpaceName :: "color_space \<Rightarrow> string" where
  "GetColorSpaceName colorSpace =
     (case colorSpace of
        B_GRAY1 \<Rightarrow> ''GRAY1'' | B_GRAY8 \<Rightarrow> ''GRAY8'' | B_CMAP8 \<Rightarrow> ''CMAP8'' | B_RGB15 \<Rightarrow> ''RGB15''
      | B_RGB16 \<Rightarrow> ''RGB16'' | B_RGB32 \<Rightarrow> ''RGB32'' | B_RGB48 \<Rightarrow> ''RGB48'' | _ \<Rightarrow> ''unknown'')"

section \<open>The maps\<close>

text \<open>A \<open>std::map\<close> is kept as the list of its entries in ascending order: \<open>insert\<close> of a value for a new
  key, then an update of the value that is there.\<close>

fun upsert :: "('k \<Rightarrow> 'k \<Rightarrow> bool) \<Rightarrow> 'k \<Rightarrow> 'v \<Rightarrow> ('v \<Rightarrow> 'v) \<Rightarrow> ('k \<times> 'v) list \<Rightarrow> ('k \<times> 'v) list" where
  "upsert lt k init f [] = [(k, f init)]"
| "upsert lt k init f ((k1, v) # m) =
     (if lt k k1 then (k, f init) # (k1, v) # m
      else if lt k1 k then (k1, v) # upsert lt k init f m
      else (k1, f v) # m)"

definition ModeResolutionKey_less :: "display_timing \<Rightarrow> display_timing \<Rightarrow> bool" where
  "ModeResolutionKey_less t other =
     (if h_display t \<noteq> h_display other then h_display t < h_display other else v_display t < v_display other)"

text \<open>The value for a division by zero is never looked at: see \<open>BuildModeMenus\<close>.\<close>

definition refresh_rate :: "display_timing \<Rightarrow> u32" where
  "refresh_rate t = (case GetRefreshRate t of None \<Rightarrow> 0 | Some r \<Rightarrow> r)"

definition is_interlaced :: "display_timing \<Rightarrow> bool" where
  "is_interlaced t \<longleftrightarrow> B_TIMING_INTERLACED AND flags t \<noteq> 0"

definition ModeRefreshRateKey_less :: "display_timing \<Rightarrow> display_timing \<Rightarrow> bool" where
  "ModeRefreshRateKey_less t other =
     (if refresh_rate t \<noteq> refresh_rate other then refresh_rate t < refresh_rate other
      else \<not> is_interlaced t \<and> is_interlaced other)"

text \<open>The keys of the two maps are structures with a reference to a timing and an operator \<open><\<close>. Neither is a
  linear order: different timings may be one key.\<close>

datatype ModeResolutionKey = ModeResolutionKey (resolution_timing: display_timing)
datatype ModeRefreshRateKey = ModeRefreshRateKey (rate_timing: display_timing)

instantiation ModeResolutionKey :: preorder
begin

definition less_ModeResolutionKey :: "ModeResolutionKey \<Rightarrow> ModeResolutionKey \<Rightarrow> bool" where
  "k < other \<longleftrightarrow> ModeResolutionKey_less (resolution_timing k) (resolution_timing other)"

definition less_eq_ModeResolutionKey :: "ModeResolutionKey \<Rightarrow> ModeResolutionKey \<Rightarrow> bool" where
  "k \<le> other \<longleftrightarrow> \<not> other < (k :: ModeResolutionKey)"

instance
  by standard (auto simp: less_ModeResolutionKey_def less_eq_ModeResolutionKey_def ModeResolutionKey_less_def split: if_splits)

end

instantiation ModeRefreshRateKey :: preorder
begin

definition less_ModeRefreshRateKey :: "ModeRefreshRateKey \<Rightarrow> ModeRefreshRateKey \<Rightarrow> bool" where
  "k < other \<longleftrightarrow> ModeRefreshRateKey_less (rate_timing k) (rate_timing other)"

definition less_eq_ModeRefreshRateKey :: "ModeRefreshRateKey \<Rightarrow> ModeRefreshRateKey \<Rightarrow> bool" where
  "k \<le> other \<longleftrightarrow> \<not> other < (k :: ModeRefreshRateKey)"

instance
  by standard (auto simp: less_ModeRefreshRateKey_def less_eq_ModeRefreshRateKey_def ModeRefreshRateKey_less_def split: if_splits)

end

definition resolution_key :: "display_mode \<Rightarrow> ModeResolutionKey" where
  "resolution_key m = ModeResolutionKey (timing m)"

definition rate_key :: "display_mode \<Rightarrow> ModeRefreshRateKey" where
  "rate_key m = ModeRefreshRateKey (timing m)"

type_synonym rate_map = "(ModeRefreshRateKey \<times> display_mode list) list"

definition add_rate :: "display_mode \<Rightarrow> rate_map \<Rightarrow> rate_map" where
  "add_rate m = upsert (<) (rate_key m) [] (\<lambda>ms. ms @ [m])"

definition groupedModes :: "display_mode list \<Rightarrow> (ModeResolutionKey \<times> rate_map) list" where
  "groupedModes ms = fold (\<lambda>m. upsert (<) (resolution_key m) [] (add_rate m)) ms []"

text \<open>Two keys of refresh rates are compared, which divides by the totals of both timings, when a mode
  joins a resolution that has a mode already.\<close>

definition divides_by_zero :: "rate_map \<Rightarrow> bool" where
  "divides_by_zero rates \<longleftrightarrow>
     (let group = concat (map snd rates) in 2 \<le> length group \<and> (\<exists>m \<in> set group. GetRefreshRate (timing m) = None))"

text \<open>The items of the resolution menu: the name and the message, which holds for each refresh rate the
  timings of its modes.\<close>

definition BuildModeMenus :: "display_mode list \<Rightarrow> (string \<times> display_timing list list) list option" where
  "BuildModeMenus ms =
     (let groups = groupedModes ms
      in if \<exists>(k, rates) \<in> set groups. divides_by_zero rates then None
         else Some (map (\<lambda>(k, rates). (GetResolutionName (resolution_timing k), map (\<lambda>(_, group). map timing group) rates)) groups))"

text \<open>The items of the refresh rate menu: the name, the timing and the mark. The first timing of each
  group stands for all of it.\<close>

fun refresh_items :: "bool \<Rightarrow> display_timing list list \<Rightarrow> (string \<times> display_timing \<times> bool) list option" where
  "refresh_items first [] = Some []"
| "refresh_items first ([] # groups) = None"
| "refresh_items first ((t # ts) # groups) =
     (case (GetRefreshRateName t, refresh_items False groups) of
        (Some name, Some items) \<Rightarrow> Some ((name, t, first) # items)
      | _ \<Rightarrow> None)"

definition ResolutionSelected :: "display_timing list list \<Rightarrow> (string \<times> display_timing \<times> bool) list option" where
  "ResolutionSelected refreshRates = refresh_items True refreshRates"

section \<open>Maps with a strict weak order\<close>

locale key_order =
  fixes lt :: "'k \<Rightarrow> 'k \<Rightarrow> bool"
  assumes asym: "lt a b \<Longrightarrow> \<not> lt b a"
    and trans: "lt a b \<Longrightarrow> lt b c \<Longrightarrow> lt a c"
    and weak: "lt a b \<Longrightarrow> lt a c \<or> lt c b"
begin

definition same :: "'k \<Rightarrow> 'k \<Rightarrow> bool" where "same a b \<longleftrightarrow> \<not> lt a b \<and> \<not> lt b a"

lemma same_refl [simp]: "same a a"
  using asym by (auto simp: same_def)

lemma same_sym: "same a b \<Longrightarrow> same b a"
  by (simp add: same_def)

lemma same_trans: "same a b \<Longrightarrow> same b c \<Longrightarrow> same a c"
  using weak by (auto simp: same_def)

lemma less_cong: "same a a' \<Longrightarrow> same b b' \<Longrightarrow> lt a b \<Longrightarrow> lt a' b'"
  using weak [of a b a'] weak [of a' b b'] by (auto simp: same_def)

abbreviation ascending :: "('k \<times> 'v) list \<Rightarrow> bool" where
  "ascending m \<equiv> sorted_wrt lt (map fst m)"

lemma upsert_keys: "(k', v) \<in> set (upsert lt k init f m) \<Longrightarrow> k' = k \<or> (\<exists>v. (k', v) \<in> set m)"
  by (induction m) (auto split: if_splits)

lemma upsert_ascending: "ascending m \<Longrightarrow> ascending (upsert lt k init f m)"
proof (induction m)
  case (Cons kv m)
  obtain k1 v where kv: "kv = (k1, v)" by (cases kv)
  show ?case
  proof (cases "lt k1 k")
    case True
    then show ?thesis using Cons asym [of k1 k] by (auto simp: kv dest!: upsert_keys)
  next
    case False
    then show ?thesis using Cons trans by (auto simp: kv)
  qed
qed simp

lemma upsert_entries:
  "ascending m \<Longrightarrow> (k', v) \<in> set (upsert lt k init f m) \<longleftrightarrow>
     (if same k k'
      then (\<exists>v0. (k', v0) \<in> set m \<and> v = f v0) \<or> k' = k \<and> v = f init \<and> (\<forall>k1 \<in> fst ` set m. \<not> same k k1)
      else (k', v) \<in> set m)"
proof (induction m)
  case (Cons kv m)
  obtain k1 v1 where kv: "kv = (k1, v1)" by (cases kv)
  have rest: "lt k1 k2" if "(k2, v2) \<in> set m" for k2 v2 using Cons.prems that by (auto simp: kv)
  consider "lt k k1" | "lt k1 k" "\<not> lt k k1" | "same k k1" by (auto simp: same_def)
  then show ?case
  proof cases
    case 1
    have none: "\<not> same k k2" if "(k2, v2) \<in> set (kv # m)" for k2 v2
      using that 1 rest [of k2 v2] trans [OF 1] by (auto simp: kv same_def)
    have up: "upsert lt k init f (kv # m) = (k, f init) # kv # m" using 1 by (simp add: kv)
    show ?thesis
    proof (cases "same k k'")
      case True
      then have "(k', v0) \<notin> set (kv # m)" for v0 using none by blast
      moreover have "\<forall>k2 \<in> fst ` set (kv # m). \<not> same k k2" using none by (metis imageE prod.collapse)
      ultimately show ?thesis using True unfolding up by simp
    next
      case False
      then have "k' \<noteq> k" by auto
      then show ?thesis using False unfolding up by simp
    qed
  next
    case 2
    then have "\<not> same k k1" by (simp add: same_def)
    then show ?thesis using 2 Cons by (auto simp: kv)
  next
    case 3
    then have ns: "\<not> lt k k1" "\<not> lt k1 k" by (simp_all add: same_def)
    have none: "\<not> same k k2" if "(k2, v2) \<in> set m" for k2 v2
      using rest [OF that] same_trans [OF same_sym [OF 3], of k2] by (auto simp: same_def)
    have up: "upsert lt k init f (kv # m) = (k1, f v1) # m" using ns by (simp add: kv)
    show ?thesis
    proof (cases "same k k'")
      case True
      then have "(k', v0) \<notin> set m" for v0 using none by blast
      then show ?thesis using True 3 unfolding up by (auto simp: kv)
    next
      case False
      then have "k' \<noteq> k1" using 3 by auto
      then show ?thesis using False unfolding up by (simp add: kv)
    qed
  qed
qed auto

text \<open>Grouping by a key: every entry belongs to one class of keys and holds what its members, in their
  order, make of the initial value.\<close>

definition grouped :: "('x \<Rightarrow> 'k) \<Rightarrow> 'v \<Rightarrow> ('x \<Rightarrow> 'v \<Rightarrow> 'v) \<Rightarrow> 'x list \<Rightarrow> ('k \<times> 'v) list" where
  "grouped key init g xs = fold (\<lambda>x. upsert lt (key x) init (g x)) xs []"

lemma grouped_spec:
  "ascending (grouped key init g xs) \<and>
   (\<forall>k v. (k, v) \<in> set (grouped key init g xs) \<longrightarrow>
      k \<in> key ` set xs \<and> v = fold g (filter (\<lambda>x. same k (key x)) xs) init) \<and>
   (\<forall>x \<in> set xs. \<exists>k v. (k, v) \<in> set (grouped key init g xs) \<and> same k (key x))"
proof (induction xs rule: rev_induct)
  case (snoc x xs)
  let ?m = "grouped key init g xs"
  have asc: "ascending ?m"
    and ent: "\<And>k v. (k, v) \<in> set ?m \<Longrightarrow> k \<in> key ` set xs \<and> v = fold g (filter (\<lambda>x. same k (key x)) xs) init"
    and ex: "\<And>y. y \<in> set xs \<Longrightarrow> \<exists>k v. (k, v) \<in> set ?m \<and> same k (key y)"
    using snoc by blast+
  have m': "grouped key init g (xs @ [x]) = upsert lt (key x) init (g x) ?m" by (simp add: grouped_def)
  note step = upsert_entries [OF asc, of _ _ "key x" init "g x", folded m']
  have new: "filter (\<lambda>y. same (key x) (key y)) xs = []" if "\<forall>k1 \<in> fst ` set ?m. \<not> same (key x) k1"
  proof -
    have "\<not> same (key x) (key y)" if "y \<in> set xs" for y
      using ex [OF that] \<open>\<forall>k1 \<in> fst ` set ?m. \<not> same (key x) k1\<close> same_trans same_sym by (metis fst_conv image_eqI)
    then show ?thesis by simp
  qed
  have "k \<in> key ` set (xs @ [x]) \<and> v = fold g (filter (\<lambda>y. same k (key y)) (xs @ [x])) init"
    if "(k, v) \<in> set (grouped key init g (xs @ [x]))" for k v
  proof (cases "same (key x) k")
    case True
    then have "same k (key x)" by (rule same_sym)
    then show ?thesis using that True ent new unfolding step by auto
  next
    case False
    then have "\<not> same k (key x)" using same_sym by blast
    then show ?thesis using that False ent unfolding step by auto
  qed
  moreover have "\<exists>k v. (k, v) \<in> set (grouped key init g (xs @ [x])) \<and> same k (key y)" if "y \<in> set (xs @ [x])" for y
  proof -
    have mine: "\<exists>k v. (k, v) \<in> set (grouped key init g (xs @ [x])) \<and> same k (key x)"
    proof (cases "\<forall>k1 \<in> fst ` set ?m. \<not> same (key x) k1")
      case True
      then show ?thesis unfolding step by (intro exI [of _ "key x"]) auto
    next
      case False
      then obtain k1 v1 where "(k1, v1) \<in> set ?m" "same (key x) k1" by auto
      then show ?thesis unfolding step using same_sym by (intro exI [of _ k1]) auto
    qed
    have "\<exists>k v. (k, v) \<in> set (grouped key init g (xs @ [x])) \<and> same k (key y)" if y: "y \<in> set xs"
    proof -
      obtain k v where kv: "(k, v) \<in> set ?m" "same k (key y)" using ex [OF y] by blast
      then show ?thesis unfolding step by (cases "same (key x) k") auto
    qed
    then show ?thesis using mine that by auto
  qed
  moreover have "ascending (grouped key init g (xs @ [x]))" unfolding m' using asc by (rule upsert_ascending)
  ultimately show ?case by blast
qed (simp add: grouped_def)

lemma ascending_distinct:
  assumes "sorted_wrt lt ks" "\<And>a b. a \<in> set ks \<Longrightarrow> b \<in> set ks \<Longrightarrow> name a = name b \<Longrightarrow> same a b"
  shows "distinct (map name ks)"
  using assms
proof (induction ks)
  case (Cons k ks)
  have "name k \<noteq> name b" if "b \<in> set ks" for b
    using Cons.prems(1) Cons.prems(2) [of k b] that by (auto simp: same_def)
  then show ?case using Cons by auto
qed simp

end

text \<open>What the values of a map add up to.\<close>

lemma upsert_total:
  assumes "\<And>v. h (f v) = h v + c" "h init = {#}"
  shows "sum_list (map (\<lambda>(k, v). h v) (upsert lt k init f m)) = sum_list (map (\<lambda>(k, v). h v) m) + (c :: 'a multiset)"
  using assms by (induction lt k init f m rule: upsert.induct) (auto simp: ac_simps)

interpretation resolution: key_order "(<) :: ModeResolutionKey \<Rightarrow> ModeResolutionKey \<Rightarrow> bool"
  by unfold_locales (auto simp: less_ModeResolutionKey_def ModeResolutionKey_less_def split: if_splits)

interpretation rate: key_order "(<) :: ModeRefreshRateKey \<Rightarrow> ModeRefreshRateKey \<Rightarrow> bool"
  by unfold_locales (auto simp: less_ModeRefreshRateKey_def ModeRefreshRateKey_less_def split: if_splits)

lemmas resolution_same_def = resolution.same_def less_ModeResolutionKey_def ModeResolutionKey_less_def
abbreviation same_resolution :: "display_timing \<Rightarrow> display_timing \<Rightarrow> bool" where
  "same_resolution t t' \<equiv> resolution.same (ModeResolutionKey t) (ModeResolutionKey t')"

abbreviation same_rate :: "display_timing \<Rightarrow> display_timing \<Rightarrow> bool" where
  "same_rate t t' \<equiv> rate.same (ModeRefreshRateKey t) (ModeRefreshRateKey t')"

lemmas rate_same_def = rate.same_def less_ModeRefreshRateKey_def ModeRefreshRateKey_less_def

section \<open>Names tell keys apart\<close>

lemma digits_prefix:
  assumes "\<forall>c \<in> set a. is_digit c" "\<forall>c \<in> set b. is_digit c" "\<not> is_digit c" "a @ c # x = b @ c # y"
  shows "a = b \<and> x = y"
proof -
  have "takeWhile is_digit (a @ c # x) = a" "takeWhile is_digit (b @ c # y) = b" using assms(1-3) by simp_all
  then have "a = b" using assms(4) by simp
  then show ?thesis using assms(4) by simp
qed

lemma resolution_name_same:
  assumes "GetResolutionName t = GetResolutionName t'"
  shows "same_resolution t t'"
proof -
  have "\<not> is_digit (CHR ''x'')" by (simp add: is_digit_def)
  with assms have "unat (h_display t) = unat (h_display t') \<and> unat (v_display t) = unat (v_display t')"
    using digits_prefix [of "show_nat (unat (h_display t))" "show_nat (unat (h_display t'))" "CHR ''x''"
        "show_nat (unat (v_display t))" "show_nat (unat (v_display t'))"] show_nat_digits show_nat_inj
    by (auto simp: GetResolutionName_def)
  then have "h_display t = h_display t'" "v_display t = v_display t'" by (simp_all add: word_eq_iff_unsigned [where ?'a = nat])
  then show ?thesis by (simp add: resolution_same_def)
qed

lemma digits_val_zeros: "digits_val (replicate n (CHR ''0'') @ s) = digits_val s"
proof (induction s rule: rev_induct)
  case Nil
  have "digits_val (replicate n (CHR ''0'')) = 0"
  proof (induction n)
    case (Suc n)
    have "replicate (Suc n) (CHR ''0'') = replicate n (CHR ''0'') @ [CHR ''0'']" by (simp add: replicate_append_same)
    then show ?case using Suc by (simp add: digit_val_def)
  qed simp
  then show ?case by simp
next
  case (snoc c s)
  have "replicate n (CHR ''0'') @ s @ [c] = (replicate n (CHR ''0'') @ s) @ [c]" by simp
  then show ?case using snoc by (metis digits_val_snoc)
qed

lemma pad3_digits: "\<forall>c \<in> set (pad3 (show_nat n)). is_digit c"
  using show_nat_digits [of n] by (auto simp: pad3_def is_digit_def)

lemma pad3_inj: "pad3 (show_nat a) = pad3 (show_nat b) \<Longrightarrow> a = b"
  unfolding pad3_def by (metis digits_val_zeros digits_val_show)

lemma rate_name_same:
  assumes "GetRefreshRateName t = Some name" "GetRefreshRateName t' = Some name"
  shows "same_rate t t'"
proof -
  obtain r r' where r: "GetRefreshRate t = Some r" "GetRefreshRate t' = Some r'"
    using assms by (auto simp: GetRefreshRateName_def)
  let ?il = "\<lambda>t. if B_TIMING_INTERLACED AND flags t \<noteq> 0 then '' (interlaced)'' else ''''"
  have dot: "\<not> is_digit (CHR ''.'')" and sp: "\<not> is_digit (CHR '' '')" by (simp_all add: is_digit_def)
  have eq: "show_nat (unat (r div 1000)) @ CHR ''.'' # pad3 (show_nat (unat (r mod 1000))) @ '' Hz'' @ ?il t =
      show_nat (unat (r' div 1000)) @ CHR ''.'' # pad3 (show_nat (unat (r' mod 1000))) @ '' Hz'' @ ?il t'"
    using assms r by (simp add: GetRefreshRateName_def)
  from digits_prefix [OF _ _ dot eq] show_nat_digits have
    hi: "show_nat (unat (r div 1000)) = show_nat (unat (r' div 1000))" and
    rest: "pad3 (show_nat (unat (r mod 1000))) @ CHR '' '' # ''Hz'' @ ?il t =
      pad3 (show_nat (unat (r' mod 1000))) @ CHR '' '' # ''Hz'' @ ?il t'"
    by auto
  from digits_prefix [OF pad3_digits pad3_digits sp rest] have
    lo: "pad3 (show_nat (unat (r mod 1000))) = pad3 (show_nat (unat (r' mod 1000)))" and il: "?il t = ?il t'" by simp_all
  have "unat (r div 1000) = unat (r' div 1000)" "unat (r mod 1000) = unat (r' mod 1000)"
    using hi pad3_inj [OF lo] by (simp_all add: show_nat_inj)
  then have "unat r = unat r'"
    by (metis unat_div unat_mod div_mult_mod_eq)
  then have "r = r'" by (simp add: word_eq_iff_unsigned [where ?'a = nat])
  moreover have "is_interlaced t = is_interlaced t'" using il by (auto simp: is_interlaced_def split: if_splits)
  ultimately show ?thesis using r by (simp add: rate_same_def refresh_rate_def)
qed

lemma resolution_same_name: "same_resolution t t' \<Longrightarrow> GetResolutionName t = GetResolutionName t'"
  by (auto simp: resolution_same_def GetResolutionName_def split: if_splits)

lemma rate_same_name:
  assumes "same_rate t t'" "GetRefreshRate t \<noteq> None" "GetRefreshRate t' \<noteq> None"
  shows "GetRefreshRateName t = GetRefreshRateName t'"
proof -
  have "refresh_rate t = refresh_rate t'" "is_interlaced t = is_interlaced t'"
    using assms(1) by (auto simp: rate_same_def split: if_splits)
  then show ?thesis using assms(2,3) by (auto simp: GetRefreshRateName_def refresh_rate_def is_interlaced_def)
qed

section \<open>The menus\<close>

definition snoc_mode :: "display_mode \<Rightarrow> display_mode list \<Rightarrow> display_mode list" where
  "snoc_mode m ms = ms @ [m]"

lemma fold_snoc_mode: "fold snoc_mode xs ys = ys @ xs"
  by (induction xs arbitrary: ys) (simp_all add: snoc_mode_def)

lemma groupedModes_grouped: "groupedModes ms = resolution.grouped resolution_key [] add_rate ms"
  by (simp add: groupedModes_def resolution.grouped_def)

lemma fold_add_rate: "fold add_rate ms [] = rate.grouped rate_key [] snoc_mode ms"
proof -
  have "add_rate = (\<lambda>m. upsert (<) (rate_key m) [] (snoc_mode m))"
    by (simp add: fun_eq_iff add_rate_def snoc_mode_def [abs_def])
  then show ?thesis by (simp add: rate.grouped_def)
qed

lemmas resolution_spec = resolution.grouped_spec [of resolution_key "[]" add_rate, folded groupedModes_grouped, unfolded fold_add_rate]
lemmas rate_spec = rate.grouped_spec [of rate_key "[]" snoc_mode, unfolded fold_snoc_mode append_Nil]

text \<open>An entry of the two maps.\<close>

lemma rates_of:
  assumes "(k, rates) \<in> set (groupedModes ms)"
  shows "k \<in> resolution_key ` set ms" "sorted_wrt (<) (map fst rates)" "rates \<noteq> []"
    "(q, g) \<in> set rates \<Longrightarrow> g \<noteq> [] \<and> rate.same q (rate_key (hd g)) \<and>
       (\<forall>m \<in> set g. m \<in> set ms \<and> resolution.same k (resolution_key m) \<and> rate.same q (rate_key m))"
proof -
  let ?ms = "filter (\<lambda>m. resolution.same k (resolution_key m)) ms"
  have k: "k \<in> resolution_key ` set ms" and rates: "rates = rate.grouped rate_key [] snoc_mode ?ms"
    using resolution_spec [of ms] assms by blast+
  show "k \<in> resolution_key ` set ms" by (rule k)
  then obtain m where "m \<in> set ms" "k = resolution_key m" by blast
  then have m: "m \<in> set ?ms" by simp
  show "sorted_wrt (<) (map fst rates)" unfolding rates using rate_spec [of ?ms] by blast
  show "rates \<noteq> []" using rate_spec [of ?ms] m unfolding rates by fastforce
  assume "(q, g) \<in> set rates"
  then have q: "q \<in> rate_key ` set ?ms" and g: "g = filter (\<lambda>m. rate.same q (rate_key m)) ?ms"
    using rate_spec [of ?ms] unfolding rates by blast+
  from q obtain m' where "m' \<in> set ?ms" "q = rate_key m'" by blast
  then have "m' \<in> set g" by (simp add: g)
  then have ne: "g \<noteq> []" by auto
  then have "hd g \<in> set g" by simp
  then have "rate.same q (rate_key (hd g))" unfolding g by simp
  then show "g \<noteq> [] \<and> rate.same q (rate_key (hd g)) \<and>
      (\<forall>m \<in> set g. m \<in> set ms \<and> resolution.same k (resolution_key m) \<and> rate.same q (rate_key m))"
    using ne by (auto simp: g)
qed

text \<open>Every mode is in the maps once.\<close>

lemma add_rate_total:
  "sum_list (map (\<lambda>(k, v). mset v) (add_rate m rates)) = sum_list (map (\<lambda>(k, v). mset v) rates) + {#m#}"
  unfolding add_rate_def by (rule upsert_total) simp_all

lemma groupedModes_total:
  "sum_list (map (\<lambda>(t, rates). sum_list (map (\<lambda>(q, g). mset g) rates)) (groupedModes ms)) = mset ms"
proof (induction ms rule: rev_induct)
  case (snoc m ms)
  have "groupedModes (ms @ [m]) = upsert (<) (resolution_key m) [] (add_rate m) (groupedModes ms)"
    by (simp add: groupedModes_def)
  then show ?case using snoc
    by (simp add: upsert_total [where c = "{#m#}"] add_rate_total)
qed (simp add: groupedModes_def)

lemma refresh_items_eq:
  "\<forall>g \<in> set groups. g \<noteq> [] \<and> GetRefreshRateName (hd g) \<noteq> None \<Longrightarrow>
   refresh_items first groups =
     Some (map (\<lambda>(g, mark). (the (GetRefreshRateName (hd g)), hd g, mark))
       (zip groups (first # replicate (length groups - 1) False)))"
proof (induction first groups rule: refresh_items.induct)
  case (3 first t ts groups)
  then show ?case by (cases groups) auto
qed auto

text \<open>One refresh rate menu.\<close>

lemma ResolutionSelected_menu:
  assumes groups: "\<forall>g \<in> set groups. g \<noteq> [] \<and> (\<forall>t \<in> set g. GetRefreshRate t \<noteq> None \<and> same_rate (hd g) t)"
    and sorted: "sorted_wrt ModeRefreshRateKey_less (map hd groups)" and ne: "groups \<noteq> []"
  obtains menu where "ResolutionSelected groups = Some menu" "length menu = length groups" "distinct (map fst menu)"
    "map (\<lambda>item. fst (snd item)) menu = map hd groups"
    "\<forall>i < length menu. snd (snd (menu ! i)) = (i = 0) \<and>
       (\<forall>t \<in> set (groups ! i). GetRefreshRateName t = Some (fst (menu ! i)))"
proof -
  let ?name = "\<lambda>t. the (GetRefreshRateName t)"
  let ?marks = "True # replicate (length groups - 1) False"
  let ?menu = "map (\<lambda>(g, mark). (?name (hd g), hd g, mark)) (zip groups ?marks)"
  have len: "length ?marks = length groups" using ne by simp
  have named: "GetRefreshRateName t = Some (?name (hd g))" if "g \<in> set groups" "t \<in> set g" for g t
  proof -
    have "hd g \<in> set g" "g \<noteq> []" using that groups by auto
    then have "GetRefreshRateName (hd g) = GetRefreshRateName t"
      using that groups by (intro rate_same_name) auto
    then show ?thesis using that groups by (auto simp: GetRefreshRateName_def)
  qed
  have hd_named: "GetRefreshRateName (hd g) = Some (?name (hd g))" if "g \<in> set groups" for g
    using named [OF that, of "hd g"] groups that by auto
  then have "ResolutionSelected groups = Some ?menu"
    unfolding ResolutionSelected_def using groups by (subst refresh_items_eq) fastforce+
  moreover have "map fst ?menu = map ?name (map hd groups)"
    using len by (intro nth_equalityI) simp_all
  moreover have "distinct (map (?name \<circ> rate_timing) (map ModeRefreshRateKey (map hd groups)))"
  proof (rule rate.ascending_distinct)
    show "sorted_wrt (<) (map ModeRefreshRateKey (map hd groups))"
      using sorted by (simp add: sorted_wrt_map less_ModeRefreshRateKey_def)
    fix j k
    assume jk: "j \<in> set (map ModeRefreshRateKey (map hd groups))" "k \<in> set (map ModeRefreshRateKey (map hd groups))"
      "(?name \<circ> rate_timing) j = (?name \<circ> rate_timing) k"
    then obtain a b where ab: "j = ModeRefreshRateKey a" "k = ModeRefreshRateKey b" "a \<in> set (map hd groups)" "b \<in> set (map hd groups)"
      "?name a = ?name b" by auto
    obtain g g' where "a = hd g" "g \<in> set groups" "b = hd g'" "g' \<in> set groups" using ab(3,4) by auto
    then have "GetRefreshRateName a = Some (?name a)" "GetRefreshRateName b = Some (?name a)" using hd_named ab(5) by metis+
    then show "rate.same j k" unfolding ab by (rule rate_name_same)
  qed
  then have "distinct (map ?name (map hd groups))" by (simp add: comp_def)
  moreover have "map (\<lambda>item. fst (snd item)) ?menu = map hd groups" using len by (intro nth_equalityI) simp_all
  moreover have "\<forall>i < length ?menu. snd (snd (?menu ! i)) = (i = 0) \<and>
       (\<forall>t \<in> set (groups ! i). GetRefreshRateName t = Some (fst (?menu ! i)))"
    using len named by (auto simp: nth_Cons')
  moreover have "length ?menu = length groups" using len by simp
  moreover have "distinct (map fst ?menu)" using calculation(2,3) by (simp only:)
  ultimately show ?thesis by (intro that [of ?menu])
qed

lemma groupedModes_groups:
  assumes "(k, rates) \<in> set (groupedModes ms)" "\<forall>m \<in> set ms. GetRefreshRate (timing m) \<noteq> None"
  shows "\<forall>g \<in> set (map (\<lambda>(_, group). map timing group) rates).
      g \<noteq> [] \<and> (\<forall>t' \<in> set g. GetRefreshRate t' \<noteq> None \<and> same_rate (hd g) t' \<and> same_resolution (resolution_timing k) t')"
    and "sorted_wrt ModeRefreshRateKey_less (map hd (map (\<lambda>(_, group). map timing group) rates))"
proof -
  have entry: "g \<noteq> [] \<and> rate.same q (rate_key (hd g)) \<and>
       (\<forall>m \<in> set g. m \<in> set ms \<and> resolution.same k (resolution_key m) \<and> rate.same q (rate_key m))"
    if "(q, g) \<in> set rates" for q g
    using rates_of(4) [OF assms(1)] that by blast
  show "\<forall>g \<in> set (map (\<lambda>(_, group). map timing group) rates).
      g \<noteq> [] \<and> (\<forall>t' \<in> set g. GetRefreshRate t' \<noteq> None \<and> same_rate (hd g) t' \<and> same_resolution (resolution_timing k) t')"
  proof
    fix g
    assume "g \<in> set (map (\<lambda>(_, group). map timing group) rates)"
    then obtain q ms' where g: "(q, ms') \<in> set rates" "g = map timing ms'" by auto
    note e = entry [OF g(1)]
    have "rate.same (rate_key (hd ms')) (rate_key m)" if "m \<in> set ms'" for m
      by (rule rate.same_trans [OF rate.same_sym]) (use e that in blast)+
    then show "g \<noteq> [] \<and> (\<forall>t' \<in> set g. GetRefreshRate t' \<noteq> None \<and> same_rate (hd g) t' \<and> same_resolution (resolution_timing k) t')"
      using e assms(2) by (simp add: g(2) hd_map resolution_key_def rate_key_def)
  qed
  have "sorted_wrt (\<lambda>a b. fst a < fst b) rates"
    using rates_of(2) [OF assms(1)] by (simp add: sorted_wrt_map)
  then have "sorted_wrt (\<lambda>a b. rate_key (hd (snd a)) < rate_key (hd (snd b))) rates"
    by (rule sorted_wrt_mono_rel [rotated]) (use entry rate.less_cong in fastforce)
  then show "sorted_wrt ModeRefreshRateKey_less (map hd (map (\<lambda>(_, group). map timing group) rates))"
    unfolding sorted_wrt_map
    by (rule sorted_wrt_mono_rel [rotated]) (use entry in \<open>force simp: hd_map rate_key_def less_ModeRefreshRateKey_def\<close>)
qed

lemma timings_total:
  fixes groups :: "('t \<times> ('q \<times> display_mode list) list) list"
  shows "image_mset timing (sum_list (map (\<lambda>(t, rates). sum_list (map (\<lambda>(q, g). mset g) rates)) groups)) =
   mset (concat (concat (map (\<lambda>(t, rates). map (\<lambda>(q, g). map timing g) rates) groups)))"
proof (induction groups)
  case (Cons entry groups)
  have "image_mset timing (sum_list (map (\<lambda>a. mset (snd a)) rates)) = mset (concat (map (\<lambda>a. map timing (snd a)) rates))"
    for rates :: "('q \<times> display_mode list) list"
    by (induction rates) simp_all
  then show ?case using Cons by (simp add: split_beta)
qed simp

lemma BuildModeMenus_rated:
  assumes "\<forall>m \<in> set ms. GetRefreshRate (timing m) \<noteq> None"
  shows "BuildModeMenus ms =
    Some (map (\<lambda>(k, rates). (GetResolutionName (resolution_timing k), map (\<lambda>(_, group). map timing group) rates)) (groupedModes ms))"
proof -
  have "\<not> divides_by_zero rates" if "(t, rates) \<in> set (groupedModes ms)" for t rates
    using rates_of(4) [OF that] assms by (fastforce simp: divides_by_zero_def Let_def)
  then show ?thesis by (auto simp: BuildModeMenus_def Let_def)
qed

lemma BuildModeMenus_total:
  assumes "\<forall>m \<in> set ms. GetRefreshRate (timing m) \<noteq> None" "BuildModeMenus ms = Some items"
  shows "mset (concat (concat (map snd items))) = mset (map timing ms)"
proof -
  have "mset (map timing ms) =
      image_mset timing (sum_list (map (\<lambda>(t, rates). sum_list (map (\<lambda>(q, g). mset g) rates)) (groupedModes ms)))"
    by (simp add: groupedModes_total)
  also have "\<dots> = mset (concat (concat (map (\<lambda>(t, rates). map (\<lambda>(q, g). map timing g) rates) (groupedModes ms))))"
    by (rule timings_total)
  also have "\<dots> = mset (concat (concat (map snd items)))"
  proof -
    have "map snd items = map (\<lambda>(t, rates). map (\<lambda>(q, g). map timing g) rates) (groupedModes ms)"
      using assms(2) unfolding BuildModeMenus_rated [OF assms(1)] by auto
    then show ?thesis by simp
  qed
  finally show ?thesis by simp
qed

text \<open>What an entry of the resolution menu leads to.\<close>

lemma resolution_entry:
  assumes rated: "\<forall>m \<in> set ms. GetRefreshRate (timing m) \<noteq> None"
    and build: "BuildModeMenus ms = Some items" and item: "(name, groups) \<in> set items"
  obtains menu where "ResolutionSelected groups = Some menu"
    "groups \<noteq> []" "length menu = length groups" "distinct (map fst menu)"
    "map (\<lambda>item. fst (snd item)) menu = map hd groups"
    "sorted_wrt ModeRefreshRateKey_less (map (\<lambda>item. fst (snd item)) menu)"
    "\<forall>i < length menu. snd (snd (menu ! i)) = (i = 0) \<and>
       (\<forall>t \<in> set (groups ! i). GetResolutionName t = name \<and> GetRefreshRateName t = Some (fst (menu ! i)))"
    "\<forall>g \<in> set groups. g \<noteq> []"
proof -
  from item build obtain k rates where entry: "(k, rates) \<in> set (groupedModes ms)"
    and name: "name = GetResolutionName (resolution_timing k)" and groups: "groups = map (\<lambda>(_, group). map timing group) rates"
    by (auto simp: BuildModeMenus_rated [OF rated])
  note spec = groupedModes_groups [OF entry rated, folded groups]
  have ne: "groups \<noteq> []" using rates_of(3) [OF entry] by (simp add: groups)
  from spec(1) have gs: "\<forall>g \<in> set groups. g \<noteq> [] \<and> (\<forall>t \<in> set g. GetRefreshRate t \<noteq> None \<and> same_rate (hd g) t)" by blast
  obtain menu where menu: "ResolutionSelected groups = Some menu" "length menu = length groups" "distinct (map fst menu)"
    "map (\<lambda>item. fst (snd item)) menu = map hd groups"
    "\<forall>i < length menu. snd (snd (menu ! i)) = (i = 0) \<and>
       (\<forall>t \<in> set (groups ! i). GetRefreshRateName t = Some (fst (menu ! i)))"
    by (rule ResolutionSelected_menu [OF gs spec(2) ne])
  have "GetResolutionName t' = name" if "i < length menu" "t' \<in> set (groups ! i)" for i t'
  proof -
    have "groups ! i \<in> set groups" using that menu(2) by simp
    then have "same_resolution (resolution_timing k) t'" using spec(1) that by blast
    then show ?thesis by (simp add: name resolution_same_name)
  qed
  then show ?thesis using that [of menu] menu ne spec(2) gs by simp
qed


text \<open>An entry of the table twice and a slower one: one resolution, two refresh rates.\<close>

definition three_modes :: "display_mode list" where
  "three_modes =
     [mode_entry 25170 640 656 752 800 480 490 492 525 0, mode_entry 25170 640 656 752 800 480 490 492 525 0,
      mode_entry 20000 640 656 752 800 480 490 492 525 0]"


end
