(* ===== verification/ModesetWindow.thy ===== *)
theory ModesetWindow
  imports ModeMenus Steps
begin

text \<open>
  The window of \<open>accelerant/ModesetTest2.cpp\<close> in use. The user picks items of the three menus and presses
  the button; a pick marks the item at once and posts its message, and the window handles the messages
  later, in their order. The menus are pop-up menus in radio mode: marking an item unmarks the others.
\<close>

section \<open>The window\<close>

datatype window_msg =
    resolutionMenuMsg "display_timing list list"
  | refreshRateMenuMsg display_timing
  | colorSpaceMenuMsg color_space
  | applyMsg

text \<open>An item of a menu: its label, what its message carries, and the mark. \<open>printed\<close> is what
  \<open>ApplyPressed\<close> has printed so far.\<close>

type_synonym 'a menu = "((string \<times> 'a) \<times> bool) list"

record window =
  resolution :: "display_timing list list menu"
  refreshRate :: "display_timing menu"
  colorSpace :: "color_space menu"
  inbox :: "window_msg list"
  printed :: "(display_timing \<times> color_space) list"

definition colorSpaces :: "color_space list" where
  "colorSpaces = [B_GRAY1, B_GRAY8, B_CMAP8, B_RGB15, B_RGB16, B_RGB32, B_RGB48]"

definition ModesetWindow_new :: "display_mode list \<Rightarrow> window option" where
  "ModesetWindow_new ms =
     map_option (\<lambda>items.
       \<lparr>resolution = map (\<lambda>item. (item, False)) items, refreshRate = [],
        colorSpace = map (\<lambda>c. ((GetColorSpaceName c, c), False)) colorSpaces, inbox = [], printed = []\<rparr>)
       (BuildModeMenus ms)"

definition FindMarked :: "'a menu \<Rightarrow> 'a option" where
  "FindMarked items = map_option (\<lambda>item. snd (fst item)) (find snd items)"

definition ApplyPressed :: "window \<Rightarrow> window" where
  "ApplyPressed w =
     (case (FindMarked (refreshRate w), FindMarked (colorSpace w)) of
        (Some t, Some c) \<Rightarrow> w\<lparr>printed := printed w @ [(t, c)]\<rparr>
      | _ \<Rightarrow> w)"

fun MessageReceived :: "window_msg \<Rightarrow> window \<Rightarrow> window option" where
  "MessageReceived (resolutionMenuMsg refreshRates) w =
     map_option (\<lambda>items. w\<lparr>refreshRate := map (\<lambda>(name, t, first). ((name, t), first)) items\<rparr>)
       (ResolutionSelected refreshRates)"
| "MessageReceived (refreshRateMenuMsg t) w = Some w"
| "MessageReceived (colorSpaceMenuMsg c) w = Some w"
| "MessageReceived applyMsg w = Some (ApplyPressed w)"

section \<open>Clicks and messages\<close>

definition mark :: "nat \<Rightarrow> 'a menu \<Rightarrow> 'a menu" where
  "mark i items = map (\<lambda>(j, item, _). (item, j = i)) (enumerate 0 items)"

inductive window_step :: "window \<Rightarrow> window \<Rightarrow> bool" where
  resolution: "i < length (resolution w) \<Longrightarrow>
     window_step w (w\<lparr>resolution := mark i (resolution w),
                     inbox := inbox w @ [resolutionMenuMsg (snd (fst (resolution w ! i)))]\<rparr>)"
| refresh_rate: "i < length (refreshRate w) \<Longrightarrow>
     window_step w (w\<lparr>refreshRate := mark i (refreshRate w),
                     inbox := inbox w @ [refreshRateMenuMsg (snd (fst (refreshRate w ! i)))]\<rparr>)"
| color_space: "i < length (colorSpace w) \<Longrightarrow>
     window_step w (w\<lparr>colorSpace := mark i (colorSpace w),
                     inbox := inbox w @ [colorSpaceMenuMsg (snd (fst (colorSpace w ! i)))]\<rparr>)"
| apply_button: "window_step w (w\<lparr>inbox := inbox w @ [applyMsg]\<rparr>)"
| message: "inbox w = msg # rest \<Longrightarrow> MessageReceived msg (w\<lparr>inbox := rest\<rparr>) = Some w' \<Longrightarrow> window_step w w'"

inductive window_reach :: "window \<Rightarrow> window \<Rightarrow> bool" for w0 where
  start: "window_reach w0 w0"
| step: "window_reach w0 w \<Longrightarrow> window_step w w' \<Longrightarrow> window_reach w0 w'"

section \<open>The invariant\<close>

definition marks :: "'a menu \<Rightarrow> nat" where "marks items = length (filter snd items)"

lemma length_mark [simp]: "length (mark i items) = length items"
  by (simp add: mark_def)

lemma nth_mark: "j < length items \<Longrightarrow> mark i items ! j = (fst (items ! j), j = i)"
  by (simp add: mark_def nth_enumerate_eq split_beta)

lemma map_fst_mark [simp]: "map fst (mark i items) = map fst items"
  by (rule nth_equalityI) (simp_all add: nth_mark)

lemma marks_mark: "i < length items \<Longrightarrow> marks (mark i items) = 1"
proof -
  assume i: "i < length items"
  have "{j. j < length items \<and> snd (mark i items ! j)} = {i}" using i by (auto simp: nth_mark)
  then show ?thesis by (simp add: marks_def length_filter_conv_card)
qed

lemma find_none: "find P xs = None \<longleftrightarrow> (\<forall>x \<in> set xs. \<not> P x)"
  by (induction xs) auto

lemma find_some: "find P xs = Some x \<Longrightarrow> x \<in> set xs \<and> P x"
  by (induction xs) (auto split: if_splits)

lemma FindMarked_mark: "i < length items \<Longrightarrow> FindMarked (mark i items) = Some (snd (fst (items ! i)))"
proof -
  assume i: "i < length items"
  then have "filter snd (mark i items) \<noteq> []" using marks_mark [OF i] by (auto simp: marks_def)
  then obtain item where found: "find snd (mark i items) = Some item"
    by (cases "find snd (mark i items)") (auto simp: find_none filter_empty_conv)
  then obtain j where "j < length items" "item = mark i items ! j" "snd item"
    using find_some [OF found] by (auto simp: in_set_conv_nth)
  then have "item = (fst (items ! i), True)" by (auto simp: nth_mark)
  then show ?thesis using found by (simp add: FindMarked_def)
qed

lemma FindMarked_item:
  assumes "FindMarked items = Some x"
  shows "\<exists>name. (name, x) \<in> set (map fst items)"
proof -
  from assms obtain item where "find snd items = Some item" "x = snd (fst item)" by (auto simp: FindMarked_def)
  with find_some have "fst item \<in> set (map fst items)" by fastforce
  then show ?thesis using \<open>x = snd (fst item)\<close> by (metis prod.collapse)
qed

lemma FindMarked_marks: "marks items = 0 \<longleftrightarrow> FindMarked items = None"
  by (simp add: FindMarked_def marks_def find_none filter_empty_conv)

text \<open>A window over the table \<open>ms\<close> whose resolution menu was made from \<open>items\<close>: what its menus hold, that the
  refresh rates are those of one entry of the resolution menu, marked once, and that its messages come from
  its menus.\<close>

definition rates_entry :: "display_timing list list \<Rightarrow> display_timing menu \<Rightarrow> bool" where
  "rates_entry groups rates \<longleftrightarrow> map (\<lambda>item. snd (fst item)) rates = map hd groups \<and> marks rates = 1"

fun message_ok :: "(string \<times> display_timing list list) list \<Rightarrow> window_msg \<Rightarrow> bool" where
  "message_ok items (resolutionMenuMsg groups) \<longleftrightarrow> groups \<in> set (map snd items)"
| "message_ok items _ \<longleftrightarrow> True"

definition window_inv :: "(string \<times> display_timing list list) list \<Rightarrow> window \<Rightarrow> bool" where
  "window_inv items w \<longleftrightarrow>
     map fst (resolution w) = items \<and>
     map fst (colorSpace w) = map (\<lambda>c. (GetColorSpaceName c, c)) colorSpaces \<and> marks (colorSpace w) \<le> 1 \<and>
     (refreshRate w = [] \<or> (\<exists>groups \<in> set (map snd items). rates_entry groups (refreshRate w))) \<and>
     (\<forall>msg \<in> set (inbox w). message_ok items msg) \<and>
     (\<forall>(t, c) \<in> set (printed w). t \<in> set (concat (concat (map snd items))) \<and> c \<in> set colorSpaces)"

lemma snd_mark [simp]: "map (\<lambda>item. snd (fst item)) (mark i items) = map (\<lambda>item. snd (fst item)) items"
  by (rule nth_equalityI) (simp_all add: nth_mark)

text \<open>What the handler of a picked resolution needs of the entries.\<close>

definition entries_ok :: "(string \<times> display_timing list list) list \<Rightarrow> bool" where
  "entries_ok items \<longleftrightarrow> (\<forall>groups \<in> set (map snd items). (\<forall>g \<in> set groups. g \<noteq> []) \<and>
     (\<exists>menu. ResolutionSelected groups = Some menu \<and>
        rates_entry groups (map (\<lambda>(name, t, first). ((name, t), first)) menu)))"

lemma first_marked:
  assumes "\<forall>i < length xs. snd (snd (xs ! i)) = (i = 0)" "xs \<noteq> []"
  shows "marks (map (\<lambda>(name, t, first). ((name, t), first)) xs) = 1"
proof -
  have "{i. i < length xs \<and> snd (map (\<lambda>(name, t, first). ((name, t), first)) xs ! i)} = {0}"
    using assms by (auto simp: split_beta)
  then show ?thesis by (simp add: marks_def length_filter_conv_card)
qed

lemma BuildModeMenus_entries_ok:
  assumes "\<forall>m \<in> set ms. GetRefreshRate (timing m) \<noteq> None" "BuildModeMenus ms = Some items"
  shows "entries_ok items"
  unfolding entries_ok_def
proof
  fix groups assume "groups \<in> set (map snd items)"
  then obtain name where "(name, groups) \<in> set items" by auto
  from resolution_entry [OF assms this] obtain menu where menu: "ResolutionSelected groups = Some menu"
    "groups \<noteq> []" "length menu = length groups" "map (\<lambda>item. fst (snd item)) menu = map hd groups"
    "\<forall>i < length menu. snd (snd (menu ! i)) = (i = 0)" "\<forall>g \<in> set groups. g \<noteq> []"
    by (metis (no_types, lifting))
  then have "marks (map (\<lambda>(name, t, first). ((name, t), first)) menu) = 1" by (intro first_marked) auto
  then show "(\<forall>g \<in> set groups. g \<noteq> []) \<and> (\<exists>menu. ResolutionSelected groups = Some menu \<and>
      rates_entry groups (map (\<lambda>(name, t, first). ((name, t), first)) menu))"
    using menu by (simp add: rates_entry_def split_beta comp_def)
qed

lemma applied_known:
  assumes "window_inv items w" "entries_ok items" "FindMarked (refreshRate w) = Some t" "FindMarked (colorSpace w) = Some c"
  shows "t \<in> set (concat (concat (map snd items))) \<and> c \<in> set colorSpaces"
proof
  obtain name where "(name, t) \<in> set (map fst (refreshRate w))" using FindMarked_item [OF assms(3)] by blast
  then have t: "t \<in> set (map (\<lambda>item. snd (fst item)) (refreshRate w))" by force
  then obtain groups where "groups \<in> set (map snd items)" "map (\<lambda>item. snd (fst item)) (refreshRate w) = map hd groups"
    using assms(1) by (auto simp: window_inv_def rates_entry_def)
  then obtain g where "g \<in> set groups" "t = hd g" "g \<noteq> []" using t assms(2) by (auto simp: entries_ok_def)
  then show "t \<in> set (concat (concat (map snd items)))"
    using \<open>groups \<in> set (map snd items)\<close> by (metis UN_I hd_in_set set_concat)
  obtain name' where "(name', c) \<in> set (map fst (colorSpace w))" using FindMarked_item [OF assms(4)] by blast
  then have "(name', c) \<in> set (map (\<lambda>c. (GetColorSpaceName c, c)) colorSpaces)"
    using assms(1) by (simp only: window_inv_def)
  then show "c \<in> set colorSpaces" by auto
qed

lemma MessageReceived_inv:
  assumes "window_inv items w" "entries_ok items" "inbox w = msg # rest"
  shows "\<exists>w'. MessageReceived msg (w\<lparr>inbox := rest\<rparr>) = Some w' \<and> window_inv items w'"
proof (cases msg)
  case (resolutionMenuMsg groups)
  then have groups: "groups \<in> set (map snd items)" using assms(1,3) by (simp add: window_inv_def)
  then obtain menu where menu: "ResolutionSelected groups = Some menu"
    "rates_entry groups (map (\<lambda>(name, t, first). ((name, t), first)) menu)"
    using assms(2) by (auto simp only: entries_ok_def)
  let ?w = "w\<lparr>inbox := rest, refreshRate := map (\<lambda>(name, t, first). ((name, t), first)) menu\<rparr>"
  have "window_inv items ?w" using assms(1,3) groups menu(2) by (simp add: window_inv_def) blast
  then show ?thesis using menu(1) resolutionMenuMsg by simp
next
  case applyMsg
  then show ?thesis using assms applied_known [OF assms(1,2)]
    by (auto simp: window_inv_def ApplyPressed_def split: option.split)
qed (use assms in \<open>auto simp: window_inv_def\<close>)

lemma click_menu:
  "i < length items \<Longrightarrow> snd (fst (items ! i)) \<in> set (map (\<lambda>item. snd (fst item)) items)"
  by auto

lemma window_step_inv:
  assumes "window_step w w'" "window_inv items w" "entries_ok items"
  shows "window_inv items w'"
  using assms
proof (induction rule: window_step.induct)
  case (resolution i w)
  then have "snd (fst (resolution w ! i)) \<in> set (map snd items)"
    by (auto simp: window_inv_def)
  then show ?case using resolution by (auto simp: window_inv_def)
next
  case (refresh_rate i w)
  then show ?case by (auto simp: window_inv_def rates_entry_def marks_mark)
next
  case (color_space i w)
  then show ?case by (auto simp: window_inv_def marks_mark)
next
  case (apply_button w)
  then show ?case by (auto simp: window_inv_def)
next
  case (message w msg rest w')
  then show ?case using MessageReceived_inv [of items w msg rest] by auto
qed

interpretation window: invariant_system "\<lambda>w. (window_inv items w0 \<and> entries_ok items) \<and> w = w0" window_step
    "\<lambda>w. (window_inv items w0 \<and> entries_ok items) \<and> window_reach w0 w" "window_inv items"
proof
  fix w I
  let ?ok = "window_inv items w0 \<and> entries_ok items"
  assume reach: "?ok \<and> window_reach w0 w" and first: "\<And>w. ?ok \<and> w = w0 \<Longrightarrow> I w"
    and next_one: "\<And>w w'. ?ok \<and> window_reach w0 w \<Longrightarrow> I w \<Longrightarrow> window_step w w' \<Longrightarrow> I w'"
  from reach have "window_reach w0 w" ?ok by blast+
  then show "I w" by (induction rule: window_reach.induct) (blast intro: first next_one)+
qed (auto intro: window_reach.intros window_step_inv)

lemma window_reach_inv:
  "window_reach w0 w \<Longrightarrow> window_inv items w0 \<Longrightarrow> entries_ok items \<Longrightarrow> window_inv items w"
  using window.inv_reach by blast

lemma window_new_inv: "BuildModeMenus ms = Some items \<Longrightarrow> ModesetWindow_new ms = Some w0 \<Longrightarrow> window_inv items w0"
  by (auto simp: ModesetWindow_new_def window_inv_def marks_def comp_def)

section \<open>What the window does\<close>

lemma entry_name:
  assumes "\<forall>m \<in> set ms. GetRefreshRate (timing m) \<noteq> None" "BuildModeMenus ms = Some items" "(name, groups) \<in> set items"
    "rates_entry groups rates" "item \<in> set rates"
  shows "GetResolutionName (snd (fst item)) = name"
proof -
  obtain menu where "ResolutionSelected groups = Some menu" "groups \<noteq> []" and menu: "length menu = length groups"
    and "distinct (map fst menu)" "map (\<lambda>item. fst (snd item)) menu = map hd groups"
    "sorted_wrt ModeRefreshRateKey_less (map (\<lambda>item. fst (snd item)) menu)"
    and names: "\<forall>i < length menu. snd (snd (menu ! i)) = (i = 0) \<and>
       (\<forall>t \<in> set (groups ! i). GetResolutionName t = name \<and> GetRefreshRateName t = Some (fst (menu ! i)))"
    and full: "\<forall>g \<in> set groups. g \<noteq> []"
    by (rule resolution_entry [OF assms(1-3)])
  have "snd (fst item) \<in> set (map hd groups)"
    using assms(4,5) unfolding rates_entry_def by (metis image_eqI set_map)
  then obtain i where "i < length groups" "snd (fst item) = hd (groups ! i)" by (auto simp: in_set_conv_nth)
  with menu names full show ?thesis by simp
qed

text \<open>C24: However the user clicks and however late the window handles the messages, it handles each of them. The
  refresh rate menu is empty or shows the refresh rates of one resolution, exactly one of them marked; at most
  one color space is marked; the button prints exactly when both menus have a mark, that is never before the
  first pick of a resolution and of a color space; and what it prints is the timing of a mode of the table and
  a color space of the list.\<close>

theorem modeset_window_run:
  assumes "\<forall>m \<in> set ms. GetRefreshRate (timing m) \<noteq> None" "ModesetWindow_new ms = Some w0" "window_reach w0 w"
  shows "(\<forall>msg rest. inbox w = msg # rest \<longrightarrow> (\<exists>w'. MessageReceived msg (w\<lparr>inbox := rest\<rparr>) = Some w')) \<and>
    (refreshRate w = [] \<or> marks (refreshRate w) = 1 \<and>
       (\<exists>name. \<forall>item \<in> set (refreshRate w). GetResolutionName (snd (fst item)) = name)) \<and>
    marks (colorSpace w) \<le> 1 \<and>
    (ApplyPressed w = w \<longleftrightarrow> refreshRate w = [] \<or> marks (colorSpace w) = 0) \<and>
    (\<forall>(t, c) \<in> set (printed w). t \<in> timing ` set ms \<and> c \<in> set colorSpaces)"
proof -
  obtain items where build: "BuildModeMenus ms = Some items" using assms(2) by (auto simp: ModesetWindow_new_def)
  note ok = BuildModeMenus_entries_ok [OF assms(1) build]
  note inv = window_reach_inv [OF assms(3) window_new_inv [OF build assms(2)] ok]
  have rates: "refreshRate w = [] \<or> marks (refreshRate w) = 1 \<and>
       (\<exists>name. \<forall>item \<in> set (refreshRate w). GetResolutionName (snd (fst item)) = name)"
  proof (cases "refreshRate w = []")
    case False
    then obtain name groups where "(name, groups) \<in> set items" and entry: "rates_entry groups (refreshRate w)"
      using inv by (auto simp: window_inv_def)
    with entry_name [OF assms(1) build] show ?thesis by (auto simp: rates_entry_def)
  qed simp
  have "ApplyPressed w = w \<longleftrightarrow> refreshRate w = [] \<or> marks (colorSpace w) = 0"
  proof -
    have "w\<lparr>printed := printed w @ [x]\<rparr> \<noteq> w" for x
    proof
      assume "w\<lparr>printed := printed w @ [x]\<rparr> = w"
      then have "printed (w\<lparr>printed := printed w @ [x]\<rparr>) = printed w" by simp
      then show False by simp
    qed
    moreover have "FindMarked (refreshRate w) = None \<longleftrightarrow> refreshRate w = []"
      using rates FindMarked_marks [of "refreshRate w"] by (auto simp: marks_def)
    ultimately show ?thesis using FindMarked_marks [of "colorSpace w"]
      by (auto simp: ApplyPressed_def split: option.split)
  qed
  moreover have "set (concat (concat (map snd items))) = timing ` set ms"
    using BuildModeMenus_total [OF assms(1) build] by (metis set_map set_mset_mset)
  moreover have "\<exists>w'. MessageReceived msg (w\<lparr>inbox := rest\<rparr>) = Some w'" if "inbox w = msg # rest" for msg rest
    using MessageReceived_inv [OF inv ok that] by blast
  moreover have "marks (colorSpace w) \<le> 1" "\<forall>(t, c) \<in> set (printed w). t \<in> set (concat (concat (map snd items))) \<and> c \<in> set colorSpaces"
    using inv unfolding window_inv_def by blast+
  ultimately show ?thesis using rates by simp
qed

text \<open>The user of a window over three modes picks the first resolution, and the message is handled.\<close>

lemma modeset_window_run_witness:
  "\<exists>w0 w. ModesetWindow_new three_modes = Some w0 \<and> window_reach w0 w \<and> refreshRate w \<noteq> [] \<and>
     marks (refreshRate w) = 1 \<and> ApplyPressed w = w"
proof -
  have rated: "\<forall>m \<in> set three_modes. GetRefreshRate (timing m) \<noteq> None"
    by (simp add: three_modes_def mode_entry_def GetRefreshRate_def)
  then obtain items where build: "BuildModeMenus three_modes = Some items" using BuildModeMenus_rated by blast
  have "items \<noteq> []" using BuildModeMenus_total [OF rated build] by (auto simp: three_modes_def)
  then obtain name groups rest where items: "items = (name, groups) # rest" by (cases items) auto
  obtain w0 where w0: "ModesetWindow_new three_modes = Some w0" "resolution w0 = map (\<lambda>item. (item, False)) items"
    "refreshRate w0 = []" "inbox w0 = []" "marks (colorSpace w0) = 0"
    using build by (auto simp: ModesetWindow_new_def marks_def comp_def)
  let ?w1 = "w0\<lparr>resolution := mark 0 (resolution w0), inbox := [resolutionMenuMsg groups]\<rparr>"
  have "window_reach w0 ?w1"
    using window_reach.step [OF window_reach.start window_step.resolution [of 0 w0]] w0 items by simp
  obtain menu where menu: "ResolutionSelected groups = Some menu"
    "rates_entry groups (map (\<lambda>(name, t, first). ((name, t), first)) menu)"
    using BuildModeMenus_entries_ok [OF rated build] items by (auto simp: entries_ok_def)
  let ?w2 = "?w1\<lparr>inbox := [], refreshRate := map (\<lambda>(name, t, first). ((name, t), first)) menu\<rparr>"
  have "window_step ?w1 ?w2"
    by (rule window_step.message [where msg = "resolutionMenuMsg groups" and rest = "[]"]) (simp_all add: menu(1))
  with \<open>window_reach w0 ?w1\<close> have reach: "window_reach w0 ?w2" by (rule window_reach.step)
  moreover have "refreshRate ?w2 \<noteq> []" using menu(2) by (auto simp: rates_entry_def marks_def)
  ultimately show ?thesis using modeset_window_run [OF rated w0(1) reach] w0(1,5) by auto
qed

end
