(* ===== verification/TestPrograms.thy ===== *)
theory TestPrograms
  imports Modes
begin

text \<open>
  The computations of the manual tests: the conversions of \<open>accelerant/ModesetTest.cpp\<close>, which talks to
  mode setting without the accelerant, compared with those of the accelerant, and the pattern that
  \<open>accelerant/AccelerantTest.cpp\<close> draws into the frame buffer.
\<close>

section \<open>The conversions of \<open>ModesetTest.cpp\<close>\<close>

definition ToHaikuMode :: "NvKmsMode \<Rightarrow> display_mode" where
  "ToHaikuMode nvKmsMode =
     (let n = timings nvKmsMode
      in \<lparr>timing = \<lparr>pixel_clock = pixelClockHz n div 1000,
            h_display = hVisible n, h_sync_start = hSyncStart n, h_sync_end = hSyncEnd n, h_total = hTotal n,
            v_display = vVisible n, v_sync_start = vSyncStart n, v_sync_end = vSyncEnd n, v_total = vTotal n,
            flags = (if hSyncPos n then B_POSITIVE_HSYNC else 0) OR (if vSyncPos n then B_POSITIVE_VSYNC else 0)\<rparr>,
          space = B_RGB32, virtual_width = hVisible n, virtual_height = vVisible n,
          h_display_start = 0, v_display_start = 0\<rparr>)"

definition ToNvKmsMode :: "display_mode \<Rightarrow> NvKmsMode option" where
  "ToNvKmsMode haikuMode =
     (let t = timing haikuMode; total = (ucast (h_total t) * ucast (v_total t) :: u64)
      in if total = 0 then None
         else Some \<lparr>timings =
           \<lparr>RRx1k = ucast (1000000 * ucast (pixel_clock t) div total), pixelClockHz = pixel_clock t * 1000,
            hVisible = h_display t, hSyncStart = h_sync_start t, hSyncEnd = h_sync_end t, hTotal = h_total t,
            vVisible = v_display t, vSyncStart = v_sync_start t, vSyncEnd = v_sync_end t, vTotal = v_total t,
            interlaced = False,
            hSyncPos = (B_POSITIVE_HSYNC AND flags t \<noteq> 0), hSyncNeg = (B_POSITIVE_HSYNC AND flags t = 0),
            vSyncPos = (B_POSITIVE_VSYNC AND flags t \<noteq> 0), vSyncNeg = (B_POSITIVE_VSYNC AND flags t = 0)\<rparr>\<rparr>)"

text \<open>The test knows no interlaced modes. On all others its conversions are those of the accelerant.\<close>

lemma test_ToHaikuMode_agrees:
  "TestPrograms.ToHaikuMode m = Modes.ToHaikuMode m \<longleftrightarrow> \<not> interlaced (timings m)"
proof -
  have "flags (timing (TestPrograms.ToHaikuMode m)) \<noteq> flags (timing (Modes.ToHaikuMode m))" if "interlaced (timings m)"
  proof -
    have "bit (flags (timing (Modes.ToHaikuMode m))) 28" using that
      by (simp add: Modes.ToHaikuMode_def ToHaikuModeTimings_def bit_or_iff bit_flag)
    moreover have "\<not> bit (flags (timing (TestPrograms.ToHaikuMode m))) 28"
      by (simp add: TestPrograms.ToHaikuMode_def Let_def bit_or_iff bit_flag)
    ultimately show ?thesis by auto
  qed
  then show ?thesis
    by (auto simp: TestPrograms.ToHaikuMode_def Modes.ToHaikuMode_def ToHaikuModeTimings_def Let_def)
qed

lemma test_ToNvKmsMode_agrees:
  assumes "B_TIMING_INTERLACED AND flags (timing m) = 0"
  shows "TestPrograms.ToNvKmsMode m = Modes.ToNvKmsMode m"
  using assms
  by (simp add: TestPrograms.ToNvKmsMode_def Modes.ToNvKmsMode_def ToNvKmsModeTimings_def CalcRefreshRate_def Let_def)

text \<open>Its main program: the mode for NVKMS that it declares and does not use, the two modes for the screen, of
  which it sets the first. The exit code, from the answer of \<open>BScreen::SetMode\<close>.\<close>

definition main_nvKmsMode :: NvKmsMode where
  "main_nvKmsMode = \<lparr>timings =
     \<lparr>RRx1k = 60000, pixelClockHz = 148500000,
      hVisible = 1920, hSyncStart = 2008, hSyncEnd = 2052, hTotal = 2200,
      vVisible = 1080, vSyncStart = 1082, vSyncEnd = 1087, vTotal = 1125,
      interlaced = False, hSyncPos = True, hSyncNeg = False, vSyncPos = True, vSyncNeg = False\<rparr>\<rparr>"

definition main_mode :: display_mode where
  "main_mode =
     \<lparr>timing = \<lparr>pixel_clock = 148500, h_display = 1920, h_sync_start = 2008, h_sync_end = 2052, h_total = 2200,
         v_display = 1080, v_sync_start = 1084, v_sync_end = 1089, v_total = 1125,
         flags = B_POSITIVE_HSYNC OR B_POSITIVE_VSYNC\<rparr>,
      space = B_RGB32, virtual_width = 1920, virtual_height = 1080, h_display_start = 0, v_display_start = 0\<rparr>"

definition main_mode2 :: display_mode where
  "main_mode2 =
     \<lparr>timing = \<lparr>pixel_clock = 148350, h_display = 1920, h_sync_start = 2008, h_sync_end = 2052, h_total = 2200,
         v_display = 1080, v_sync_start = 1084, v_sync_end = 1089, v_total = 1125,
         flags = B_POSITIVE_HSYNC OR B_POSITIVE_VSYNC\<rparr>,
      space = B_RGB32, virtual_width = 1920, virtual_height = 1080, h_display_start = 0, v_display_start = 0\<rparr>"

definition ModesetTest_main :: "(display_mode \<Rightarrow> unit status) \<Rightarrow> nat" where
  "ModesetTest_main SetMode = (case SetMode main_mode of Inl _ \<Rightarrow> 1 | Inr _ \<Rightarrow> 0)"

text \<open>The mode for NVKMS and the one that is set are not the same mode: the vertical sync pulses differ.\<close>

lemma main_modes_differ:
  "v_sync_start (timing (TestPrograms.ToHaikuMode main_nvKmsMode)) + 2 = v_sync_start (timing main_mode)"
  "TestPrograms.ToHaikuMode main_nvKmsMode \<noteq> main_mode"
proof -
  show shifted: "v_sync_start (timing (TestPrograms.ToHaikuMode main_nvKmsMode)) + 2 = v_sync_start (timing main_mode)"
    by (simp add: TestPrograms.ToHaikuMode_def main_nvKmsMode_def main_mode_def)
  show "TestPrograms.ToHaikuMode main_nvKmsMode \<noteq> main_mode" using shifted by (auto simp: main_mode_def)
qed

section \<open>The pattern of \<open>AccelerantTest.cpp\<close>\<close>

record ColorRgba =
  r :: u8
  g :: u8
  b :: u8
  a :: u8

definition pattern_color :: "int \<Rightarrow> int \<Rightarrow> int \<Rightarrow> ColorRgba" where
  "pattern_color phase x y = \<lparr>r = word_of_int (x + phase), g = word_of_int (y + phase), b = 0x80, a = 0xff\<rparr>"

text \<open>A store outside of the buffer has no value.\<close>

definition store_color :: "nat \<Rightarrow> ColorRgba \<Rightarrow> u8 list \<Rightarrow> u8 list option" where
  "store_color pos color bits =
     (if pos + 4 \<le> length bits
      then Some (bits[pos := r color, pos + 1 := g color, pos + 2 := b color, pos + 3 := a color]) else None)"

fun draw_line :: "int \<Rightarrow> nat \<Rightarrow> nat \<Rightarrow> nat list \<Rightarrow> u8 list \<Rightarrow> u8 list option" where
  "draw_line phase line y [] bits = Some bits"
| "draw_line phase line y (x # xs) bits =
     Option.bind (store_color (line + 4 * x) (pattern_color phase (int x) (int y)) bits) (draw_line phase line y xs)"

fun draw_lines :: "int \<Rightarrow> nat \<Rightarrow> nat \<Rightarrow> nat list \<Rightarrow> u8 list \<Rightarrow> u8 list option" where
  "draw_lines phase bytesPerRow width [] bits = Some bits"
| "draw_lines phase bytesPerRow width (y # ys) bits =
     Option.bind (draw_line phase (y * bytesPerRow) y [0..<width] bits) (draw_lines phase bytesPerRow width ys)"

definition DrawPattern :: "nat \<Rightarrow> nat \<Rightarrow> nat \<Rightarrow> u8 list \<Rightarrow> int \<Rightarrow> u8 list option" where
  "DrawPattern width height bytesPerRow bits phase = draw_lines phase bytesPerRow width [0..<height] bits"

lemma store_color_length:
  "pos + 4 \<le> length bits \<Longrightarrow> \<exists>bits'. store_color pos color bits = Some bits' \<and> length bits' = length bits"
  by (simp add: store_color_def)

lemma draw_line_fits:
  "\<forall>x \<in> set xs. line + 4 * x + 4 \<le> length bits \<Longrightarrow>
     \<exists>bits'. draw_line phase line y xs bits = Some bits' \<and> length bits' = length bits"
proof (induction xs arbitrary: bits)
  case (Cons x xs)
  obtain bits1 where "store_color (line + 4 * x) (pattern_color phase (int x) (int y)) bits = Some bits1" "length bits1 = length bits"
    using store_color_length [of "line + 4 * x" bits] Cons.prems by auto
  then show ?case using Cons.IH [of bits1] Cons.prems by simp
qed simp

lemma draw_lines_fit:
  "\<forall>y \<in> set ys. \<forall>x < width. y * bytesPerRow + 4 * x + 4 \<le> length bits \<Longrightarrow>
     \<exists>bits'. draw_lines phase bytesPerRow width ys bits = Some bits' \<and> length bits' = length bits"
proof (induction ys arbitrary: bits)
  case (Cons y ys)
  obtain bits1 where "draw_line phase (y * bytesPerRow) y [0..<width] bits = Some bits1" "length bits1 = length bits"
    using draw_line_fits [of "[0..<width]" "y * bytesPerRow" bits phase y] Cons.prems by auto
  then show ?case using Cons.IH [of bits1] Cons.prems by simp
qed simp

text \<open>The test draws with the mode and the frame buffer that the accelerant reports: a frame buffer of
  \<open>bitmap_size w h\<close> bytes in rows of \<open>bytes_per_row w\<close> holds the pattern.\<close>

lemma pattern_fits_bitmap:
  assumes "unat w \<le> 2 ^ 14" "unat h \<le> 2 ^ 14" "length bits = unat (bitmap_size w h)"
  shows "\<exists>bits'. DrawPattern (unat w) (unat h) (unat (bytes_per_row w)) bits phase = Some bits' \<and> length bits' = length bits"
  unfolding DrawPattern_def
proof (rule draw_lines_fit)
  show "\<forall>y \<in> set [0..<unat h]. \<forall>x < unat w. y * unat (bytes_per_row w) + 4 * x + 4 \<le> length bits"
    using bytes_per_row_bounds [OF assms(1)] bitmap_size_unat [OF assms(1,2)] assms(3) by (auto intro!: pixel_in_row)
qed

end
