(* ===== verification/Accelerant.thy ===== *)
theory Accelerant
  imports Modes
begin

text \<open>
  The accelerant, \<open>accelerant/Accelerant.cpp\<close>: the object that an application server talks to
  through the hooks. Kernel mode setting (\<open>/dev/nvidia-modeset\<close>) is a parameter: a record of the
  answers to the requests the accelerant makes. A method ends normally, by an exception or in the
  death of the process, with the new state and the effects on bitmaps.
\<close>

section \<open>State\<close>

text \<open>\<open>newCursorPixels\<close> is the memory behind \<open>fNewCursor.Bits()\<close>.\<close>

datatype dpms = DPMS_ON | DPMS_OFF | DPMS_OTHER

record accelerant =
  fDpyId :: nat
  fModeList :: "NvKmsMode list"
  fCurrentMode :: NvKmsMode
  fDpmsState :: dpms
  fOldFramebuffer :: NvKmsBitmap
  fFramebuffer :: NvKmsBitmap
  fCursor :: NvKmsBitmap
  fNewCursor :: NvKmsBitmap
  newCursorPixels :: "u8 list"
  fCursorPos :: "int \<times> int"
  fCursorHotSpot :: "int \<times> int"
  fCursorVisible :: bool

record dpy_data =
  connected :: bool
  edid_valid :: bool
  edid_buffer :: "u8 list"

record set_mode_request =
  sm_mode :: NvKmsMode
  sm_viewport :: "u16 \<times> u16"
  sm_surface :: u32
  sm_size :: "u32 \<times> u32"

record mode_reply =
  mr_end :: bool
  mr_preferred :: bool
  mr_mode :: NvKmsMode

record kms_env =
  kms_query_dpy :: "nat \<Rightarrow> sys_error + dpy_data"
  kms_mode_index :: "u32 \<Rightarrow> sys_error + mode_reply"
  kms_validate :: "NvKmsMode \<Rightarrow> sys_error + bool"
  kms_set_mode :: "set_mode_request \<Rightarrow> sys_error + unit"
  kms_set_dpms :: "dpms \<Rightarrow> sys_error + unit"
  kms_cursor_image :: "u32 \<Rightarrow> sys_error + unit"
  kms_move_cursor :: "int \<times> int \<Rightarrow> sys_error + unit"

definition ValidateMode :: "kms_env \<Rightarrow> NvKmsMode \<Rightarrow> sys_error + bool" where
  [simp]: "ValidateMode kms mode = kms_validate kms mode"

definition mode_zero :: NvKmsMode where
  "mode_zero = \<lparr>timings = \<lparr>RRx1k = 0, pixelClockHz = 0, hVisible = 0, hSyncStart = 0, hSyncEnd = 0,
     hTotal = 0, vVisible = 0, vSyncStart = 0, vSyncEnd = 0, vTotal = 0, interlaced = False,
     hSyncPos = False, hSyncNeg = False, vSyncPos = False, vSyncNeg = False\<rparr>\<rparr>"

section \<open>Construction\<close>

text \<open>The displays in the order of \<open>nvNextDpyIdInDpyIdListUnsorted\<close>; \<open>None\<close> is the invalid id.\<close>

fun FindConnectedDisplay :: "kms_env \<Rightarrow> nat list \<Rightarrow> sys_error + nat option" where
  "FindConnectedDisplay kms [] = Inr None"
| "FindConnectedDisplay kms (curDpyId # validDpys) =
     (case kms_query_dpy kms curDpyId of
        Inl e \<Rightarrow> Inl e
      | Inr reply \<Rightarrow> if connected reply \<or> edid_valid reply then Inr (Some curDpyId)
                     else FindConnectedDisplay kms validDpys)"

definition totalAttempts :: nat where "totalAttempts = 10"

text \<open>\<open>kms i\<close> are the answers at the time of attempt \<open>i\<close>.\<close>

function find_display :: "(nat \<Rightarrow> kms_env) \<Rightarrow> nat list \<Rightarrow> nat \<Rightarrow> sys_error + nat option" where
  "find_display kms validDpys i =
     (if i < totalAttempts
      then case FindConnectedDisplay (kms i) validDpys of
             Inl e \<Rightarrow> Inl e
           | Inr (Some d) \<Rightarrow> Inr (Some d)
           | Inr None \<Rightarrow> find_display kms validDpys (i + 1)
      else Inr None)"
  by pat_completeness auto
termination by (relation "measure (\<lambda>(kms, v, i). totalAttempts - i)") auto

declare find_display.simps [simp del]

text \<open>The loop over the mode indices, which ends at the reply \<open>end\<close>; no value when it never comes.\<close>

partial_function (option) mode_list_loop ::
    "kms_env \<Rightarrow> u32 \<Rightarrow> NvKmsMode list \<Rightarrow> (sys_error + NvKmsMode list) option" where
  "mode_list_loop kms i acc =
     (case kms_mode_index kms i of
        Inl e \<Rightarrow> Some (Inl e)
      | Inr reply \<Rightarrow>
          if mr_end reply then Some (Inr acc)
          else case ValidateMode kms (mr_mode reply) of
                 Inl e \<Rightarrow> Some (Inl e)
               | Inr valid \<Rightarrow>
                   mode_list_loop kms (i + 1) (if valid then acc @ [mr_mode reply] else acc))"

text \<open>The constructor, after the files are open: the number of displays of the device, the query of
  the display, the retries, \<open>GRAB_OWNERSHIP\<close> and the mode list.\<close>

definition NvAccelerant_new ::
    "nat \<Rightarrow> sys_error + nat list \<Rightarrow> (nat \<Rightarrow> kms_env) \<Rightarrow> sys_error + unit \<Rightarrow> kms_env \<Rightarrow>
     (sys_error + accelerant) option" where
  "NvAccelerant_new numDisps query_disp attempts grab kms =
     (if \<not> numDisps > 0 then Some (Inl (GenericError (ERR ENODEV)))
      else case query_disp of
             Inl e \<Rightarrow> Some (Inl e)
           | Inr validDpys \<Rightarrow>
               (case find_display attempts validDpys 0 of
                  Inl e \<Rightarrow> Some (Inl e)
                | Inr None \<Rightarrow> Some (Inl (GenericError (ERR ENODEV)))
                | Inr (Some dpy) \<Rightarrow>
                    (case grab of
                       Inl e \<Rightarrow> Some (Inl e)
                     | Inr _ \<Rightarrow>
                         map_option (\<lambda>r. case r of Inl e \<Rightarrow> Inl e
                           | Inr modes \<Rightarrow> Inr \<lparr>fDpyId = dpy, fModeList = modes, fCurrentMode = mode_zero,
                               fDpmsState = DPMS_ON, fOldFramebuffer = NvKmsBitmap_new,
                               fFramebuffer = NvKmsBitmap_new, fCursor = NvKmsBitmap_new,
                               fNewCursor = NvKmsBitmap_new, newCursorPixels = [], fCursorPos = (0, 0),
                               fCursorHotSpot = (0, 0), fCursorVisible = False\<rparr>)
                           (mode_list_loop kms 0 []))))"

definition ModeCount :: "accelerant \<Rightarrow> nat" where "ModeCount a = length (fModeList a)"
definition GetModeList :: "accelerant \<Rightarrow> display_mode list" where
  "GetModeList a = map ToHaikuMode (fModeList a)"

section \<open>Display modes\<close>

definition SetDisplayMode ::
    "kms_env \<Rightarrow> bitmap_env \<Rightarrow> display_mode \<Rightarrow> accelerant \<Rightarrow> unit outcome \<times> accelerant \<times> effect list" where
  "SetDisplayMode kms env modeToSet a =
     (if virtual_width modeToSet \<noteq> h_display (timing modeToSet) \<or>
         virtual_height modeToSet \<noteq> v_display (timing modeToSet) \<or>
         h_display_start modeToSet \<noteq> 0 \<or> v_display_start modeToSet \<noteq> 0
      then (Throw (GenericError (ERR EINVAL)), a, [])
      else case ToNvKmsMode modeToSet of
             None \<Rightarrow> (Abort, a, [])
           | Some mode \<Rightarrow>
             (case ValidateMode kms mode of
                Inl e \<Rightarrow> (Throw e, a, [])
              | Inr valid \<Rightarrow>
                if \<not> valid then (Throw (GenericError (ERR EINVAL)), a, [])
                else case NvKmsBitmap_make env (ucast (virtual_width modeToSet))
                            (ucast (virtual_height modeToSet)) (space modeToSet) of
                       (Throw e, es) \<Rightarrow> (Throw e, a, es)
                     | (Abort, es) \<Rightarrow> (Abort, a, es)
                     | (Ok newFramebuffer, es) \<Rightarrow>
                       (case kms_set_mode kms
                               \<lparr>sm_mode = mode,
                                sm_viewport = (h_display (timing modeToSet), v_display (timing modeToSet)),
                                sm_surface = NvKmsSurface_Get (Surface newFramebuffer),
                                sm_size = (Width newFramebuffer, Height newFramebuffer)\<rparr> of
                          Inl e \<Rightarrow> (Throw e, a, es @ NvKmsBitmap_dtor newFramebuffer)
                        | Inr _ \<Rightarrow>
                            let (old, fb, r1) = NvKmsBitmap_assign (fOldFramebuffer a) (fFramebuffer a);
                                (fb, rest, r2) = NvKmsBitmap_assign fb newFramebuffer
                            in (Ok (), a\<lparr>fCurrentMode := mode, fOldFramebuffer := old, fFramebuffer := fb\<rparr>,
                                es @ r1 @ r2 @ NvKmsBitmap_dtor rest))))"

definition GetDisplayMode :: "accelerant \<Rightarrow> sys_error + display_mode" where
  "GetDisplayMode a =
     (if hVisible (timings (fCurrentMode a)) = 0 then Inl (GenericError (ERR ENOENT))
      else Inr (ToHaikuMode (fCurrentMode a)))"

definition GetFrameBufferConfig :: "accelerant \<Rightarrow> sys_error + (ptr \<times> int)" where
  "GetFrameBufferConfig a =
     (if \<not> NvKmsBitmap_IsSet (fFramebuffer a) then Inl (GenericError (ERR ENOENT))
      else Inr (Bits (fFramebuffer a), BytesPerRow (fFramebuffer a)))"

text \<open>\<open>GetPreferredDisplayMode\<close>: the first mode that the kernel marks as preferred.\<close>

partial_function (option) preferred_loop :: "kms_env \<Rightarrow> u32 \<Rightarrow> (sys_error + display_mode) option" where
  "preferred_loop kms i =
     (case kms_mode_index kms i of
        Inl e \<Rightarrow> Some (Inl e)
      | Inr reply \<Rightarrow>
          if mr_end reply then Some (Inl (GenericError (ERR ENOENT)))
          else if mr_preferred reply then Some (Inr (ToHaikuMode (mr_mode reply)))
          else preferred_loop kms (i + 1))"

definition GetPreferredDisplayMode :: "kms_env \<Rightarrow> (sys_error + display_mode) option" where
  "GetPreferredDisplayMode kms = preferred_loop kms 0"

section \<open>Power management and EDID\<close>

definition B_DPMS_ON :: u32 where "B_DPMS_ON = 1"
definition B_DPMS_OFF :: u32 where "B_DPMS_OFF = 8"

definition DpmsCapabilities :: "accelerant \<Rightarrow> u32" where
  "DpmsCapabilities a = B_DPMS_ON OR B_DPMS_OFF"

definition DpmsMode :: "accelerant \<Rightarrow> u32" where
  "DpmsMode a = (case fDpmsState a of DPMS_ON \<Rightarrow> B_DPMS_ON | DPMS_OFF \<Rightarrow> B_DPMS_OFF | _ \<Rightarrow> B_DPMS_OFF)"

definition SetDpmsMode :: "kms_env \<Rightarrow> u32 \<Rightarrow> accelerant \<Rightarrow> (sys_error + unit) \<times> accelerant" where
  "SetDpmsMode kms dpms_flags a =
     (case (if dpms_flags = B_DPMS_ON then Some DPMS_ON
            else if dpms_flags = B_DPMS_OFF then Some DPMS_OFF else None) of
        None \<Rightarrow> (Inl (GenericError (ERR EINVAL)), a)
      | Some value \<Rightarrow>
          (case kms_set_dpms kms value of
             Inl e \<Rightarrow> (Inl e, a)
           | Inr _ \<Rightarrow> (Inr (), a\<lparr>fDpmsState := value\<rparr>)))"

text \<open>The buffer of the caller, \<open>sz\<close> bytes, and the version. \<open>memset\<close>, then \<open>memcpy\<close>.\<close>

definition GetEdidInfo :: "kms_env \<Rightarrow> accelerant \<Rightarrow> nat \<Rightarrow> sys_error + (u8 list \<times> u32)" where
  "GetEdidInfo kms a sz =
     (case kms_query_dpy kms (fDpyId a) of
        Inl e \<Rightarrow> Inl e
      | Inr reply \<Rightarrow>
          if \<not> edid_valid reply then Inl (GenericError (ERR B_ERROR))
          else let info = replicate sz 0; n = min sz (length (edid_buffer reply))
               in Inr (take n (edid_buffer reply) @ drop n info, 1))"

section \<open>The hooks\<close>

text \<open>Every hook catches \<open>std::system_error\<close> and turns it into a status.\<close>

definition ToErrorCode :: "sys_error \<Rightarrow> errno" where
  "ToErrorCode ex = (case ex of GenericError e \<Rightarrow> e | NvStatusError _ \<Rightarrow> ERR B_ERROR)"

text \<open>\<open>None\<close> is the death of the process, which no \<open>catch\<close> sees.\<close>

definition hook_status :: "'a outcome \<Rightarrow> (errno + 'a) option" where
  "hook_status r = (case r of Ok v \<Rightarrow> Some (Inr v) | Throw ex \<Rightarrow> Some (Inl (ToErrorCode ex)) | Abort \<Rightarrow> None)"

datatype feature =
    B_INIT_ACCELERANT | B_ACCELERANT_CLONE_INFO_SIZE | B_GET_ACCELERANT_CLONE_INFO | B_CLONE_ACCELERANT
  | B_UNINIT_ACCELERANT | B_GET_ACCELERANT_DEVICE_INFO | B_ACCELERANT_MODE_COUNT | B_GET_MODE_LIST
  | B_PROPOSE_DISPLAY_MODE | B_SET_DISPLAY_MODE | B_GET_DISPLAY_MODE | B_GET_FRAME_BUFFER_CONFIG
  | B_GET_PIXEL_CLOCK_LIMITS | B_DPMS_CAPABILITIES | B_DPMS_MODE | B_SET_DPMS_MODE
  | B_GET_PREFERRED_DISPLAY_MODE | B_GET_MONITOR_INFO | B_GET_EDID_INFO | B_MOVE_CURSOR
  | B_SET_CURSOR_SHAPE | B_SHOW_CURSOR | B_SET_CURSOR_BITMAP | OTHER_FEATURE nat

text \<open>Two methods that are not implemented.\<close>

definition GetMonitorInfo :: "accelerant \<Rightarrow> sys_error + unit" where
  "GetMonitorInfo a = RaiseErrno (ERR ENOSYS)"

definition SetCursorShape ::
    "u16 \<Rightarrow> u16 \<Rightarrow> u16 \<Rightarrow> u16 \<Rightarrow> u8 list \<Rightarrow> u8 list \<Rightarrow> accelerant \<Rightarrow> sys_error + unit" where
  "SetCursorShape width height hotX hotY andMask xorMask a = RaiseErrno (ERR ENOSYS)"

text \<open>Which features have a hook; the cursor hooks and the monitor information are compiled out.\<close>

fun has_hook :: "feature \<Rightarrow> bool" where
  "has_hook B_GET_MONITOR_INFO = False"
| "has_hook B_MOVE_CURSOR = False"
| "has_hook B_SET_CURSOR_SHAPE = False"
| "has_hook B_SHOW_CURSOR = False"
| "has_hook B_SET_CURSOR_BITMAP = False"
| "has_hook (OTHER_FEATURE _) = False"
| "has_hook _ = True"

section \<open>Moves between bitmaps\<close>

lemma bitmap_assign_effects:
  assumes "NvKmsBitmap_assign this other = (this', other', es)"
  shows "es = NvKmsBitmap_dtor this" "NvKmsBitmap_dtor other' = []"
    "NvKmsBitmap_IsSet this' = NvKmsBitmap_IsSet other"
    "fHandle (fSurface this') = fHandle (fSurface other)"
    "fWidth this' = fWidth other" "fHeight this' = fHeight other"
    "Bits this' = Bits other"
  using assms
  by (auto simp: NvKmsBitmap_assign_def owner_defs NvKmsBitmap_IsSet_def NvKmsSurface_IsSet_def
      Bits_def Let_def split: prod.splits if_splits)

lemma bitmap_make_dims:
  assumes "NvKmsBitmap_make env w h cs = (Ok b, es)" "bitmap_env_ok env"
  shows "fWidth b = w" "fHeight b = h" "fBytesPerRow b = bytes_per_row w" "fColorSpace b = cs"
  using NvKmsBitmap_make_net [OF assms(2), where w = w and h = h and cs = cs] assms(1)
  by (auto simp: stage_net_def)

lemma make_mapping_surface:
  "make_mapping env asz fd b0 = (Ok b, es) \<Longrightarrow> fSurface b = fSurface b0"
  by (auto simp: make_mapping_def split: prod.splits outcome.splits)

lemma bitmap_make_IsSet:
  assumes "NvKmsBitmap_make env w h cs = (Ok b, es)" "bitmap_env_ok env"
  shows "NvKmsBitmap_IsSet b"
proof -
  from assms(1) obtain b1 asz es1 where
    b1: "make_surface env asz b1 = (Ok b, es1)" "fSurface b1 = NvKmsSurface_new"
    by (auto simp: NvKmsBitmap_make_def NvKmsBitmap_new_def Let_def split: if_splits sum.splits prod.splits)
  then obtain fd es2 where
    "make_mapping env asz fd (b1\<lparr>fSurface := NvKmsSurface_of (be_kms env) (snd (be_register env))\<rparr>) = (Ok b, es2)"
    by (auto simp: make_surface_def NvKmsSurface_assign_def NvKmsSurface_new_def NvKmsSurface_of_def Let_def
        split: outcome.splits prod.splits sum.splits)
  from make_mapping_surface [OF this] assms(2) show ?thesis
    by (simp add: NvKmsBitmap_IsSet_def NvKmsSurface_IsSet_def NvKmsSurface_of_def bitmap_env_ok_def)
qed

section \<open>Setting a mode\<close>

lemma SetDisplayMode_cases:
  assumes set: "SetDisplayMode kms env m a = (r, a', es)" and env: "bitmap_env_ok env"
  shows "(r = Abort \<and> a' = a) \<or>
    ((\<exists>e. r = Throw e) \<and> a' = a \<and>
       (acq es = rel es \<or> map_failed env \<and> (\<exists>x. acq es = add_mset (RMap x) (rel es)) \<or>
        acq es + {#RArea (-1)#} = rel es + {#RArea (fst (fst (be_haiku_map env)))#})) \<or>
    (r = Ok () \<and> (\<exists>mode fb es' es1. ToNvKmsMode m = Some mode \<and> kms_validate kms mode = Inr True \<and>
       NvKmsBitmap_make env (ucast (virtual_width m)) (ucast (virtual_height m)) (space m) = (Ok fb, es1) \<and>
       kms_set_mode kms \<lparr>sm_mode = mode, sm_viewport = (h_display (timing m), v_display (timing m)),
          sm_surface = fHandle (fSurface fb), sm_size = (fWidth fb, fHeight fb)\<rparr> = Inr () \<and>
       virtual_width m = h_display (timing m) \<and> virtual_height m = v_display (timing m) \<and>
       fst (NvKmsBitmap_assign (fOldFramebuffer a) (fFramebuffer a)) = fOldFramebuffer a' \<and>
       fst (NvKmsBitmap_assign (fst (snd (NvKmsBitmap_assign (fOldFramebuffer a) (fFramebuffer a)))) fb)
         = fFramebuffer a' \<and>
       fCurrentMode a' = mode \<and>
       es = es' @ NvKmsBitmap_dtor (fOldFramebuffer a)))"
proof -
  consider (early) "(\<exists>e. r = Throw e) \<or> r = Abort" "a' = a" "es = []"
    | (made) mode where "ToNvKmsMode m = Some mode" "kms_validate kms mode = Inr True"
      "virtual_width m = h_display (timing m)" "virtual_height m = v_display (timing m)"
      "h_display_start m = 0" "v_display_start m = 0"
    using set by (auto simp: SetDisplayMode_def split: if_splits option.splits sum.splits)
  then show ?thesis
  proof cases
    case early
    then show ?thesis by auto
  next
    case made
    let ?make = "NvKmsBitmap_make env (ucast (virtual_width m)) (ucast (virtual_height m)) (space m)"
    obtain rb eb where mk: "?make = (rb, eb)" by (cases ?make)
    have net: "stage_net env (NvKmsBitmap_new\<lparr>fWidth := ucast (virtual_width m),
        fHeight := ucast (virtual_height m), fBytesPerRow := bytes_per_row (ucast (virtual_width m)),
        fColorSpace := space m\<rparr>) {#} (rb, eb)"
      unfolding mk [symmetric] by (rule NvKmsBitmap_make_net [OF env])
    show ?thesis
    proof (cases rb)
      case (Throw e)
      with set made mk net show ?thesis by (auto simp: SetDisplayMode_def stage_net_def)
    next
      case Abort
      with set made mk show ?thesis by (auto simp: SetDisplayMode_def)
    next
      case (Ok fb)
      let ?req = "\<lparr>sm_mode = mode, sm_viewport = (h_display (timing m), v_display (timing m)),
          sm_surface = fHandle (fSurface fb), sm_size = (fWidth fb, fHeight fb)\<rparr>"
      show ?thesis
      proof (cases "kms_set_mode kms ?req")
        case (Inl e)
        obtain own where own: "NvKmsBitmap_dtor fb = Rel (RArea (-1)) # own" "acq own = {#}"
          "acq eb = rel eb + rel own + {#RArea (fst (fst (be_haiku_map env)))#}"
          using net Ok by (auto simp: stage_net_def)
        from set made mk Ok Inl have res: "r = Throw e" "a' = a" "es = eb @ NvKmsBitmap_dtor fb"
          by (auto simp: SetDisplayMode_def)
        with own have "acq es + {#RArea (-1)#} = rel es + {#RArea (fst (fst (be_haiku_map env)))#}"
          by simp
        with res show ?thesis by blast
      next
        case (Inr u)
        obtain old fb1 r1 where as1: "NvKmsBitmap_assign (fOldFramebuffer a) (fFramebuffer a) = (old, fb1, r1)"
          by (metis surj_pair)
        obtain fb2 rest r2 where as2: "NvKmsBitmap_assign fb1 fb = (fb2, rest, r2)" by (metis surj_pair)
        from bitmap_assign_effects [OF as1] bitmap_assign_effects [OF as2] have
          "r1 = NvKmsBitmap_dtor (fOldFramebuffer a)" "r2 = []" "NvKmsBitmap_dtor rest = []" by simp_all
        with set made mk Ok Inr as1 as2 show ?thesis
          by (auto simp: SetDisplayMode_def)
      qed
    qed
  qed
qed


definition ex_kms :: kms_env where
  "ex_kms = \<lparr>kms_query_dpy = (\<lambda>d. Inr \<lparr>connected = (d = 2), edid_valid = (d = 2), edid_buffer = [1, 2]\<rparr>),
     kms_mode_index = (\<lambda>i. Inr \<lparr>mr_end = (i = 2), mr_preferred = (i = 1), mr_mode = ex_mode 60000\<rparr>),
     kms_validate = (\<lambda>_. Inr True), kms_set_mode = (\<lambda>_. Inr ()), kms_set_dpms = (\<lambda>_. Inr ()),
     kms_cursor_image = (\<lambda>_. Inr ()), kms_move_cursor = (\<lambda>_. Inr ())\<rparr>"

definition ex_accelerant :: accelerant where
  "ex_accelerant = \<lparr>fDpyId = 2, fModeList = [ex_mode 60000], fCurrentMode = mode_zero,
     fDpmsState = DPMS_ON, fOldFramebuffer = NvKmsBitmap_new, fFramebuffer = NvKmsBitmap_new,
     fCursor = NvKmsBitmap_new, fNewCursor = NvKmsBitmap_new, newCursorPixels = [],
     fCursorPos = (0, 0), fCursorHotSpot = (0, 0), fCursorVisible = False\<rparr>"

definition ex_target :: display_mode where "ex_target = ToHaikuMode (ex_mode 60000)"

lemma ex_set_mode: "fst (SetDisplayMode ex_kms ex_bitmap_env ex_target a) = Ok ()"
proof -
  have "\<exists>b es. NvKmsBitmap_make ex_bitmap_env w h B_RGB32 = (Ok b, es)" for w h
    by (simp add: NvKmsBitmap_make_def make_surface_def make_mapping_def ex_bitmap_env_def
      video_memory_params_def attr_simps NvRmObject_assign_def NvKmsSurface_assign_def
      ExportObjectToFd_def CheckErrno_def FileDesc_of_def FileDesc_Detach_def MapMemory_def
      FileDesc_IsSet_def)
  then obtain b es where "NvKmsBitmap_make ex_bitmap_env 1920 1080 B_RGB32 = (Ok b, es)" by blast
  moreover have "ToNvKmsMode ex_target \<noteq> None"
    by (simp add: ToNvKmsMode_def ToNvKmsModeTimings_def CalcRefreshRate_def Let_def ex_target_def
        ToHaikuMode_def ToHaikuModeTimings_def ex_mode_def)
  then obtain mode where "ToNvKmsMode ex_target = Some mode" by blast
  ultimately show ?thesis
    by (simp add: SetDisplayMode_def ex_target_def ToHaikuMode_def ToHaikuModeTimings_def ex_mode_def
        ex_kms_def split: prod.split)
qed


text \<open>A session of mode switches, with the answers each of them gets.\<close>

fun mode_session :: "(kms_env \<times> bitmap_env \<times> display_mode) list \<Rightarrow> accelerant \<Rightarrow> accelerant" where
  "mode_session [] a = a"
| "mode_session ((kms, env, m) # rest) a = mode_session rest (fst (snd (SetDisplayMode kms env m a)))"

definition framebuffer_fits :: "accelerant \<Rightarrow> bool" where
  "framebuffer_fits a \<longleftrightarrow>
     (if NvKmsBitmap_IsSet (fFramebuffer a)
      then fWidth (fFramebuffer a) = ucast (hVisible (timings (fCurrentMode a))) \<and>
           fHeight (fFramebuffer a) = ucast (vVisible (timings (fCurrentMode a)))
      else hVisible (timings (fCurrentMode a)) = 0)"

lemma ToNvKmsMode_visible:
  "ToNvKmsMode m = Some mode \<Longrightarrow>
     hVisible (timings mode) = h_display (timing m) \<and> vVisible (timings mode) = v_display (timing m)"
  by (auto simp: ToNvKmsMode_def ToNvKmsModeTimings_def)

lemma SetDisplayMode_fits:
  assumes "framebuffer_fits a" "bitmap_env_ok env"
  shows "framebuffer_fits (fst (snd (SetDisplayMode kms env m a)))"
proof -
  obtain r a' es where set: "SetDisplayMode kms env m a = (r, a', es)" by (metis surj_pair)
  from SetDisplayMode_cases [OF set assms(2)] consider "a' = a"
    | (ok) mode fb es1 where "ToNvKmsMode m = Some mode"
      "NvKmsBitmap_make env (ucast (virtual_width m)) (ucast (virtual_height m)) (space m) = (Ok fb, es1)"
      "virtual_width m = h_display (timing m)" "virtual_height m = v_display (timing m)"
      "fst (NvKmsBitmap_assign (fst (snd (NvKmsBitmap_assign (fOldFramebuffer a) (fFramebuffer a)))) fb)
         = fFramebuffer a'" "fCurrentMode a' = mode"
    by blast
  then have "framebuffer_fits a'"
  proof cases
    case 1
    then show ?thesis using assms(1) by simp
  next
    case ok
    obtain old fb1 r1 where as1: "NvKmsBitmap_assign (fOldFramebuffer a) (fFramebuffer a) = (old, fb1, r1)"
      by (metis surj_pair)
    obtain fb2 rest r2 where as2: "NvKmsBitmap_assign fb1 fb = (fb2, rest, r2)" by (metis surj_pair)
    from ok(5) as1 as2 have "fFramebuffer a' = fb2" by simp
    moreover from bitmap_assign_effects [OF as2] bitmap_make_dims [OF ok(2) assms(2)]
      bitmap_make_IsSet [OF ok(2) assms(2)]
    have "NvKmsBitmap_IsSet fb2" "fWidth fb2 = ucast (virtual_width m)" "fHeight fb2 = ucast (virtual_height m)"
      by simp_all
    moreover have "hVisible (timings mode) = h_display (timing m)" "vVisible (timings mode) = v_display (timing m)"
      using ToNvKmsMode_visible [OF ok(1)] by simp_all
    ultimately show ?thesis using ok(3,4,6) by (simp add: framebuffer_fits_def)
  qed
  then show ?thesis using set by simp
qed

text \<open>
  The mode and the framebuffer that the accelerant reports belong together: after any sequence
  of mode switches, successful or not, \<open>GetDisplayMode\<close> answers a mode only if
  \<open>GetFrameBufferConfig\<close> answers a framebuffer, and that one has the width and height of the mode.
\<close>

theorem mode_and_framebuffer_agree:
  assumes "framebuffer_fits a" "\<forall>(kms, env, m) \<in> set ops. bitmap_env_ok env"
    and "a' = mode_session ops a" "GetDisplayMode a' = Inr dm"
  shows "\<exists>bits bpr. GetFrameBufferConfig a' = Inr (bits, bpr) \<and>
           fWidth (fFramebuffer a') = ucast (virtual_width dm) \<and>
           fHeight (fFramebuffer a') = ucast (virtual_height dm)"
proof -
  have "framebuffer_fits (mode_session ops a)"
    using assms(1,2)
  proof (induction ops a rule: mode_session.induct)
    case (2 kms env m rest a)
    then show ?case by (simp add: SetDisplayMode_fits)
  qed simp
  with assms(3,4) show ?thesis
    by (auto simp: framebuffer_fits_def GetDisplayMode_def GetFrameBufferConfig_def ToHaikuMode_def
        split: if_splits)
qed

lemma mode_and_framebuffer_agree_witness:
  "\<exists>bits bpr. GetFrameBufferConfig (mode_session [(ex_kms, ex_bitmap_env, ex_target)] ex_accelerant) = Inr (bits, bpr)"
proof -
  let ?a = "mode_session [(ex_kms, ex_bitmap_env, ex_target)] ex_accelerant"
  obtain r a' es where set: "SetDisplayMode ex_kms ex_bitmap_env ex_target ex_accelerant = (r, a', es)"
    by (metis surj_pair)
  with ex_set_mode [of ex_accelerant] have r: "r = Ok ()" by simp
  have env: "bitmap_env_ok ex_bitmap_env" by (simp add: bitmap_env_ok_def ex_bitmap_env_def)
  from SetDisplayMode_cases [OF set env] r have "ToNvKmsMode ex_target = Some (fCurrentMode a')" by auto
  then have "hVisible (timings (fCurrentMode a')) = h_display (timing ex_target)"
    using ToNvKmsMode_visible by blast
  then have "hVisible (timings (fCurrentMode a')) = 1920"
    by (simp add: ex_target_def ToHaikuMode_def ToHaikuModeTimings_def ex_mode_def)
  with set have "GetDisplayMode ?a = Inr (ToHaikuMode (fCurrentMode a'))" by (simp add: GetDisplayMode_def)
  moreover have "framebuffer_fits ex_accelerant"
    by (simp add: framebuffer_fits_def ex_accelerant_def mode_zero_def NvKmsBitmap_IsSet_def
        NvKmsSurface_IsSet_def NvKmsBitmap_new_def NvKmsSurface_new_def)
  ultimately show ?thesis
    using mode_and_framebuffer_agree [of ex_accelerant "[(ex_kms, ex_bitmap_env, ex_target)]" ?a
        "ToHaikuMode (fCurrentMode a')"] env by auto
qed

section \<open>The mode list\<close>

lemma find_connected_spec:
  "FindConnectedDisplay kms ds = Inr r \<Longrightarrow>
     r = find (\<lambda>d. \<forall>reply. kms_query_dpy kms d = Inr reply \<longrightarrow> connected reply \<or> edid_valid reply) ds"
  by (induction kms ds rule: FindConnectedDisplay.induct) (auto split: sum.splits if_splits)

lemma mode_list_loop_unfold:
  "mode_list_loop kms i acc =
     (case kms_mode_index kms i of
        Inl e \<Rightarrow> Some (Inl e)
      | Inr reply \<Rightarrow>
          if mr_end reply then Some (Inr acc)
          else case ValidateMode kms (mr_mode reply) of
                 Inl e \<Rightarrow> Some (Inl e)
               | Inr valid \<Rightarrow>
                   mode_list_loop kms (i + 1) (if valid then acc @ [mr_mode reply] else acc))"
  by (subst mode_list_loop.simps) (rule refl)

text \<open>What the kernel lists before \<open>n\<close>, and what of that it accepts.\<close>

definition listed :: "kms_env \<Rightarrow> nat \<Rightarrow> NvKmsMode list \<Rightarrow> bool" where
  "listed kms n ms \<longleftrightarrow> length ms = n \<and>
     (\<forall>i < n. \<exists>pref. kms_mode_index kms (of_nat i) = Inr \<lparr>mr_end = False, mr_preferred = pref, mr_mode = ms ! i\<rparr>) \<and>
     (\<exists>pref m. kms_mode_index kms (of_nat n) = Inr \<lparr>mr_end = True, mr_preferred = pref, mr_mode = m\<rparr>)"

lemma mode_list_loop_listed:
  assumes "listed kms n ms" "\<forall>m \<in> set ms. kms_validate kms m = Inr (ok m)" "k \<le> n"
  shows "mode_list_loop kms (of_nat k) acc = Some (Inr (acc @ filter ok (drop k ms)))"
  using assms(3)
proof (induction "n - k" arbitrary: k acc)
  case 0
  then have "k = n" by simp
  with assms(1) show ?case by (subst mode_list_loop_unfold) (auto simp: listed_def)
next
  case (Suc d)
  then have k: "k < n" "Suc k \<le> n" "d = n - Suc k" by simp_all
  with assms(1) have len: "k < length ms" by (simp add: listed_def)
  from assms(1) k(1) obtain pref where reply: "kms_mode_index kms (of_nat k) =
      Inr \<lparr>mr_end = False, mr_preferred = pref, mr_mode = ms ! k\<rparr>" unfolding listed_def by blast
  from assms(2) len have valid: "kms_validate kms (ms ! k) = Inr (ok (ms ! k))" by simp
  have "drop k ms = ms ! k # drop (Suc k) ms" using len by (rule Cons_nth_drop_Suc [symmetric])
  with Suc.hyps(1) [OF k(3) k(2)] reply valid show ?case
    by (subst mode_list_loop_unfold) (simp add: add.commute)
qed



end
