(* ===== verification/Cursor.thy ===== *)
theory Cursor
  imports Accelerant
begin

text \<open>
  The hardware cursor in \<open>accelerant/Accelerant.cpp\<close> (\<open>SetCursorBitmap\<close>, \<open>UpdateCursor\<close>,
  \<open>MoveCursor\<close>, \<open>ShowCursor\<close>). The copy of the image into the bitmap is modelled byte by byte; an
  access outside of either buffer has no value.
\<close>

section \<open>The image\<close>

text \<open>The size of the hardware cursor for a cursor image; \<open>None\<close> raises \<open>EINVAL\<close>.\<close>

definition cursor_dim :: "u16 \<Rightarrow> u16 \<Rightarrow> nat option" where
  "cursor_dim width height =
     (if width > 256 \<or> height > 256 then None
      else if width > 128 \<or> height > 128 then Some 256
      else if width > 64 \<or> height > 64 then Some 128
      else if width > 32 \<or> height > 32 then Some 64
      else Some 32)"

text \<open>\<open>memcpy(dst + i, src + j, n)\<close>.\<close>

definition memcpy_at :: "u8 list \<Rightarrow> nat \<Rightarrow> u8 list \<Rightarrow> nat \<Rightarrow> nat \<Rightarrow> u8 list option" where
  "memcpy_at dst i src j n =
     (if i + n \<le> length dst \<and> j + n \<le> length src
      then Some (take i dst @ take n (drop j src) @ drop (i + n) dst) else None)"

fun copy_lines :: "u8 list \<Rightarrow> nat \<Rightarrow> nat \<Rightarrow> u8 list \<Rightarrow> nat \<Rightarrow> nat \<Rightarrow> nat \<Rightarrow> nat \<Rightarrow> u8 list option" where
  "copy_lines dst dstLine dstStep src srcLine srcStep n 0 = Some dst"
| "copy_lines dst dstLine dstStep src srcLine srcStep n (Suc rows) =
     (case memcpy_at dst dstLine src srcLine n of
        None \<Rightarrow> None
      | Some dst1 \<Rightarrow> copy_lines dst1 (dstLine + dstStep) dstStep src (srcLine + srcStep) srcStep n rows)"

text \<open>\<open>memset\<close> of the whole bitmap, then the loop over the lines.\<close>

definition cursor_pixels :: "nat \<Rightarrow> nat \<Rightarrow> u16 \<Rightarrow> u16 \<Rightarrow> u16 \<Rightarrow> u8 list \<Rightarrow> u8 list option" where
  "cursor_pixels dstStep bitsLength width height bytesPerRow bitmapData =
     copy_lines (replicate bitsLength 0) 0 dstStep bitmapData 0 (unat bytesPerRow) (4 * unat width) (unat height)"

section \<open>The methods\<close>

definition to_NvS16 :: "int \<Rightarrow> int" where "to_NvS16 i = sint (word_of_int i :: u16)"

definition UpdateCursor ::
    "kms_env \<Rightarrow> bool \<Rightarrow> bool \<Rightarrow> accelerant \<Rightarrow> unit outcome \<times> accelerant \<times> effect list" where
  "UpdateCursor kms updateImage updatePos a =
     (let image =
        (if updateImage then
           case kms_cursor_image kms
                  (if fCursorVisible a
                   then (if NvKmsBitmap_IsSet (fNewCursor a) then NvKmsSurface_Get (Surface (fNewCursor a))
                         else NvKmsSurface_Get (Surface (fCursor a)))
                   else 0) of
             Inl e \<Rightarrow> (Throw e, a, [])
           | Inr _ \<Rightarrow>
               if NvKmsBitmap_IsSet (fNewCursor a)
               then let (c, n, es) = NvKmsBitmap_assign (fCursor a) (fNewCursor a)
                    in (Ok (), a\<lparr>fCursor := c, fNewCursor := n\<rparr>, es)
               else (Ok (), a, [])
         else (Ok (), a, []))
      in case image of
           (Ok _, a, es) \<Rightarrow>
             if updatePos then
               (case kms_move_cursor kms
                       (to_NvS16 (fst (fCursorPos a) - fst (fCursorHotSpot a)),
                        to_NvS16 (snd (fCursorPos a) - snd (fCursorHotSpot a))) of
                  Inl e \<Rightarrow> (Throw e, a, es)
                | Inr _ \<Rightarrow> (Ok (), a, es))
             else (Ok (), a, es)
         | r \<Rightarrow> r)"

definition MoveCursor :: "kms_env \<Rightarrow> u16 \<Rightarrow> u16 \<Rightarrow> accelerant \<Rightarrow> unit outcome \<times> accelerant \<times> effect list" where
  "MoveCursor kms x y a = UpdateCursor kms False True (a\<lparr>fCursorPos := (uint x, uint y)\<rparr>)"

definition ShowCursor :: "kms_env \<Rightarrow> bool \<Rightarrow> accelerant \<Rightarrow> unit outcome \<times> accelerant \<times> effect list" where
  "ShowCursor kms isVisible a =
     (if fCursorVisible a = isVisible then (Ok (), a, [])
      else UpdateCursor kms True False (a\<lparr>fCursorVisible := \<not> fCursorVisible a\<rparr>))"

definition SetCursorBitmap ::
    "kms_env \<Rightarrow> bitmap_env \<Rightarrow> u16 \<Rightarrow> u16 \<Rightarrow> u16 \<Rightarrow> u16 \<Rightarrow> color_space \<Rightarrow> u16 \<Rightarrow> u8 list \<Rightarrow> accelerant \<Rightarrow>
     unit outcome \<times> accelerant \<times> effect list" where
  "SetCursorBitmap kms env width height hotX hotY colorSpace bytesPerRow bitmapData a =
     (case cursor_dim width height of
        None \<Rightarrow> (Throw (GenericError (ERR EINVAL)), a, [])
      | Some dim \<Rightarrow>
          (case NvKmsBitmap_make env (of_nat dim) (of_nat dim) colorSpace of
             (Throw e, es) \<Rightarrow> (Throw e, a, es)
           | (Abort, es) \<Rightarrow> (Abort, a, es)
           | (Ok newCursor, es) \<Rightarrow>
               (case cursor_pixels (nat (BytesPerRow newCursor)) (nat (BitsLength newCursor)) width height
                       bytesPerRow bitmapData of
                  None \<Rightarrow> (Abort, a, es)
                | Some pixels \<Rightarrow>
                    let (n, rest, r1) = NvKmsBitmap_assign (fNewCursor a) newCursor;
                        a = a\<lparr>fNewCursor := n, newCursorPixels := pixels,
                              fCursorHotSpot := (uint hotX, uint hotY)\<rparr>;
                        (r, a, r2) = (if fCursorVisible a then UpdateCursor kms True True a else (Ok (), a, []))
                    in (r, a, es @ r1 @ r2 @ NvKmsBitmap_dtor rest))))"

section \<open>The copy stays inside the buffers\<close>

lemma memcpy_at_nth:
  assumes "memcpy_at dst i src j n = Some d"
  shows "length d = length dst"
    "k < n \<Longrightarrow> d ! (i + k) = src ! (j + k)"
    "k < i \<or> i + n \<le> k \<Longrightarrow> d ! k = dst ! k"
proof -
  from assms have le: "i + n \<le> length dst" "j + n \<le> length src"
    and d: "d = take i dst @ take n (drop j src) @ drop (i + n) dst"
    by (auto simp: memcpy_at_def split: if_splits)
  show "length d = length dst" using le by (simp add: d)
  show "k < n \<Longrightarrow> d ! (i + k) = src ! (j + k)" using le by (simp add: d nth_append)
  assume k: "k < i \<or> i + n \<le> k"
  show "d ! k = dst ! k"
  proof (cases "k < i")
    case True
    with le show ?thesis by (simp add: d nth_append)
  next
    case False
    with k have k: "i + n \<le> k" by simp
    then have "d ! k = drop (i + n) dst ! (k - i - n)"
      using le k by (auto simp: d nth_append)
    also have "\<dots> = dst ! (i + n + (k - i - n))" using le by (intro nth_drop) simp
    finally show ?thesis using k by simp
  qed
qed

lemma copy_lines_spec:
  assumes "n \<le> dstStep" "rows = 0 \<or> dstLine + (rows - 1) * dstStep + n \<le> length dst"
    "rows = 0 \<or> srcLine + (rows - 1) * srcStep + n \<le> length src"
  shows "\<exists>d. copy_lines dst dstLine dstStep src srcLine srcStep n rows = Some d \<and> length d = length dst \<and>
    (\<forall>y < rows. \<forall>k < n. d ! (dstLine + y * dstStep + k) = src ! (srcLine + y * srcStep + k)) \<and>
    (\<forall>i. (\<forall>y < rows. i < dstLine + y * dstStep \<or> dstLine + y * dstStep + n \<le> i) \<longrightarrow> d ! i = dst ! i)"
  using assms(2,3)
proof (induction rows arbitrary: dst dstLine srcLine)
  case 0
  then show ?case by simp
next
  case (Suc rows)
  have fits: "dstLine + n \<le> length dst" "srcLine + n \<le> length src"
    using Suc.prems by (auto intro: le_trans [rotated])
  then obtain d1 where d1: "memcpy_at dst dstLine src srcLine n = Some d1" by (auto simp: memcpy_at_def)
  note d1s = memcpy_at_nth [OF d1]
  have "rows = 0 \<or> dstLine + dstStep + (rows - 1) * dstStep + n \<le> length d1"
    "rows = 0 \<or> srcLine + srcStep + (rows - 1) * srcStep + n \<le> length src"
    using Suc.prems d1s(1) by (cases rows; simp add: algebra_simps)+
  from Suc.IH [OF this] obtain d where d:
    "copy_lines d1 (dstLine + dstStep) dstStep src (srcLine + srcStep) srcStep n rows = Some d"
    "length d = length d1"
    "\<forall>y < rows. \<forall>k < n. d ! (dstLine + dstStep + y * dstStep + k) = src ! (srcLine + srcStep + y * srcStep + k)"
    "\<forall>i. (\<forall>y < rows. i < dstLine + dstStep + y * dstStep \<or> dstLine + dstStep + y * dstStep + n \<le> i) \<longrightarrow> d ! i = d1 ! i"
    by blast
  have "\<forall>y < Suc rows. \<forall>k < n. d ! (dstLine + y * dstStep + k) = src ! (srcLine + y * srcStep + k)"
  proof (intro allI impI)
    fix y k
    assume y: "y < Suc rows" and k: "k < n"
    show "d ! (dstLine + y * dstStep + k) = src ! (srcLine + y * srcStep + k)"
    proof (cases y)
      case 0
      have "\<forall>z < rows. dstLine + k < dstLine + dstStep + z * dstStep \<or> dstLine + dstStep + z * dstStep + n \<le> dstLine + k"
        using k assms(1) by auto
      with d(4) have "d ! (dstLine + k) = d1 ! (dstLine + k)" by blast
      with d1s(2) [OF k] 0 show ?thesis by simp
    next
      case (Suc z)
      with y k d(3) show ?thesis by (simp add: add.assoc)
    qed
  qed
  moreover have "\<forall>i. (\<forall>y < Suc rows. i < dstLine + y * dstStep \<or> dstLine + y * dstStep + n \<le> i) \<longrightarrow> d ! i = dst ! i"
  proof (intro allI impI)
    fix i
    assume out: "\<forall>y < Suc rows. i < dstLine + y * dstStep \<or> dstLine + y * dstStep + n \<le> i"
    then have "i < dstLine \<or> dstLine + n \<le> i" by (auto dest: spec [of _ 0])
    then have "d1 ! i = dst ! i" by (rule d1s(3))
    moreover have "\<forall>y < rows. i < dstLine + dstStep + y * dstStep \<or> dstLine + dstStep + y * dstStep + n \<le> i"
      using out by (auto simp: add.assoc dest: spec [of _ "Suc _"])
    ultimately show "d ! i = dst ! i" using d(4) by simp
  qed
  ultimately show ?case using d1 d(1,2) d1s(1) by simp
qed

lemma cursor_dim_fits:
  assumes "cursor_dim w h = Some dim"
  shows "unat w \<le> dim" "unat h \<le> dim" "dim \<le> 256" "32 \<le> dim"
  using assms by (auto simp: cursor_dim_def word_less_nat_alt split: if_splits)

text \<open>
  C20: setting a cursor image touches no memory outside the two buffers: for every size that is
  accepted, and an image that has all its lines, the copy succeeds in the bitmap that is made for it,
  every pixel of the image lands at its place, and everything else in the bitmap is zero.
\<close>

theorem cursor_copy_in_bounds:
  assumes "cursor_dim width height = Some dim"
    and "dstStep = unat (bytes_per_row (of_nat dim))" "len = unat (bitmap_size (of_nat dim) (of_nat dim))"
    and "height \<noteq> 0 \<longrightarrow> (unat height - 1) * unat bpr + 4 * unat width \<le> length src"
  shows "\<exists>px. cursor_pixels dstStep len width height bpr src = Some px \<and> length px = len \<and>
    (\<forall>y < unat height. \<forall>k < 4 * unat width. px ! (y * dstStep + k) = src ! (y * unat bpr + k)) \<and>
    (\<forall>i < len. (\<forall>y < unat height. i < y * dstStep \<or> y * dstStep + 4 * unat width \<le> i) \<longrightarrow> px ! i = 0)"
proof -
  note dim = cursor_dim_fits [OF assms(1)]
  have u: "unat (of_nat dim :: u32) = dim" using dim by (simp add: unat_of_nat_lt)
  have small: "unat (of_nat dim :: u32) \<le> 2 ^ 14" using dim u by simp
  note row = bytes_per_row_bounds [OF small] and sz = bitmap_size_unat [OF small small]
  have step: "4 * unat width \<le> dstStep" using row(1) dim(1) u assms(2) by simp
  have "unat height = 0 \<or> 0 + (unat height - 1) * dstStep + 4 * unat width \<le> length (replicate len (0 :: u8))"
  proof (cases "unat height = 0")
    case False
    then have "(unat height - 1) * dstStep + dstStep = unat height * dstStep"
      by (metis Suc_diff_1 add.commute gr0I mult_Suc)
    also have "\<dots> \<le> dim * dstStep" using dim(2) by (rule mult_le_mono1)
    finally show ?thesis using step sz(1) u assms(2,3) by (simp add: mult.commute)
  qed simp
  moreover have "unat height = 0 \<or> 0 + (unat height - 1) * unat bpr + 4 * unat width \<le> length src"
    using assms(4) by (auto simp: unat_eq_zero)
  ultimately obtain px where "cursor_pixels dstStep len width height bpr src = Some px" "length px = len"
    "\<forall>y < unat height. \<forall>k < 4 * unat width. px ! (0 + y * dstStep + k) = src ! (0 + y * unat bpr + k)"
    "\<forall>i. (\<forall>y < unat height. i < 0 + y * dstStep \<or> 0 + y * dstStep + 4 * unat width \<le> i)
       \<longrightarrow> px ! i = replicate len 0 ! i"
    using copy_lines_spec [OF step, of "unat height" 0 "replicate len 0" 0 "unat bpr" src]
    unfolding cursor_pixels_def by auto
  then show ?thesis by auto
qed

lemma cursor_copy_in_bounds_witness:
  "\<exists>px. cursor_pixels 256 (256 * 32) 1 2 4 [1, 2, 3, 4, 5, 6, 7, 8] = Some px \<and> px ! 257 = 6"
proof -
  have "cursor_dim 1 2 = Some 32" by (simp add: cursor_dim_def)
  moreover have row: "unat (bytes_per_row 32) = 256" by (simp add: bytes_per_row_unat)
  moreover have "unat (bitmap_size 32 32) = 256 * 32" by (simp add: bitmap_size_unat row)
  ultimately obtain px where px: "cursor_pixels 256 (256 * 32) 1 2 4 [1, 2, 3, 4, 5, 6, 7, 8] = Some px"
    "\<forall>y < unat (2 :: u16). \<forall>k < 4 * unat (1 :: u16).
       px ! (y * 256 + k) = [1, 2, 3, 4, 5, 6, 7, 8] ! (y * unat (4 :: u16) + k)"
    using cursor_copy_in_bounds [of 1 2 32 256 "256 * 32" 4 "[1, 2, 3, 4, 5, 6, 7, 8]"] by auto
  from px(2) [rule_format, of 1 1] have "px ! 257 = 6" by simp
  with px(1) show ?thesis by blast
qed

section \<open>EDID\<close>

text \<open>
  \<open>GetEdidInfo\<close> fills exactly the caller's buffer: its answer has the requested size, starts
  with as much of the EDID as fits, and is zero after it.
\<close>

theorem GetEdidInfo_fills:
  assumes "GetEdidInfo kms a sz = Inr (info, version)" "kms_query_dpy kms (fDpyId a) = Inr reply"
  shows "length info = sz \<and> version = 1 \<and>
    (\<forall>i < sz. info ! i = (if i < length (edid_buffer reply) then edid_buffer reply ! i else 0))"
  using assms by (auto simp: GetEdidInfo_def nth_append min_def split: if_splits)

lemma GetEdidInfo_fills_witness:
  "\<exists>info. GetEdidInfo ex_kms ex_accelerant 4 = Inr (info, 1) \<and> length info = 4 \<and> info ! 1 = 2"
proof -
  have get: "GetEdidInfo ex_kms ex_accelerant 4 = Inr ([1, 2, 0, 0], 1)"
    by (simp add: GetEdidInfo_def ex_kms_def ex_accelerant_def numeral_eq_Suc)
  have "kms_query_dpy ex_kms (fDpyId ex_accelerant) =
      Inr \<lparr>connected = True, edid_valid = True, edid_buffer = [1, 2]\<rparr>"
    by (simp add: ex_kms_def ex_accelerant_def)
  from GetEdidInfo_fills [OF get this] get show ?thesis by auto
qed

end
