(* ===== verification/SdkDevice.thy ===== *)
theory SdkDevice
  imports Bitmap
begin

text \<open>
  The devices of the client library: \<open>nvrm_cpp_sdk/NvRmDevice\<close>, \<open>NvKmsApi\<close> and \<open>NvKmsDevice\<close>, and
  what C++ does with the members of an object while it is constructed: when a later member or the
  body of the constructor throws, the members made so far are destroyed, the last one first.
\<close>

section \<open>Members of an object\<close>

datatype sdk_resource = Descriptor int | RmObject ptr u32 | KmsDeviceOf u32

datatype sdk_event = Gain sdk_resource | Give sdk_resource

text \<open>The construction of an object: how it ends, what it acquired and gave back, and the kernel after
  it; no value when it does not return. A destructor tells whether the process survives it.\<close>

type_synonym ('a, 'k) making = "('a outcome \<times> sdk_event list \<times> 'k) option"
type_synonym 'a dtor = "'a \<Rightarrow> bool \<times> sdk_event list"

definition member :: "('a, 'k) making \<Rightarrow> 'a dtor \<Rightarrow> ('a \<Rightarrow> 'k \<Rightarrow> ('b, 'k) making) \<Rightarrow> ('a \<times> 'b, 'k) making" where
  "member made dtor rest =
     (case made of
        None \<Rightarrow> None
      | Some (Throw e, es, k) \<Rightarrow> Some (Throw e, es, k)
      | Some (Abort, es, k) \<Rightarrow> Some (Abort, es, k)
      | Some (Ok a, es, k) \<Rightarrow>
          (case rest a k of
             None \<Rightarrow> None
           | Some (Ok b, fs, k) \<Rightarrow> Some (Ok (a, b), es @ fs, k)
           | Some (Abort, fs, k) \<Rightarrow> Some (Abort, es @ fs, k)
           | Some (Throw e, fs, k) \<Rightarrow>
               let (survives, gs) = dtor a in Some (if survives then Throw e else Abort, es @ fs @ gs, k)))"

text \<open>The destructor of an object with two members.\<close>

definition dtor_pair :: "'a dtor \<Rightarrow> 'b dtor \<Rightarrow> ('a \<times> 'b) dtor" where
  "dtor_pair d1 d2 = (\<lambda>(a, b).
     let (survives, es) = d2 b in if survives then let (survives, fs) = d1 a in (survives, es @ fs) else (False, es))"

text \<open>Stack discipline: a construction that throws has given back all it acquired, in the opposite
  order; one that succeeds is undone by its destructor, also in the opposite order.\<close>

definition unwinds :: "'a dtor \<Rightarrow> ('a, 'k) making \<Rightarrow> bool" where
  "unwinds dtor made \<longleftrightarrow>
     (case made of
        Some (Ok a, es, k) \<Rightarrow> \<exists>rs. es = map Gain rs \<and> (fst (dtor a) \<longrightarrow> snd (dtor a) = map Give (rev rs))
      | Some (Throw e, es, k) \<Rightarrow> \<exists>rs. es = map Gain rs @ map Give (rev rs)
      | _ \<Rightarrow> True)"

lemma unwindsI:
  "(\<And>a es k. made = Some (Ok a, es, k) \<Longrightarrow> \<exists>rs. es = map Gain rs \<and> (fst (dtor a) \<longrightarrow> snd (dtor a) = map Give (rev rs))) \<Longrightarrow>
   (\<And>e es k. made = Some (Throw e, es, k) \<Longrightarrow> \<exists>rs. es = map Gain rs @ map Give (rev rs)) \<Longrightarrow>
   unwinds dtor made"
  by (auto simp: unwinds_def split: option.split outcome.split)

lemma unwinds_Ok:
  assumes "unwinds dtor (Some (Ok a, es, k))"
  obtains rs where "es = map Gain rs" "fst (dtor a) \<longrightarrow> snd (dtor a) = map Give (rev rs)"
  using assms by (auto simp: unwinds_def)

lemma unwinds_Throw:
  assumes "unwinds dtor (Some (Throw e, es, k))"
  obtains rs where "es = map Gain rs @ map Give (rev rs)"
  using assms by (auto simp: unwinds_def)

lemma member_unwinds:
  assumes made: "unwinds d1 made" and rest: "\<And>a k. unwinds d2 (rest a k)"
  shows "unwinds (dtor_pair d1 d2) (member made d1 rest)"
proof (rule unwindsI)
  fix ab es k
  assume ok: "member made d1 rest = Some (Ok ab, es, k)"
  then obtain a b es1 es2 k1 where made_eq: "made = Some (Ok a, es1, k1)" and rest_eq: "rest a k1 = Some (Ok b, es2, k)"
    and ab: "ab = (a, b)" "es = es1 @ es2"
    by (auto simp: member_def Let_def split: option.splits outcome.splits prod.splits if_splits)
  obtain rs1 where rs1: "es1 = map Gain rs1" "fst (d1 a) \<longrightarrow> snd (d1 a) = map Give (rev rs1)"
    using made unfolding made_eq by (rule unwinds_Ok)
  obtain rs2 where rs2: "es2 = map Gain rs2" "fst (d2 b) \<longrightarrow> snd (d2 b) = map Give (rev rs2)"
    using rest [of a k1] unfolding rest_eq by (rule unwinds_Ok)
  show "\<exists>rs. es = map Gain rs \<and> (fst (dtor_pair d1 d2 ab) \<longrightarrow> snd (dtor_pair d1 d2 ab) = map Give (rev rs))"
    using rs1 rs2 by (intro exI [of _ "rs1 @ rs2"]) (auto simp: ab dtor_pair_def Let_def split: prod.splits)
next
  fix e es k
  assume "member made d1 rest = Some (Throw e, es, k)"
  then consider "made = Some (Throw e, es, k)"
    | a es1 k1 es2 where "made = Some (Ok a, es1, k1)" "rest a k1 = Some (Throw e, es2, k)"
        "es = es1 @ es2 @ snd (d1 a)" "fst (d1 a)"
    by (auto simp: member_def Let_def split: option.splits outcome.splits prod.splits if_splits)
  then show "\<exists>rs. es = map Gain rs @ map Give (rev rs)"
  proof cases
    case 1
    then show ?thesis using made by (auto simp: unwinds_def)
  next
    case 2
    obtain rs1 where rs1: "es1 = map Gain rs1" "fst (d1 a) \<longrightarrow> snd (d1 a) = map Give (rev rs1)"
      using made unfolding 2(1) by (rule unwinds_Ok)
    obtain rs2 where rs2: "es2 = map Gain rs2 @ map Give (rev rs2)"
      using rest [of a k1] unfolding 2(2) by (rule unwinds_Throw)
    show ?thesis using rs1 rs2 2(3,4) by (intro exI [of _ "rs1 @ rs2"]) simp
  qed
qed

text \<open>Results that are passed on with the value replaced.\<close>

lemma passed_on [simp]:
  "(case r of Inl e \<Rightarrow> Inl e | Inr v \<Rightarrow> Inr (f v)) = Inr w \<longleftrightarrow> (\<exists>v. r = Inr v \<and> w = f v)"
  "(case r of Inl e \<Rightarrow> Throw e | Inr v \<Rightarrow> Ok (g v)) = Ok x \<longleftrightarrow> (\<exists>v. r = Inr v \<and> x = g v)"
  "(case q of Ok v \<Rightarrow> Ok (h v) | Throw e \<Rightarrow> Throw e | Abort \<Rightarrow> Abort) = Ok y \<longleftrightarrow> (\<exists>v. q = Ok v \<and> y = h v)"
proof -
  show "(case r of Inl e \<Rightarrow> Inl e | Inr v \<Rightarrow> Inr (f v)) = Inr w \<longleftrightarrow> (\<exists>v. r = Inr v \<and> w = f v)"
    "(case r of Inl e \<Rightarrow> Throw e | Inr v \<Rightarrow> Ok (g v)) = Ok x \<longleftrightarrow> (\<exists>v. r = Inr v \<and> x = g v)"
    by (cases r; auto)+
  show "(case q of Ok v \<Rightarrow> Ok (h v) | Throw e \<Rightarrow> Throw e | Abort \<Rightarrow> Abort) = Ok y \<longleftrightarrow> (\<exists>v. q = Ok v \<and> y = h v)"
    by (cases q) auto
qed

section \<open>The client of the resource manager\<close>

definition give_fds :: "int list \<Rightarrow> sdk_event list" where "give_fds xs = map (\<lambda>x. Give (Descriptor x)) xs"
definition give_objects :: "(ptr \<times> u32) list \<Rightarrow> sdk_event list" where
  "give_objects xs = map (\<lambda>(rm, h). Give (RmObject rm h)) xs"

text \<open>\<open>NvRmApi_new\<close> with what it acquires: the descriptor, then the client; a failed \<open>Alloc\<close> closes
  the descriptor.\<close>

definition NvRmApi_make ::
    "nv_codes \<Rightarrow> (NVOS21, 'k) ioctl_fn \<Rightarrow> ptr \<Rightarrow> int \<Rightarrow> 'k \<Rightarrow> (NvRmApi, 'k) making" where
  "NvRmApi_make c ioctl this opened k =
     (if \<not> FileDesc_IsSet (FileDesc_of opened) then Some (Abort, [], k)
      else case NvRmApi_new c ioctl this opened k of
        None \<Rightarrow> None
      | Some (Inl e, k) \<Rightarrow> Some (Throw e, Gain (Descriptor opened) # give_fds (FileDesc_dtor (FileDesc_of opened)), k)
      | Some (Inr rm, k) \<Rightarrow>
          Some (Ok rm, [Gain (Descriptor opened), Gain (RmObject this (fHObject (fClient rm)))], k))"

definition NvRmApi_destroy :: "NvRmApi dtor" where
  "NvRmApi_destroy rm = (case NvRmApi_dtor rm of (objects, fds) \<Rightarrow> (True, give_objects objects @ give_fds fds))"

text \<open>\<open>NvRmObject::Alloc\<close>: a child of \<open>ob\<close>; \<open>rm\<close> is what \<open>fRm\<close> points to.\<close>

definition NvRmObject_Alloc ::
    "nv_codes \<Rightarrow> (NVOS21, 'k) ioctl_fn \<Rightarrow> NvRmApi \<Rightarrow> NvRmObject \<Rightarrow> u32 \<Rightarrow> ptr \<Rightarrow> u32 \<Rightarrow> 'k \<Rightarrow>
     ((sys_error + NvRmObject) \<times> 'k) option" where
  "NvRmObject_Alloc c ioctl rm ob hClass params paramsSize k =
     map_option (\<lambda>(r, k). (case r of Inl e \<Rightarrow> Inl e | Inr h \<Rightarrow> Inr (NvRmObject_of (fRm ob) h), k))
       (NvRmApi_Alloc c ioctl rm hClass (fHObject ob) params paramsSize k)"

text \<open>\<open>NvRmObject::Control\<close> is a control of the object itself.\<close>

definition NvRmObject_Control ::
    "nv_codes \<Rightarrow> (NVOS54, 'k) ioctl_fn \<Rightarrow> NvRmApi \<Rightarrow> NvRmObject \<Rightarrow> u32 \<Rightarrow> ptr \<Rightarrow> u32 \<Rightarrow> u32 \<Rightarrow> 'k \<Rightarrow>
     ((sys_error + unit) \<times> 'k) option" where
  "NvRmObject_Control c ioctl rm ob cmd params paramsSize flags k =
     NvRmApi_Control c ioctl rm (NvRmObject_Get ob) cmd params paramsSize flags k"

section \<open>NvRmDevice\<close>

record NV0080_ALLOC_PARAMETERS =
  deviceId :: u32
  hClientShare :: u32

record NvRmDevice =
  fDevice :: NvRmObject
  fSubdevice :: NvRmObject

text \<open>The constructor. \<open>address\<close> is where the parameters of the device lie; the size passed along is the
  default, 0. Both members exist, empty, before the body runs.\<close>

definition NvRmDevice_new ::
    "nv_codes \<Rightarrow> (NVOS21, 'k) ioctl_fn \<Rightarrow> (NV0080_ALLOC_PARAMETERS \<Rightarrow> ptr) \<Rightarrow> NvRmApi \<Rightarrow> u32 \<Rightarrow> 'k \<Rightarrow>
     (NvRmDevice, 'k) making" where
  "NvRmDevice_new c ioctl address rm devId k =
     (let deviceParams = \<lparr>deviceId = devId, hClientShare = fHObject (fClient rm)\<rparr> in
      case NvRmObject_Alloc c ioctl rm (fClient rm) (NV01_DEVICE_0 c) (address deviceParams) 0 k of
        None \<Rightarrow> None
      | Some (Inl e, k) \<Rightarrow> Some (Throw e, [], k)
      | Some (Inr made, k) \<Rightarrow>
          let device = fst (NvRmObject_assign NvRmObject_new made);
              gained = [Gain (RmObject (fRm device) (fHObject device))] in
          (case NvRmObject_Alloc c ioctl rm device (NV20_SUBDEVICE_0 c) nullptr 0 k of
             None \<Rightarrow> None
           | Some (Inl e, k) \<Rightarrow> Some (Throw e, gained @ give_objects (NvRmObject_dtor device), k)
           | Some (Inr made, k) \<Rightarrow>
               let subdevice = fst (NvRmObject_assign NvRmObject_new made) in
               Some (Ok \<lparr>fDevice = device, fSubdevice = subdevice\<rparr>,
                     gained @ [Gain (RmObject (fRm subdevice) (fHObject subdevice))], k)))"

definition NvRmDevice_dtor :: "NvRmDevice dtor" where
  "NvRmDevice_dtor d =
     (True, give_objects (NvRmObject_dtor (fSubdevice d)) @ give_objects (NvRmObject_dtor (fDevice d)))"

definition DeviceId :: "NvRmDevice \<Rightarrow> u32" where "DeviceId d = 0"
definition DevFsIndex :: "NvRmDevice \<Rightarrow> u32" where "DevFsIndex d = 0"
definition GpuId :: "NvRmDevice \<Rightarrow> u32" where "GpuId d = 0"

text \<open>\<open>ImportObjectFromFd\<close>; \<open>import\<close> is the answer to the control call: the handle it writes.\<close>

record import_params =
  im_fd :: int
  im_hDevice :: u32
  im_hParent :: u32

definition ImportObjectFromFd ::
    "(import_params \<Rightarrow> sys_error + u32) \<Rightarrow> NvRmDevice \<Rightarrow> u32 \<Rightarrow> int \<Rightarrow> sys_error + NvRmObject" where
  "ImportObjectFromFd imported d hParent inFd =
     map_sum id (NvRmObject_of (fRm (fDevice d)))
       (imported \<lparr>im_fd = inFd, im_hDevice = fHObject (fDevice d), im_hParent = hParent\<rparr>)"

section \<open>Kernel mode setting\<close>

text \<open>The request and the reply of \<open>NVKMS_IOCTL_ALLOC_DEVICE\<close>; the codes come from the headers of
  NVKMS.\<close>

record alloc_device_reply =
  deviceHandle :: u32
  numDisps :: nat
  dispHandles :: "u32 list"

record alloc_device_params =
  versionString :: string
  rq_deviceId :: u32
  reply :: alloc_device_reply

record kms_codes =
  HAIKU_KMS_BASE :: u32
  NVKMS_IOCTL_ALLOC_DEVICE :: u32
  NV_VERSION_STRING :: string

record NvKmsApi =
  kmsFd :: FileDesc

text \<open>A device that cannot be opened ends the process: \<open>assert(fFd.IsSet())\<close>.\<close>

definition NvKmsApi_new :: "int \<Rightarrow> 'k \<Rightarrow> (NvKmsApi, 'k) making" where
  "NvKmsApi_new opened k =
     (let fd = fst (FileDesc_assign FileDesc_new (FileDesc_of opened)) in
      if \<not> FileDesc_IsSet fd then Some (Abort, [], k)
      else Some (Ok \<lparr>kmsFd = fd\<rparr>, [Gain (Descriptor opened)], k))"

definition NvKmsApi_dtor :: "NvKmsApi dtor" where
  "NvKmsApi_dtor api = (True, give_fds (FileDesc_dtor (kmsFd api)))"

text \<open>One \<open>ioctl\<close>, without a loop around it.\<close>

definition NvKmsApi_Control ::
    "kms_codes \<Rightarrow> ('p, 'k) ioctl_fn \<Rightarrow> NvKmsApi \<Rightarrow> u32 \<Rightarrow> 'p \<Rightarrow> 'k \<Rightarrow> int \<times> errno \<times> 'p \<times> 'k" where
  "NvKmsApi_Control c ioctl api cmd arg k = ioctl (fFd (kmsFd api)) (HAIKU_KMS_BASE c + cmd) arg k"

text \<open>Constructor and destructor of \<open>NvKmsDevice\<close> assert that the request succeeds; \<open>free_device\<close> is the
  answer to \<open>NVKMS_IOCTL_FREE_DEVICE\<close> for a handle. The object is its \<open>fInfo\<close>.\<close>

definition NvKmsDevice_new ::
    "kms_codes \<Rightarrow> (alloc_device_params, 'k) ioctl_fn \<Rightarrow> NvKmsApi \<Rightarrow> u32 \<Rightarrow> 'k \<Rightarrow> (alloc_device_reply, 'k) making" where
  "NvKmsDevice_new c ioctl api rmDeviceId k =
     (let params = \<lparr>versionString = NV_VERSION_STRING c, rq_deviceId = rmDeviceId,
                    reply = \<lparr>deviceHandle = 0, numDisps = 0, dispHandles = []\<rparr>\<rparr>;
          (ret, err, params, k) = NvKmsApi_Control c ioctl api (NVKMS_IOCTL_ALLOC_DEVICE c) params k
      in if \<not> 0 \<le> ret then Some (Abort, [], k)
         else Some (Ok (reply params), [Gain (KmsDeviceOf (deviceHandle (reply params)))], k))"

definition NvKmsDevice_dtor :: "(u32 \<Rightarrow> int) \<Rightarrow> alloc_device_reply dtor" where
  "NvKmsDevice_dtor free_device fInfo =
     (if \<not> 0 \<le> free_device (deviceHandle fInfo) then (False, [])
      else (True, [Give (KmsDeviceOf (deviceHandle fInfo))]))"

section \<open>Every part unwinds\<close>

text \<open>A successful allocation never yields the null handle.\<close>

definition handles_not_null :: "(NVOS21, 'k) ioctl_fn \<Rightarrow> bool" where
  "handles_not_null ioctl \<longleftrightarrow>
     (\<forall>fd cmd p k ret err p' k'. ioctl fd cmd p k = (ret, err, p', k') \<and> 0 \<le> ret \<and> os21_status p' = 0 \<longrightarrow>
        os21_hObjectNew p' \<noteq> 0)"

lemma ioctl_iter_answer: "\<exists>p' k'. ioctl_iter io n p k = io p' k'"
  by (induction n arbitrary: p k) (auto split: prod.split)

lemma NvRmApi_Alloc_not_null:
  assumes "handles_not_null ioctl" "NvRmApi_Alloc c ioctl rm hClass hParent params sz k = Some (Inr h, k')"
  shows "h \<noteq> 0"
proof -
  obtain ret err q p where answer:
      "NvRmIoctl (HAIKU_BASE c) ioctl (fFd (apiFd rm)) (NV_ESC_RM_ALLOC c) p k = Some (ret, err, q, k')"
      "0 \<le> ret" "os21_status q = 0" "h = os21_hObjectNew q"
    using assms(2) unfolding NvRmApi_Alloc_def Let_def rm_checked_Inr by blast
  then obtain p1 k1 where "ioctl (fFd (apiFd rm)) (NV_ESC_RM_ALLOC c + HAIKU_BASE c) p1 k1 = (ret, err, q, k')"
    using ioctl_iter_answer [of "\<lambda>p k. ioctl (fFd (apiFd rm)) (NV_ESC_RM_ALLOC c + HAIKU_BASE c) p k"]
    unfolding NvRmIoctl_def by (metis ioctl_loop_Some)
  then show ?thesis
    using assms(1) [unfolded handles_not_null_def, rule_format, of _ _ p1 k1 ret err q k'] answer(2-4) by simp
qed

lemma NvRmObject_Alloc_not_null:
  assumes "handles_not_null ioctl" "NvRmObject_Alloc c ioctl rm ob hClass params sz k = Some (Inr made, k')"
  shows "fHObject made \<noteq> 0" "fRm made = fRm ob"
proof -
  obtain h where "NvRmApi_Alloc c ioctl rm hClass (fHObject ob) params sz k = Some (Inr h, k')"
      "made = NvRmObject_of (fRm ob) h"
    using assms(2) by (cases "NvRmApi_Alloc c ioctl rm hClass (fHObject ob) params sz k")
      (auto simp: NvRmObject_Alloc_def split: sum.split_asm)
  then show "fHObject made \<noteq> 0" "fRm made = fRm ob"
    using NvRmApi_Alloc_not_null [OF assms(1)] by (auto simp: NvRmObject_of_def)
qed

lemma give_fds_Cons [simp]: "give_fds [] = []" "give_fds (x # xs) = Give (Descriptor x) # give_fds xs"
  by (simp_all add: give_fds_def)

lemma give_objects_Cons [simp]:
  "give_objects [] = []" "give_objects ((rm, h) # xs) = Give (RmObject rm h) # give_objects xs"
  by (simp_all add: give_objects_def)

lemmas sdk_defs = FileDesc_IsSet_def FileDesc_of_def FileDesc_dtor_def FileDesc_assign_def FileDesc_new_def
  NvRmObject_dtor_def NvRmObject_assign_def NvRmObject_new_def NvRmObject_of_def

lemma assign_fresh: "fst (NvRmObject_assign NvRmObject_new ob) = ob"
  by (simp add: NvRmObject_assign_def NvRmObject_new_def Let_def)

lemma descriptor_unwinds:
  "unwinds (\<lambda>fd. (True, give_fds (FileDesc_dtor fd)))
     (Some (Ok (FileDesc_of fd), (if 0 \<le> fd then [Gain (Descriptor fd)] else []), k))"
  by (auto simp: unwinds_def sdk_defs intro: exI [of _ "[]"] exI [of _ "[Descriptor fd]"])

lemma NvRmApi_new_Inr:
  assumes "NvRmApi_new c ioctl this opened k = Some (Inr rm, k')"
  obtains h where "NvRmApi_Alloc c ioctl \<lparr>apiFd = FileDesc_of opened, fClient = NvRmObject_new\<rparr>
      (NV01_ROOT_CLIENT c) 0 0 0 k = Some (Inr h, k')"
    "rm = \<lparr>apiFd = FileDesc_of opened, fClient = NvRmObject_of this h\<rparr>"
proof (cases "NvRmApi_Alloc c ioctl \<lparr>apiFd = FileDesc_of opened, fClient = NvRmObject_new\<rparr> (NV01_ROOT_CLIENT c) 0 0 0 k")
  case (Some rk)
  then show ?thesis using assms that
    by (cases rk; cases "fst rk") (auto simp: NvRmApi_new_def sdk_defs Let_def split: if_splits)
qed (use assms in \<open>auto simp: NvRmApi_new_def sdk_defs Let_def split: if_splits\<close>)

lemma NvRmApi_unwinds:
  assumes "handles_not_null ioctl"
  shows "unwinds NvRmApi_destroy (NvRmApi_make c ioctl this opened k)"
proof (rule unwindsI)
  fix rm es k'
  assume "NvRmApi_make c ioctl this opened k = Some (Ok rm, es, k')"
  then have made: "0 \<le> opened" "NvRmApi_new c ioctl this opened k = Some (Inr rm, k')"
    and es: "es = [Gain (Descriptor opened), Gain (RmObject this (fHObject (fClient rm)))]"
    by (auto simp: NvRmApi_make_def sdk_defs split: if_splits option.splits sum.splits)
  obtain h where alloc: "NvRmApi_Alloc c ioctl \<lparr>apiFd = FileDesc_of opened, fClient = NvRmObject_new\<rparr>
        (NV01_ROOT_CLIENT c) 0 0 0 k = Some (Inr h, k')"
    and rm: "rm = \<lparr>apiFd = FileDesc_of opened, fClient = NvRmObject_of this h\<rparr>"
    using made(2) by (rule NvRmApi_new_Inr)
  have "h \<noteq> 0" using NvRmApi_Alloc_not_null [OF assms alloc] .
  then show "\<exists>rs. es = map Gain rs \<and> (fst (NvRmApi_destroy rm) \<longrightarrow> snd (NvRmApi_destroy rm) = map Give (rev rs))"
    using made(1) es
    by (intro exI [of _ "[Descriptor opened, RmObject this h]"])
       (simp add: rm NvRmApi_destroy_def NvRmApi_dtor_def sdk_defs)
next
  fix e es k'
  assume "NvRmApi_make c ioctl this opened k = Some (Throw e, es, k')"
  then show "\<exists>rs. es = map Gain rs @ map Give (rev rs)"
    by (intro exI [of _ "[Descriptor opened]"])
       (auto simp: NvRmApi_make_def sdk_defs split: if_splits option.splits sum.splits)
qed

lemma NvRmDevice_unwinds:
  assumes "handles_not_null ioctl"
  shows "unwinds NvRmDevice_dtor (NvRmDevice_new c ioctl address rm devId k)"
proof (rule unwindsI)
  fix d es k'
  assume "NvRmDevice_new c ioctl address rm devId k = Some (Ok d, es, k')"
  then obtain made1 k1 made2 where
      allocs: "NvRmObject_Alloc c ioctl rm (fClient rm) (NV01_DEVICE_0 c)
        (address \<lparr>deviceId = devId, hClientShare = fHObject (fClient rm)\<rparr>) 0 k = Some (Inr made1, k1)"
        "NvRmObject_Alloc c ioctl rm made1 (NV20_SUBDEVICE_0 c) nullptr 0 k1 = Some (Inr made2, k')"
    and d: "d = \<lparr>fDevice = made1, fSubdevice = made2\<rparr>"
      "es = map Gain [RmObject (fRm made1) (fHObject made1), RmObject (fRm made2) (fHObject made2)]"
    by (auto simp: NvRmDevice_new_def Let_def assign_fresh split: option.splits sum.splits)
  show "\<exists>rs. es = map Gain rs \<and> (fst (NvRmDevice_dtor d) \<longrightarrow> snd (NvRmDevice_dtor d) = map Give (rev rs))"
    using NvRmObject_Alloc_not_null [OF assms allocs(1)] NvRmObject_Alloc_not_null [OF assms allocs(2)]
    by (intro exI [of _ "[RmObject (fRm made1) (fHObject made1), RmObject (fRm made2) (fHObject made2)]"])
       (simp add: d NvRmDevice_dtor_def NvRmObject_dtor_def)
next
  fix e es k'
  assume "NvRmDevice_new c ioctl address rm devId k = Some (Throw e, es, k')"
  then consider "es = []"
    | made k1 where "NvRmObject_Alloc c ioctl rm (fClient rm) (NV01_DEVICE_0 c)
        (address \<lparr>deviceId = devId, hClientShare = fHObject (fClient rm)\<rparr>) 0 k = Some (Inr made, k1)"
        "es = Gain (RmObject (fRm made) (fHObject made)) # give_objects (NvRmObject_dtor made)"
    by (auto simp: NvRmDevice_new_def Let_def assign_fresh split: option.splits sum.splits)
  then show "\<exists>rs. es = map Gain rs @ map Give (rev rs)"
  proof cases
    case 2
    then show ?thesis using NvRmObject_Alloc_not_null [OF assms 2(1)]
      by (intro exI [of _ "[RmObject (fRm made) (fHObject made)]"]) (simp add: NvRmObject_dtor_def)
  qed simp
qed

lemma NvKmsApi_unwinds: "unwinds NvKmsApi_dtor (NvKmsApi_new opened k)"
  by (auto simp: unwinds_def NvKmsApi_new_def NvKmsApi_dtor_def sdk_defs intro: exI [of _ "[Descriptor opened]"])

lemma NvKmsDevice_unwinds: "unwinds (NvKmsDevice_dtor free_device) (NvKmsDevice_new c ioctl api devId k)"
  by (auto simp: unwinds_def NvKmsDevice_new_def NvKmsDevice_dtor_def Let_def split: prod.split
      intro: exI [of _ "[KmsDeviceOf h]" for h])

end
