(* ===== verification/AccelerantLife.thy ===== *)
theory AccelerantLife
  imports Cursor SdkDevice
begin

text \<open>
  The whole accelerant object of \<open>accelerant/Accelerant.cpp\<close>, with the connections it owns, and the
  hooks that an application server calls: how the object comes and goes, and how each hook turns the
  end of a method into an answer.
\<close>

section \<open>The object\<close>

text \<open>The members that are connections; what the constructor's body and the other methods work on is
  the record \<open>accelerant\<close>.\<close>

record accelerant_object =
  fDevFd :: FileDesc
  fRmApi :: NvRmApi
  fRmDev :: NvRmDevice
  fKms :: NvKmsApi
  fKmsDev :: alloc_device_reply
  body :: accelerant

text \<open>The kernel: the codes, and both control devices. What else the construction is told: the results
  of \<open>dup\<close> and of the two \<open>open\<close>s, where \<open>fRm\<close> and the parameters lie, the answer to the request that
  frees the KMS device, and the answers to the constructor's body, which may depend on the device.\<close>

record 'k world =
  w_codes :: nv_codes
  w_ioctl :: "(NVOS21, 'k) ioctl_fn"
  w_kms_codes :: kms_codes
  w_kms_ioctl :: "(alloc_device_params, 'k) ioctl_fn"

record life_env =
  le_dup :: int
  le_rm_open :: int
  le_rm_this :: ptr
  le_address :: "NV0080_ALLOC_PARAMETERS \<Rightarrow> ptr"
  le_kms_open :: int
  le_query :: "alloc_device_reply \<Rightarrow> sys_error + nat list"
  le_attempts :: "alloc_device_reply \<Rightarrow> nat \<Rightarrow> kms_env"
  le_grab :: "alloc_device_reply \<Rightarrow> sys_error + unit"
  le_kms :: "alloc_device_reply \<Rightarrow> kms_env"

text \<open>The body runs when all members are there. What it acquires are the modes, which need no release.\<close>

definition accelerant_body :: "life_env \<Rightarrow> alloc_device_reply \<Rightarrow> 'k \<Rightarrow> (accelerant, 'k) making" where
  "accelerant_body le info k =
     map_option (\<lambda>r. (case r of Inl e \<Rightarrow> Throw e | Inr a \<Rightarrow> Ok a, [], k))
       (NvAccelerant_new (numDisps info) (le_query le info) (le_attempts le info) (le_grab le info) (le_kms le info))"

definition FileDesc_make :: "int \<Rightarrow> 'k \<Rightarrow> (FileDesc, 'k) making" where
  "FileDesc_make fd k = Some (Ok (FileDesc_of fd), (if 0 \<le> fd then [Gain (Descriptor fd)] else []), k)"

definition FileDesc_destroy :: "FileDesc dtor" where
  "FileDesc_destroy fd = (True, give_fds (FileDesc_dtor fd))"

type_synonym accelerant_parts =
  "FileDesc \<times> NvRmApi \<times> NvRmDevice \<times> NvKmsApi \<times> alloc_device_reply \<times> accelerant"

definition accelerant_parts ::
    "'k world \<Rightarrow> (u32 \<Rightarrow> int) \<Rightarrow> life_env \<Rightarrow> 'k \<Rightarrow> (accelerant_parts, 'k) making" where
  "accelerant_parts W free_device le k =
     member (FileDesc_make (le_dup le) k) FileDesc_destroy (\<lambda>devFd k.
     member (NvRmApi_make (w_codes W) (w_ioctl W) (le_rm_this le) (le_rm_open le) k) NvRmApi_destroy (\<lambda>rm k.
     member (NvRmDevice_new (w_codes W) (w_ioctl W) (le_address le) rm 0 k) NvRmDevice_dtor (\<lambda>rmDev k.
     member (NvKmsApi_new (le_kms_open le) k) NvKmsApi_dtor (\<lambda>kms k.
     member (NvKmsDevice_new (w_kms_codes W) (w_kms_ioctl W) kms 0 k) (NvKmsDevice_dtor free_device) (\<lambda>kmsDev k.
     accelerant_body le kmsDev k)))))"

definition parts_dtor :: "(u32 \<Rightarrow> int) \<Rightarrow> accelerant_parts dtor" where
  "parts_dtor free_device =
     dtor_pair FileDesc_destroy (dtor_pair NvRmApi_destroy (dtor_pair NvRmDevice_dtor
       (dtor_pair NvKmsApi_dtor (dtor_pair (NvKmsDevice_dtor free_device) (\<lambda>_. (True, []))))))"

definition object_of :: "accelerant_parts \<Rightarrow> accelerant_object" where
  "object_of = (\<lambda>(fd, rm, rmDev, kms, kmsDev, a).
     \<lparr>fDevFd = fd, fRmApi = rm, fRmDev = rmDev, fKms = kms, fKmsDev = kmsDev, body = a\<rparr>)"

definition parts_of :: "accelerant_object \<Rightarrow> accelerant_parts" where
  "parts_of ob = (fDevFd ob, fRmApi ob, fRmDev ob, fKms ob, fKmsDev ob, body ob)"

definition NvAccelerant_ctor ::
    "'k world \<Rightarrow> (u32 \<Rightarrow> int) \<Rightarrow> life_env \<Rightarrow> 'k \<Rightarrow> (accelerant_object, 'k) making" where
  "NvAccelerant_ctor W free_device le k =
     map_option (\<lambda>(r, es, k).
       (case r of Ok p \<Rightarrow> Ok (object_of p) | Throw e \<Rightarrow> Throw e | Abort \<Rightarrow> Abort, es, k))
       (accelerant_parts W free_device le k)"

text \<open>The destructor: the bitmaps, the last one first, then the connections.\<close>

definition NvAccelerant_dtor ::
    "(u32 \<Rightarrow> int) \<Rightarrow> accelerant_object \<Rightarrow> effect list \<times> bool \<times> sdk_event list" where
  "NvAccelerant_dtor free_device ob =
     (NvKmsBitmap_dtor (fNewCursor (body ob)) @ NvKmsBitmap_dtor (fCursor (body ob)) @
      NvKmsBitmap_dtor (fFramebuffer (body ob)) @ NvKmsBitmap_dtor (fOldFramebuffer (body ob)),
      parts_dtor free_device (parts_of ob))"

lemma parts_of_object_of [simp]: "parts_of (object_of p) = p"
  by (cases p) (simp add: parts_of_def object_of_def)

lemma accelerant_parts_unwinds:
  assumes "handles_not_null (w_ioctl W)"
  shows "unwinds (parts_dtor free_device) (accelerant_parts W free_device le k)"
proof -
  have fd: "unwinds FileDesc_destroy (FileDesc_make fd k)" for fd and k :: 'a
    unfolding FileDesc_destroy_def FileDesc_make_def by (rule descriptor_unwinds)
  have bd: "unwinds (\<lambda>_. (True, [])) (accelerant_body le info k)" for info and k :: 'a
    by (auto simp: unwinds_def accelerant_body_def split: option.split sum.split)
  show ?thesis
    unfolding accelerant_parts_def parts_dtor_def
    by (intro member_unwinds fd bd NvRmApi_unwinds [OF assms] NvRmDevice_unwinds [OF assms]
        NvKmsApi_unwinds NvKmsDevice_unwinds)
qed

lemma parts_dtor_survives:
  "fst (parts_dtor free_device p) \<longleftrightarrow> (case p of (_, _, _, _, info, _) \<Rightarrow> 0 \<le> free_device (deviceHandle info))"
  by (cases p) (simp add: parts_dtor_def dtor_pair_def FileDesc_destroy_def NvRmApi_destroy_def NvRmApi_dtor_def
      NvRmDevice_dtor_def NvKmsApi_dtor_def NvKmsDevice_dtor_def)

text \<open>What the connections of an object own, in the order in which they got it.\<close>

definition owned :: "accelerant_object \<Rightarrow> sdk_resource list" where
  "owned ob =
     (let rm_object = (\<lambda>x. RmObject (fRm x) (fHObject x)) in
      (if FileDesc_IsSet (fDevFd ob) then [Descriptor (fFd (fDevFd ob))] else []) @
      [Descriptor (fFd (apiFd (fRmApi ob))), rm_object (fClient (fRmApi ob)), rm_object (fDevice (fRmDev ob)),
       rm_object (fSubdevice (fRmDev ob)), Descriptor (fFd (kmsFd (fKms ob))), KmsDeviceOf (deviceHandle (fKmsDev ob))])"

lemma member_Ok:
  "member made d rest = Some (Ok ab, es, k') \<longleftrightarrow>
     (\<exists>a b es1 es2 k1. made = Some (Ok a, es1, k1) \<and> rest a k1 = Some (Ok b, es2, k') \<and> ab = (a, b) \<and> es = es1 @ es2)"
  by (auto simp: member_def Let_def split: option.splits outcome.splits prod.splits if_splits)

lemma NvRmApi_make_Ok:
  assumes "NvRmApi_make c ioctl this opened k = Some (Ok rm, es, k')"
  shows "es = map Gain [Descriptor (fFd (apiFd rm)), RmObject (fRm (fClient rm)) (fHObject (fClient rm))]"
proof -
  from assms have "NvRmApi_new c ioctl this opened k = Some (Inr rm, k')"
      and es: "es = [Gain (Descriptor opened), Gain (RmObject this (fHObject (fClient rm)))]"
    by (auto simp: NvRmApi_make_def split: if_splits option.splits sum.splits)
  then have "fFd (apiFd rm) = opened" "fRm (fClient rm) = this"
    by (auto simp: sdk_defs elim: NvRmApi_new_Inr)
  then show ?thesis by (simp add: es)
qed

lemma NvRmDevice_new_Ok:
  "NvRmDevice_new c ioctl address rm devId k = Some (Ok d, es, k') \<Longrightarrow>
   es = map Gain [RmObject (fRm (fDevice d)) (fHObject (fDevice d)), RmObject (fRm (fSubdevice d)) (fHObject (fSubdevice d))]"
  by (auto simp: NvRmDevice_new_def Let_def split: option.splits sum.splits)

lemma accelerant_parts_owned:
  "accelerant_parts W free_device le k = Some (Ok p, es, k') \<Longrightarrow> es = map Gain (owned (object_of p))"
  by (auto simp: accelerant_parts_def member_Ok object_of_def owned_def FileDesc_make_def accelerant_body_def
      NvKmsApi_new_def NvKmsDevice_new_def sdk_defs Let_def
      split: if_splits prod.splits sum.splits dest!: NvRmApi_make_Ok NvRmDevice_new_Ok)

lemma ctor_unwinds:
  assumes "handles_not_null (w_ioctl W)" "NvAccelerant_ctor W free_device le k = Some (r, es, k')"
  shows "case r of
      Throw e \<Rightarrow> \<exists>rs. es = map Gain rs @ map Give (rev rs)
    | Ok ob \<Rightarrow>
        fst (snd (NvAccelerant_dtor free_device ob)) = (0 \<le> free_device (deviceHandle (fKmsDev ob))) \<and>
        es = map Gain (owned ob) \<and>
        (0 \<le> free_device (deviceHandle (fKmsDev ob)) \<longrightarrow>
           snd (snd (NvAccelerant_dtor free_device ob)) = map Give (rev (owned ob)))
    | Abort \<Rightarrow> True"
proof -
  obtain rp where parts: "accelerant_parts W free_device le k = Some (rp, es, k')"
    and r: "r = (case rp of Ok p \<Rightarrow> Ok (object_of p) | Throw e \<Rightarrow> Throw e | Abort \<Rightarrow> Abort)"
    using assms(2) by (auto simp: NvAccelerant_ctor_def)
  note unw = accelerant_parts_unwinds [OF assms(1), of free_device le k, unfolded parts]
  show ?thesis
  proof (cases rp)
    case (Ok p)
    have es: "es = map Gain (owned (object_of p))" using accelerant_parts_owned parts unfolding Ok .
    obtain rs where "es = map Gain rs"
        "fst (parts_dtor free_device p) \<longrightarrow> snd (parts_dtor free_device p) = map Give (rev rs)"
      using unw unfolding Ok by (rule unwinds_Ok)
    moreover from this(1) es have "rs = owned (object_of p)"
      by (metis inj_map_eq_map injI sdk_event.inject(1))
    ultimately show ?thesis
      using parts_dtor_survives [of free_device p]
      by (auto simp: r Ok es NvAccelerant_dtor_def object_of_def parts_of_def split: prod.splits)
  next
    case (Throw e)
    show ?thesis using unw unfolding Throw by (auto simp: r Throw elim: unwinds_Throw)
  qed (simp add: r)
qed

text \<open>A construction that succeeds does not depend on what the destructor would be told.\<close>

lemma ctor_Ok_any_answer:
  assumes "NvAccelerant_ctor W free_device le k = Some (Ok ob, es, k')"
  shows "NvAccelerant_ctor W free_device' le k = Some (Ok ob, es, k')"
proof -
  obtain p where p: "accelerant_parts W free_device le k = Some (Ok p, es, k')" "ob = object_of p"
    using assms by (auto simp: NvAccelerant_ctor_def)
  from p(1) have "accelerant_parts W free_device' le k = Some (Ok p, es, k')"
    unfolding accelerant_parts_def member_Ok .
  then show ?thesis by (simp add: NvAccelerant_ctor_def p(2))
qed


definition ex_codes :: nv_codes where
  "ex_codes = \<lparr>HAIKU_BASE = 100, NV_ESC_RM_ALLOC = 1, NV_ESC_RM_FREE = 2, NV_ESC_RM_CONTROL = 3,
     NV_ESC_RM_MAP_MEMORY = 4, NV_ESC_RM_UNMAP_MEMORY = 5, NV_ESC_ALLOC_OS_EVENT = 6, NV_ESC_FREE_OS_EVENT = 7,
     NV_ESC_CARD_INFO = 8, NV01_ROOT_CLIENT = 1, NV01_DEVICE_0 = 2, NV20_SUBDEVICE_0 = 3\<rparr>"

definition ex_world :: "unit world" where
  "ex_world = \<lparr>w_codes = ex_codes,
     w_ioctl = (\<lambda>fd cmd p k. (0, EINTR, p\<lparr>os21_hObjectNew := (if os21_hClass p = 1 then 11 else if os21_hClass p = 2 then 12 else 13)\<rparr>, k)),
     w_kms_codes = \<lparr>HAIKU_KMS_BASE = 200, NVKMS_IOCTL_ALLOC_DEVICE = 0, NV_VERSION_STRING = ''570''\<rparr>,
     w_kms_ioctl = (\<lambda>fd cmd p k. (0, EINTR, p\<lparr>reply := \<lparr>deviceHandle = 9, numDisps = 1, dispHandles = [1]\<rparr>\<rparr>, k))\<rparr>"

definition ex_life :: life_env where
  "ex_life = (let kms = ex_kms\<lparr>kms_mode_index := \<lambda>_. Inr \<lparr>mr_end = True, mr_preferred = False, mr_mode = mode_zero\<rparr>\<rparr> in
     \<lparr>le_dup = 3, le_rm_open = 4, le_rm_this = 1000, le_address = (\<lambda>_. 2000), le_kms_open = 5,
      le_query = (\<lambda>_. Inr [1, 2]), le_attempts = (\<lambda>_ _. kms), le_grab = (\<lambda>_. Inr ()), le_kms = (\<lambda>_. kms)\<rparr>)"

lemma ex_handles: "handles_not_null (w_ioctl ex_world)"
  by (auto simp: handles_not_null_def ex_world_def split: if_splits)

lemma ex_body: "\<exists>a. accelerant_body ex_life \<lparr>deviceHandle = 9, numDisps = 1, dispHandles = [1]\<rparr> k = Some (Ok a, [], k)"
  by (simp add: accelerant_body_def NvAccelerant_new_def ex_life_def Let_def find_display.simps totalAttempts_def
      ex_kms_def mode_list_loop_unfold)

lemmas ex_ctor_simps = NvAccelerant_ctor_def accelerant_parts_def member_def FileDesc_make_def NvRmApi_make_def
  NvRmApi_new_def NvRmApi_Alloc_def NvRmIoctl_def ioctl_loop_unfold retryable_def rm_checked_def CheckErrno_def
  CheckNvStatus_def NvRmDevice_new_def NvRmObject_Alloc_def NvKmsApi_new_def NvKmsDevice_new_def NvKmsApi_Control_def
  sdk_defs ex_world_def ex_codes_def object_of_def


end
