(* ===== verification/Hooks.thy ===== *)
theory Hooks
  imports AccelerantLife
begin

text \<open>
  The entry points of the accelerant, \<open>get_accelerant_hook\<close> of \<open>accelerant/Accelerant.cpp\<close>: one
  function per feature, over the single instance of the process. A hook catches \<open>std::system_error\<close>
  and answers with a status; a call of a method without an instance goes through a null pointer and
  has no value, like a failed assertion and a division by zero.
\<close>

section \<open>Calls and answers\<close>

record device_info =
  di_version :: nat
  di_name :: string
  di_chipset :: string
  di_serial_no :: string
  di_memory :: u32
  di_dac_speed :: u32

datatype hook_call =
    InitAccelerant | CloneInfoSize | GetCloneInfo | CloneAccelerant | UninitAccelerant | GetDeviceInfo
  | CountModes | ListModes | Propose display_mode display_mode display_mode | SetMode display_mode | GetMode
  | GetFramebuffer | GetLimits display_mode | GetDpmsCapabilities | GetDpms | SetDpms u32 | GetPreferred | GetEdid nat

datatype hook_answer =
    Success | Failure errno | Nothing | Length nat | CloneInfo string | Device device_info | Count nat
  | Modes "display_mode list" | Proposed "unit status" display_mode | Mode display_mode | Framebuffer ptr int
  | Limits u32 u32 | Flags u32 | Edid "u8 list" u32

text \<open>What the outside answers during one call: to a construction, to the mode setting requests, to the
  making of a bitmap, to the release of the KMS device, to the \<open>open\<close> of the cloned device, and the
  two names of the GPU.\<close>

record hook_env =
  he_life :: life_env
  he_kms :: kms_env
  he_bitmap :: bitmap_env
  he_free_device :: "u32 \<Rightarrow> int"
  he_open :: "int \<times> errno"
  he_name :: "sys_error + string"
  he_short_name :: "sys_error + string"

text \<open>\<open>NvAccelerant::sInstance\<close> and the kernel.\<close>

record 'k hooks =
  sInstance :: "accelerant_object option"
  kernel :: 'k

definition kCloneInfo :: string where "kCloneInfo = ''/dev/graphics/nvidia0''"

text \<open>\<open>strlcpy\<close> into the fields of 32 bytes.\<close>

definition strlcpy32 :: "string \<Rightarrow> string" where "strlcpy32 s = take 31 s"

definition B_ACCELERANT_VERSION :: nat where "B_ACCELERANT_VERSION = 1"

definition DeviceInfo :: "hook_env \<Rightarrow> sys_error + device_info" where
  "DeviceInfo he =
     (case he_name he of
        Inl e \<Rightarrow> Inl e
      | Inr name \<Rightarrow>
          (case he_short_name he of
             Inl e \<Rightarrow> Inl e
           | Inr short \<Rightarrow>
               Inr \<lparr>di_version = B_ACCELERANT_VERSION, di_name = strlcpy32 name, di_chipset = strlcpy32 short,
                    di_serial_no = ''?'', di_memory = 0x20000000, di_dac_speed = 0\<rparr>))"

section \<open>The hooks\<close>

definition answer_of :: "('a \<Rightarrow> hook_answer) \<Rightarrow> sys_error + 'a \<Rightarrow> hook_answer" where
  "answer_of f r = (case r of Inl ex \<Rightarrow> Failure (ToErrorCode ex) | Inr v \<Rightarrow> f v)"

text \<open>\<open>Init\<close> and the second half of \<open>Clone\<close>: the new object takes the place of whatever was there.\<close>

definition new_instance ::
    "'k world \<Rightarrow> hook_env \<Rightarrow> 'k hooks \<Rightarrow> (hook_answer \<times> 'k hooks \<times> effect list \<times> sdk_event list) option" where
  "new_instance W he s =
     (case NvAccelerant_ctor W (he_free_device he) (he_life he) (kernel s) of
        None \<Rightarrow> None
      | Some (r, es, k) \<Rightarrow>
          map_option (\<lambda>st. case st of
              Inl e \<Rightarrow> (Failure e, s\<lparr>kernel := k\<rparr>, [], es)
            | Inr ob \<Rightarrow> (Success, s\<lparr>sInstance := Some ob, kernel := k\<rparr>, [], es)) (hook_status r))"

definition clone_accelerant ::
    "'k world \<Rightarrow> hook_env \<Rightarrow> 'k hooks \<Rightarrow> (hook_answer \<times> 'k hooks \<times> effect list \<times> sdk_event list) option" where
  "clone_accelerant W he s =
     (case he_open he of (fd, err) \<Rightarrow>
        (case CheckErrno fd err of
           Inl e \<Rightarrow> Some (Failure (ToErrorCode e), s, [], [])
         | Inr _ \<Rightarrow>
             map_option (\<lambda>(ans, s, bs, es).
                 (ans, s, bs, Gain (Descriptor fd) # es @ give_fds (FileDesc_dtor (FileDesc_of fd))))
               (new_instance W he s)))"

definition uninit_accelerant ::
    "hook_env \<Rightarrow> accelerant_object \<Rightarrow> 'k hooks \<Rightarrow> (hook_answer \<times> 'k hooks \<times> effect list \<times> sdk_event list) option" where
  "uninit_accelerant he ob s =
     (case NvAccelerant_dtor (he_free_device he) ob of (bs, survives, es) \<Rightarrow>
        if survives then Some (Nothing, s\<lparr>sInstance := None\<rparr>, bs, es) else None)"

text \<open>The other methods: the answer, the new state of the object's body and the effects on bitmaps.\<close>

fun method_hook :: "hook_env \<Rightarrow> hook_call \<Rightarrow> accelerant \<Rightarrow> (hook_answer \<times> accelerant \<times> effect list) option" where
  "method_hook he CloneInfoSize a = Some (Length (length kCloneInfo + 1), a, [])"
| "method_hook he GetCloneInfo a = Some (CloneInfo kCloneInfo, a, [])"
| "method_hook he GetDeviceInfo a = Some (answer_of Device (DeviceInfo he), a, [])"
| "method_hook he CountModes a = Some (Count (ModeCount a), a, [])"
| "method_hook he ListModes a = Some (Modes (GetModeList a), a, [])"
| "method_hook he (Propose target low high) a =
     map_option (\<lambda>(st, target). (Proposed st target, a, [])) (ProposeMode (fModeList a) target low high)"
| "method_hook he (SetMode m) a =
     (case SetDisplayMode (he_kms he) (he_bitmap he) m a of (r, a, es) \<Rightarrow>
        map_option (\<lambda>st. (case st of Inl e \<Rightarrow> Failure e | Inr _ \<Rightarrow> Success, a, es)) (hook_status r))"
| "method_hook he GetMode a = Some (answer_of Mode (GetDisplayMode a), a, [])"
| "method_hook he GetFramebuffer a =
     Some (answer_of (\<lambda>(bits, bytes). Framebuffer bits bytes) (GetFrameBufferConfig a), a, [])"
| "method_hook he (GetLimits m) a =
     Some (answer_of (\<lambda>(low, high). Limits low high) (GetPixelClockLimits (fModeList a) m), a, [])"
| "method_hook he GetDpmsCapabilities a = Some (Flags (DpmsCapabilities a), a, [])"
| "method_hook he GetDpms a = Some (Flags (DpmsMode a), a, [])"
| "method_hook he (SetDpms fl) a =
     (case SetDpmsMode (he_kms he) fl a of (r, a) \<Rightarrow> Some (answer_of (\<lambda>_. Success) r, a, []))"
| "method_hook he GetPreferred a =
     map_option (\<lambda>r. (answer_of Mode r, a, [])) (GetPreferredDisplayMode (he_kms he))"
| "method_hook he (GetEdid sz) a =
     Some (answer_of (\<lambda>(info, version). Edid info version) (GetEdidInfo (he_kms he) a sz), a, [])"
| "method_hook he _ a = None"

definition hook ::
    "'k world \<Rightarrow> hook_env \<Rightarrow> hook_call \<Rightarrow> 'k hooks \<Rightarrow> (hook_answer \<times> 'k hooks \<times> effect list \<times> sdk_event list) option" where
  "hook W he call s =
     (if call = InitAccelerant then new_instance W he s
      else if call = CloneAccelerant then clone_accelerant W he s
      else case sInstance s of
        None \<Rightarrow> None
      | Some ob \<Rightarrow>
          if call = UninitAccelerant then uninit_accelerant he ob s
          else map_option (\<lambda>(ans, a, es). (ans, s\<lparr>sInstance := Some (ob\<lparr>body := a\<rparr>)\<rparr>, es, []))
                 (method_hook he call (body ob)))"

text \<open>A session: the calls in order. Next to the state it keeps what the connections acquired and gave
  back, and the instances that a later \<open>Init\<close> or \<open>Clone\<close> wrote over.\<close>

definition replaced :: "hook_call \<Rightarrow> hook_answer \<Rightarrow> 'k hooks \<Rightarrow> accelerant_object list" where
  "replaced call ans s =
     (if call \<in> {InitAccelerant, CloneAccelerant} \<and> ans = Success
      then (case sInstance s of None \<Rightarrow> [] | Some ob \<Rightarrow> [ob]) else [])"

fun hook_run ::
    "'k world \<Rightarrow> (hook_env \<times> hook_call) list \<Rightarrow> 'k hooks \<Rightarrow> ('k hooks \<times> sdk_event list \<times> accelerant_object list) option" where
  "hook_run W [] s = Some (s, [], [])"
| "hook_run W ((he, call) # ops) s =
     (case hook W he call s of
        None \<Rightarrow> None
      | Some (ans, s1, _, es) \<Rightarrow>
          map_option (\<lambda>(s2, fs, lost). (s2, es @ fs, replaced call ans s @ lost)) (hook_run W ops s1))"

section \<open>What the connections acquire\<close>

definition gains :: "sdk_event list \<Rightarrow> sdk_resource multiset" where
  "gains es = mset (List.map_filter (\<lambda>e. case e of Gain r \<Rightarrow> Some r | Give _ \<Rightarrow> None) es)"

definition gives :: "sdk_event list \<Rightarrow> sdk_resource multiset" where
  "gives es = mset (List.map_filter (\<lambda>e. case e of Give r \<Rightarrow> Some r | Gain _ \<Rightarrow> None) es)"

lemma gains_gives_simps [simp]:
  "gains [] = {#}" "gains (Gain r # es) = add_mset r (gains es)" "gains (Give r # es) = gains es"
  "gains (es @ fs) = gains es + gains fs"
  "gives [] = {#}" "gives (Gain r # es) = gives es" "gives (Give r # es) = add_mset r (gives es)"
  "gives (es @ fs) = gives es + gives fs"
  by (simp_all add: gains_def gives_def List.map_filter_def)

lemma gains_gives_maps [simp]:
  "gains (map Gain rs) = mset rs" "gives (map Gain rs) = {#}"
  "gains (map Give rs) = {#}" "gives (map Give rs) = mset rs"
  by (induction rs) simp_all

text \<open>What the instance owns, and what an instance must be like.\<close>

definition held :: "accelerant_object option \<Rightarrow> sdk_resource multiset" where
  "held inst = (case inst of None \<Rightarrow> {#} | Some ob \<Rightarrow> mset (owned ob))"

definition deletable :: "accelerant_object \<Rightarrow> bool" where
  "deletable ob \<longleftrightarrow>
     (\<forall>free_device. 0 \<le> free_device (deviceHandle (fKmsDev ob)) \<longrightarrow>
        snd (snd (NvAccelerant_dtor free_device ob)) = map Give (rev (owned ob)))"

definition instance_ok :: "accelerant_object option \<Rightarrow> bool" where
  "instance_ok inst \<longleftrightarrow> (\<forall>ob. inst = Some ob \<longrightarrow> deletable ob \<and> framebuffer_fits (body ob))"

lemma owned_body [simp]: "owned (ob\<lparr>body := a\<rparr>) = owned ob"
  by (simp add: owned_def)

lemma deletable_body [simp]: "deletable (ob\<lparr>body := a\<rparr>) = deletable ob"
  by (simp add: deletable_def NvAccelerant_dtor_def parts_dtor_def parts_of_def dtor_pair_def)

lemma new_body_fits:
  "accelerant_body le info k = Some (Ok a, es, k') \<Longrightarrow> framebuffer_fits a"
  by (auto simp: accelerant_body_def NvAccelerant_new_def framebuffer_fits_def mode_zero_def NvKmsBitmap_IsSet_def
      NvKmsSurface_IsSet_def NvKmsBitmap_new_def NvKmsSurface_new_def split: if_splits sum.splits option.splits)

lemma ctor_Ok:
  assumes "handles_not_null (w_ioctl W)" "NvAccelerant_ctor W free_device le k = Some (Ok ob, es, k')"
  shows "es = map Gain (owned ob)" "deletable ob" "framebuffer_fits (body ob)"
proof -
  show "es = map Gain (owned ob)" using ctor_unwinds [OF assms] by simp
  show "deletable ob"
    using ctor_unwinds [OF assms(1) ctor_Ok_any_answer [OF assms(2)]] by (simp add: deletable_def)
  obtain p where "accelerant_parts W free_device le k = Some (Ok p, es, k')" "ob = object_of p"
    using assms(2) by (auto simp: NvAccelerant_ctor_def)
  then show "framebuffer_fits (body ob)"
    by (auto simp: accelerant_parts_def member_Ok object_of_def dest: new_body_fits)
qed

lemma ctor_Throw:
  "handles_not_null (w_ioctl W) \<Longrightarrow> NvAccelerant_ctor W free_device le k = Some (Throw e, es, k') \<Longrightarrow> gains es = gives es"
  using ctor_unwinds [of W free_device le k "Throw e" es k'] by auto

text \<open>One call: what is acquired is given back, held by the instance or lost.\<close>

definition call_ok :: "'k hooks \<Rightarrow> hook_call \<Rightarrow> hook_answer \<times> 'k hooks \<times> effect list \<times> sdk_event list \<Rightarrow> bool" where
  "call_ok s call = (\<lambda>(ans, s', bs, es).
     gains es + held (sInstance s) =
       gives es + held (sInstance s') + mset (concat (map owned (replaced call ans s))) \<and>
     instance_ok (sInstance s') \<and> (\<forall>e. ans = Failure e \<longrightarrow> sInstance s' = sInstance s))"

lemma new_instance_ok:
  assumes "handles_not_null (w_ioctl W)" "instance_ok (sInstance s)" "new_instance W he s = Some out"
    and call: "call = InitAccelerant \<or> call = CloneAccelerant"
  shows "call_ok s call out"
proof -
  obtain r es k where ctor: "NvAccelerant_ctor W (he_free_device he) (he_life he) (kernel s) = Some (r, es, k)"
    using assms(3) by (auto simp: new_instance_def split: option.splits)
  show ?thesis
  proof (cases r)
    case (Ok ob)
    then show ?thesis using assms(3) call ctor ctor_Ok [OF assms(1) ctor [unfolded Ok]]
      by (auto simp: new_instance_def hook_status_def call_ok_def held_def instance_ok_def replaced_def split: option.split)
  next
    case (Throw e)
    then show ?thesis using assms(2,3) call ctor ctor_Throw [OF assms(1) ctor [unfolded Throw]]
      by (auto simp: new_instance_def hook_status_def call_ok_def replaced_def)
  qed (use assms(3) ctor in \<open>simp add: new_instance_def hook_status_def\<close>)
qed

lemma clone_accelerant_ok:
  assumes "handles_not_null (w_ioctl W)" "instance_ok (sInstance s)" "clone_accelerant W he s = Some out"
  shows "call_ok s CloneAccelerant out"
proof -
  obtain fd err where open_eq: "he_open he = (fd, err)" by (cases "he_open he")
  show ?thesis
  proof (cases "fd < 0")
    case True
    then show ?thesis using assms(2,3) open_eq
      by (auto simp: clone_accelerant_def CheckErrno_def call_ok_def replaced_def)
  next
    case False
    then obtain ans s' bs es where new: "new_instance W he s = Some (ans, s', bs, es)"
      and out: "out = (ans, s', bs, Gain (Descriptor fd) # es @ [Give (Descriptor fd)])"
      using assms(3) open_eq by (auto simp: clone_accelerant_def CheckErrno_def sdk_defs)
    show ?thesis using new_instance_ok [OF assms(1,2) new, of CloneAccelerant]
      by (simp add: call_ok_def out)
  qed
qed

lemma method_hook_state:
  "method_hook he call a = Some (ans, a', es) \<Longrightarrow>
     a' = a \<or>
     (\<exists>m r. SetDisplayMode (he_kms he) (he_bitmap he) m a = (r, a', es) \<and> (\<forall>e. ans = Failure e \<longrightarrow> r \<noteq> Ok ())) \<or>
     (\<exists>fl r. SetDpmsMode (he_kms he) fl a = (r, a') \<and> ans = answer_of (\<lambda>_. Success) r)"
  by (cases call) (auto simp: hook_status_def split: prod.splits outcome.splits)

lemma method_hook_ok:
  assumes "method_hook he call a = Some (ans, a', es)" "bitmap_env_ok (he_bitmap he)" "framebuffer_fits a"
  shows "framebuffer_fits a'" "ans = Failure e \<Longrightarrow> a' = a"
proof -
  consider "a' = a"
    | (mode) m r where "SetDisplayMode (he_kms he) (he_bitmap he) m a = (r, a', es)" "\<forall>e. ans = Failure e \<longrightarrow> r \<noteq> Ok ()"
    | (dpms) fl r where "SetDpmsMode (he_kms he) fl a = (r, a')" "ans = answer_of (\<lambda>_. Success) r"
    using method_hook_state [OF assms(1)] by blast
  then have "framebuffer_fits a' \<and> (\<forall>e. ans = Failure e \<longrightarrow> a' = a)"
  proof cases
    case mode
    then show ?thesis
      using SetDisplayMode_fits [OF assms(3,2), of "he_kms he" m] SetDisplayMode_cases [OF mode(1) assms(2)] by auto
  next
    case dpms
    then show ?thesis using assms(3)
      by (auto simp: SetDpmsMode_def answer_of_def framebuffer_fits_def split: option.splits sum.splits)
  qed (use assms(3) in simp)
  then show "framebuffer_fits a'" "ans = Failure e \<Longrightarrow> a' = a" by blast+
qed

lemma hook_ok:
  assumes "handles_not_null (w_ioctl W)" "instance_ok (sInstance s)" "bitmap_env_ok (he_bitmap he)"
    "hook W he call s = Some out"
  shows "call_ok s call out"
proof -
  consider (init) "call = InitAccelerant" | (clone) "call = CloneAccelerant"
    | (other) ob where "call \<noteq> InitAccelerant" "call \<noteq> CloneAccelerant" "sInstance s = Some ob"
    using assms(4) by (auto simp: hook_def split: option.splits if_splits)
  then show ?thesis
  proof cases
    case init
    then show ?thesis using assms(4) new_instance_ok [OF assms(1,2)] by (simp add: hook_def)
  next
    case clone
    then show ?thesis using assms(4) clone_accelerant_ok [OF assms(1,2)] by (simp add: hook_def)
  next
    case other
    then have ob: "deletable ob" "framebuffer_fits (body ob)" using assms(2) by (simp_all add: instance_ok_def)
    show ?thesis
    proof (cases "call = UninitAccelerant")
      case True
      then obtain bs es where dtor: "NvAccelerant_dtor (he_free_device he) ob = (bs, True, es)"
        and out: "out = (Nothing, s\<lparr>sInstance := None\<rparr>, bs, es)"
        using assms(4) other by (auto simp: hook_def uninit_accelerant_def split: prod.splits if_splits)
      have "0 \<le> he_free_device he (deviceHandle (fKmsDev ob))"
        using dtor parts_dtor_survives [of "he_free_device he" "parts_of ob"] by (simp add: NvAccelerant_dtor_def parts_of_def)
      then have "es = map Give (rev (owned ob))" using ob(1) dtor unfolding deletable_def by (metis snd_conv)
      then show ?thesis
        using other(3) True by (simp add: call_ok_def out held_def instance_ok_def replaced_def)
    next
      case False
      then obtain ans a bs where m: "method_hook he call (body ob) = Some (ans, a, bs)"
        and out: "out = (ans, s\<lparr>sInstance := Some (ob\<lparr>body := a\<rparr>)\<rparr>, bs, [])"
        using assms(4) other by (auto simp: hook_def)
      show ?thesis using method_hook_ok [OF m assms(3) ob(2)] ob(1) other
        by (auto simp: call_ok_def out held_def instance_ok_def replaced_def)
    qed
  qed
qed

text \<open>Two entries of the ledger in a row.\<close>

lemma ledger:
  fixes g1 :: "'a multiset"
  assumes "g1 + h0 = v1 + h1 + l1" "g2 + h1 = v2 + h2 + l2"
  shows "g1 + g2 + h0 = v1 + v2 + h2 + (l1 + l2)"
proof -
  have "g1 + g2 + h0 = v1 + (g2 + h1) + l1" using assms(1) by (simp add: ac_simps)
  then show ?thesis using assms(2) by (simp add: ac_simps)
qed

lemma hook_run_ok:
  assumes "handles_not_null (w_ioctl W)" "\<forall>(he, call) \<in> set ops. bitmap_env_ok (he_bitmap he)"
    "instance_ok (sInstance s)" "hook_run W ops s = Some (s', es, lost)"
  shows "gains es + held (sInstance s) = gives es + held (sInstance s') + mset (concat (map owned lost))"
    "instance_ok (sInstance s')"
proof -
  have "gains es + held (sInstance s) = gives es + held (sInstance s') + mset (concat (map owned lost)) \<and>
      instance_ok (sInstance s')"
    using assms
  proof (induction W ops s arbitrary: s' es lost rule: hook_run.induct)
    case (2 W he call ops s)
    obtain ans s1 bs es1 where step: "hook W he call s = Some (ans, s1, bs, es1)"
      and rest: "hook_run W ((he, call) # ops) s =
        map_option (\<lambda>(s2, fs, lost). (s2, es1 @ fs, replaced call ans s @ lost)) (hook_run W ops s1)"
      using "2.prems"(4) by (auto split: option.splits)
    then obtain es2 lost2 where run: "hook_run W ops s1 = Some (s', es2, lost2)"
      and eq: "es = es1 @ es2" "lost = replaced call ans s @ lost2"
      using "2.prems"(4) by auto
    have ok: "call_ok s call (ans, s1, bs, es1)"
      using hook_ok [OF "2.prems"(1,3) _ step] "2.prems"(2) by simp
    have "gains es2 + held (sInstance s1) = gives es2 + held (sInstance s') + mset (concat (map owned lost2)) \<and>
        instance_ok (sInstance s')"
      using "2.IH" [OF step refl refl refl "2.prems"(1) _ _ run] ok "2.prems"(2) by (simp add: call_ok_def)
    then show ?case using ok unfolding eq call_ok_def by (auto intro: ledger)
  qed simp
  then show "gains es + held (sInstance s) = gives es + held (sInstance s') + mset (concat (map owned lost))"
    "instance_ok (sInstance s')" by blast+
qed



definition ex_hook_env :: hook_env where
  "ex_hook_env = \<lparr>he_life = ex_life, he_kms = ex_kms, he_bitmap = ex_bitmap_env, he_free_device = (\<lambda>_. 0),
     he_open = (6, EINTR), he_name = Inr ''GPU'', he_short_name = Inr ''GA102''\<rparr>"

lemma ex_bitmap_ok: "bitmap_env_ok ex_bitmap_env"
  by (simp add: bitmap_env_ok_def ex_bitmap_env_def)

lemma ex_init:
  obtains ob es where "hook ex_world ex_hook_env InitAccelerant \<lparr>sInstance = None, kernel = ()\<rparr> =
      Some (Success, \<lparr>sInstance = Some ob, kernel = ()\<rparr>, [], es)"
    "0 \<le> he_free_device ex_hook_env h" "gains es \<noteq> {#}"
    "fCurrentMode (body ob) = mode_zero"
proof -
  let ?info = "\<lparr>deviceHandle = 9, numDisps = 1, dispHandles = [1]\<rparr>"
  obtain a where a: "accelerant_body ex_life ?info () = Some (Ok a, [], ())"
    using ex_body [of "()"] by (rule exE)
  have zero: "fCurrentMode a = mode_zero"
    using a by (auto simp: accelerant_body_def NvAccelerant_new_def split: if_splits sum.splits option.splits)
  have life: "le_dup ex_life = 3" "le_rm_open ex_life = 4" "le_rm_this ex_life = 1000" "le_kms_open ex_life = 5"
    "le_address ex_life = (\<lambda>_. 2000)"
    by (simp_all add: ex_life_def Let_def)
  have env: "he_life ex_hook_env = ex_life" "he_free_device ex_hook_env = (\<lambda>_. 0)" by (simp_all add: ex_hook_env_def)
  have "\<exists>ob es. NvAccelerant_ctor ex_world (he_free_device ex_hook_env) (he_life ex_hook_env) () = Some (Ok ob, es, ()) \<and>
      gains es \<noteq> {#} \<and> body ob = a"
    using a by (simp add: ex_ctor_simps life env Let_def)
  then obtain ob es where "NvAccelerant_ctor ex_world (he_free_device ex_hook_env) (he_life ex_hook_env) () = Some (Ok ob, es, ())"
      "gains es \<noteq> {#}" "body ob = a" by (elim exE conjE)
  then show ?thesis using zero that [of ob es]
    by (simp add: hook_def new_instance_def hook_status_def env)
qed



end
