(* ===== verification/AccelerantTestRun.thy ===== *)
theory AccelerantTestRun
  imports TestPrograms Hooks
begin

text \<open>
  The whole run of \<open>accelerant/AccelerantTest.cpp\<close>: the test loads the accelerant, asks for its hooks, sets
  the preferred mode, draws a pattern into the frame buffer and then shows a cursor. The hooks are those
  of theory \<open>Hooks\<close>.
\<close>

section \<open>The run\<close>

text \<open>What the outside answers: to \<open>open\<close>, \<open>load_add_on\<close> and \<open>get_image_symbol\<close>, during each call of a hook, and
  the bytes that are in a mapping of some length.\<close>

record test_env =
  te_open :: int
  te_image :: int
  te_symbol :: bool
  te_init :: hook_env
  te_preferred :: hook_env
  te_set :: hook_env
  te_config :: hook_env
  te_memory :: "nat \<Rightarrow> u8 list"

text \<open>\<open>Died\<close> is a hook that does not return, \<open>Overrun\<close> a store outside of the frame buffer, \<open>NullCall\<close> a call of
  a hook that \<open>GetHook\<close> answered with null.\<close>

datatype test_result = ExitStatus nat | Died | Overrun | NullCall

definition test_framebuffer :: "'k hooks \<Rightarrow> NvKmsBitmap" where
  "test_framebuffer s = (case sInstance s of None \<Rightarrow> NvKmsBitmap_new | Some ob \<Rightarrow> fFramebuffer (body ob))"

text \<open>The last part: the pattern, and the three hooks of the cursor.\<close>

definition draw_and_show :: "test_env \<Rightarrow> display_mode \<Rightarrow> int \<Rightarrow> 'k hooks \<Rightarrow> test_result" where
  "draw_and_show te m rows s =
     (case DrawPattern (unat (h_display (timing m))) (unat (v_display (timing m))) (nat rows)
             (te_memory te (nat (BitsLength (test_framebuffer s)))) 0 of
        None \<Rightarrow> Overrun
      | Some _ \<Rightarrow>
          if has_hook B_SET_CURSOR_BITMAP \<and> has_hook B_MOVE_CURSOR \<and> has_hook B_SHOW_CURSOR then ExitStatus 0
          else NullCall)"

definition AccelerantTest :: "'k world \<Rightarrow> test_env \<Rightarrow> 'k hooks \<Rightarrow> test_result" where
  "AccelerantTest W te s =
     (if te_open te < 0 \<or> te_image te < 0 \<or> \<not> te_symbol te then ExitStatus 1
      else case hook W (te_init te) InitAccelerant s of
             None \<Rightarrow> Died
           | Some (Failure _, _) \<Rightarrow> ExitStatus 1
           | Some (_, s, _) \<Rightarrow>
             (case hook W (te_preferred te) GetPreferred s of
                None \<Rightarrow> Died
              | Some (Mode m, s, _) \<Rightarrow>
                (case hook W (te_set te) (SetMode m) s of
                   None \<Rightarrow> Died
                 | Some (Success, s, _) \<Rightarrow>
                   (case hook W (te_config te) GetFramebuffer s of
                      None \<Rightarrow> Died
                    | Some (Framebuffer frame_buffer rows, s, _) \<Rightarrow> draw_and_show te m rows s
                    | _ \<Rightarrow> ExitStatus 1)
                 | _ \<Rightarrow> ExitStatus 1)
              | _ \<Rightarrow> ExitStatus 1))"

text \<open>The image of the cursor: a frame of five pixels around a square.\<close>

definition cursor_color :: "nat \<Rightarrow> nat \<Rightarrow> ColorRgba" where
  "cursor_color x y =
     (if 4 < x \<and> x < 32 - 4 \<and> 4 < y \<and> y < 32 - 4 then \<lparr>r = 0xff, g = 0x99, b = 0x00, a = 0xff\<rparr>
      else \<lparr>r = 0x00, g = 0x99, b = 0xff, a = 0xff\<rparr>)"

definition cursorBits :: "ColorRgba list" where
  "cursorBits =
     fold (\<lambda>y bits. fold (\<lambda>x bits. bits[y * 32 + x := cursor_color x y]) [0..<32] bits) [0..<32]
       (replicate (32 * 32 * 4) \<lparr>r = 0, g = 0, b = 0, a = 0\<rparr>)"

section \<open>Where it ends\<close>

text \<open>The frame buffer after a mode was set.\<close>

lemma assign_rows: "NvKmsBitmap_assign this other = (this', other', es) \<Longrightarrow> fBytesPerRow this' = fBytesPerRow other"
  by (auto simp: NvKmsBitmap_assign_def Let_def split: prod.splits)

lemma SetDisplayMode_framebuffer:
  assumes "SetDisplayMode kms env m acc = (Ok (), acc', es)" "bitmap_env_ok env"
  shows "fBytesPerRow (fFramebuffer acc') = bytes_per_row (ucast (h_display (timing m))) \<and>
    fHeight (fFramebuffer acc') = ucast (v_display (timing m)) \<and> NvKmsBitmap_IsSet (fFramebuffer acc')"
proof -
  from SetDisplayMode_cases [OF assms] obtain fb es1 where
    make: "NvKmsBitmap_make env (ucast (virtual_width m)) (ucast (virtual_height m)) (space m) = (Ok fb, es1)"
    and eq: "virtual_width m = h_display (timing m)" "virtual_height m = v_display (timing m)"
    "fst (NvKmsBitmap_assign (fst (snd (NvKmsBitmap_assign (fOldFramebuffer acc) (fFramebuffer acc)))) fb) = fFramebuffer acc'"
    by auto
  obtain fb2 rest r2 where as2: "NvKmsBitmap_assign (fst (snd (NvKmsBitmap_assign (fOldFramebuffer acc) (fFramebuffer acc)))) fb = (fb2, rest, r2)"
    by (metis surj_pair)
  with eq have "fFramebuffer acc' = fb2" by simp
  then show ?thesis
    using assign_rows [OF as2] bitmap_assign_effects(3,6) [OF as2] bitmap_make_dims [OF make assms(2)]
      bitmap_make_IsSet [OF make assms(2)] eq by simp
qed

lemma hook_SetMode_framebuffer:
  assumes "hook W he (SetMode m) s = Some (Success, s', rest)" "bitmap_env_ok (he_bitmap he)"
  shows "fBytesPerRow (test_framebuffer s') = bytes_per_row (ucast (h_display (timing m)))"
    "fHeight (test_framebuffer s') = ucast (v_display (timing m))"
proof -
  obtain ob where ob: "sInstance s = Some ob" using assms(1) by (auto simp: hook_def split: option.splits)
  obtain r acc' es where set: "SetDisplayMode (he_kms he) (he_bitmap he) m (body ob) = (r, acc', es)" by (metis surj_pair)
  then have "r = Ok ()" "sInstance s' = Some (ob\<lparr>body := acc'\<rparr>)"
    using assms(1) ob by (cases r; auto simp: hook_def hook_status_def)+
  with SetDisplayMode_framebuffer [of "he_kms he" "he_bitmap he" m "body ob" acc' es] set assms(2)
  show "fBytesPerRow (test_framebuffer s') = bytes_per_row (ucast (h_display (timing m)))"
    "fHeight (test_framebuffer s') = ucast (v_display (timing m))"
    by (simp_all add: test_framebuffer_def)
qed

lemma hook_GetFramebuffer_answer:
  assumes "hook W he GetFramebuffer s = Some (Framebuffer bits bpr, s', rest)"
  shows "bpr = BytesPerRow (test_framebuffer s)" "test_framebuffer s' = test_framebuffer s"
  using assms by (auto simp: hook_def test_framebuffer_def GetFrameBufferConfig_def answer_of_def split: option.splits if_splits)

lemma sint_small: "unat (w :: u32) < 2 ^ 31 \<Longrightarrow> nat (sint w) = unat w"
proof -
  assume "unat w < 2 ^ 31"
  then have "int (unat w) < int (2 ^ 31)" by (simp only: of_nat_less_iff)
  then have "uint w < 2 ^ 31" by simp
  moreover have "- (2 ^ 31) \<le> uint w" by (rule order_trans [of _ 0]) simp_all
  ultimately have "sint w = uint w" by (simp add: sint_uint signed_take_bit_int_eq_self)
  then show ?thesis by simp
qed

lemma unat_u16_u32: "unat (ucast (w :: u16) :: u32) = unat w"
  using unsigned_less [of w, where ?'a = nat] by (simp add: unsigned_ucast_eq take_bit_nat_eq_self)

text \<open>The pattern fits into the frame buffer of the mode that was set.\<close>

lemma draw_and_show_ends:
  assumes "fBytesPerRow (test_framebuffer s) = bytes_per_row (ucast (h_display (timing m)))"
    "fHeight (test_framebuffer s) = ucast (v_display (timing m))"
    "unat (h_display (timing m)) \<le> 2 ^ 14" "unat (v_display (timing m)) \<le> 2 ^ 14"
    "\<And>n. length (te_memory te n) = n"
  shows "draw_and_show te m (BytesPerRow (test_framebuffer s)) s = NullCall"
proof -
  let ?w = "ucast (h_display (timing m)) :: u32" and ?h = "ucast (v_display (timing m)) :: u32"
  have small: "unat ?w \<le> 2 ^ 14" "unat ?h \<le> 2 ^ 14" and eq: "unat ?w = unat (h_display (timing m))" "unat ?h = unat (v_display (timing m))"
    using assms(3,4) by (simp_all add: unat_u16_u32)
  have len: "nat (BitsLength (test_framebuffer s)) = unat (bitmap_size ?w ?h)"
    unfolding BitsLength_def bitmap_size_def assms(1,2)
    by (rule sint_small) (use bitmap_size_unat [OF small] in \<open>simp add: bitmap_size_def\<close>)
  have "nat (BytesPerRow (test_framebuffer s)) = unat (bytes_per_row ?w)"
    unfolding BytesPerRow_def assms(1) by (rule sint_small) (use bytes_per_row_bounds(2) [OF small(1)] in simp)
  then show ?thesis
    using pattern_fits_bitmap [OF small, of "te_memory te (nat (BitsLength (test_framebuffer s)))" 0] assms(5) len eq
    by (auto simp: draw_and_show_def)
qed

text \<open>C40: with a preferred mode of at most 16384 pixels in each direction, and mappings as long as the bitmaps, the
  test never writes outside of the frame buffer that the accelerant gave it; but it never ends well either: it
  fails, dies in a hook, or draws the pattern and then calls a cursor hook that the accelerant does not have.\<close>

theorem accelerant_test_ends:
  assumes "bitmap_env_ok (he_bitmap (te_set te))" "\<And>n. length (te_memory te n) = n"
    "\<And>m. GetPreferredDisplayMode (he_kms (te_preferred te)) = Some (Inr m) \<Longrightarrow>
       unat (h_display (timing m)) \<le> 2 ^ 14 \<and> unat (v_display (timing m)) \<le> 2 ^ 14"
  shows "AccelerantTest W te s \<in> {ExitStatus 1, Died, NullCall}"
proof -
  have drawn: "draw_and_show te m rows s4 = NullCall"
    if pref: "hook W (te_preferred te) GetPreferred s1 = Some (Mode m, s2, e2)"
      and set: "hook W (te_set te) (SetMode m) s2 = Some (Success, s3, e3)"
      and config: "hook W (te_config te) GetFramebuffer s3 = Some (Framebuffer bits rows, s4, e4)"
    for s1 m s2 e2 s3 e3 bits rows s4 e4
  proof -
    have "GetPreferredDisplayMode (he_kms (te_preferred te)) = Some (Inr m)"
    proof -
      obtain ob where "sInstance s1 = Some ob" using pref by (auto simp: hook_def split: option.splits)
      then obtain r where "GetPreferredDisplayMode (he_kms (te_preferred te)) = Some r" "answer_of Mode r = Mode m"
        using pref by (auto simp: hook_def)
      then show ?thesis by (cases r) (auto simp: answer_of_def)
    qed
    then show ?thesis
      using draw_and_show_ends [of s4 m te] hook_SetMode_framebuffer [OF set assms(1)]
        hook_GetFramebuffer_answer [OF config] assms(2) assms(3) [of m] by simp
  qed
  show ?thesis
    by (auto simp: AccelerantTest_def dest: drawn split: option.splits hook_answer.splits)
qed

definition ex_test_env :: test_env where
  "ex_test_env = \<lparr>te_open = 3, te_image = 1, te_symbol = True, te_init = ex_hook_env,
     te_preferred = ex_hook_env\<lparr>he_kms := ex_kms\<rparr>, te_set = ex_hook_env\<lparr>he_kms := ex_kms\<rparr>, te_config = ex_hook_env,
     te_memory = (\<lambda>n. replicate n 0)\<rparr>"

lemma ex_preferred: "GetPreferredDisplayMode ex_kms = Some (Inr ex_target)"
  by (simp add: GetPreferredDisplayMode_def preferred_loop.simps ex_kms_def ex_target_def)

lemma accelerant_test_ends_witness:
  "AccelerantTest ex_world ex_test_env \<lparr>sInstance = None, kernel = ()\<rparr> \<in> {ExitStatus 1, Died, NullCall} \<and>
     AccelerantTest ex_world ex_test_env \<lparr>sInstance = None, kernel = ()\<rparr> \<notin> {ExitStatus 1, Died}"
proof
  show "AccelerantTest ex_world ex_test_env \<lparr>sInstance = None, kernel = ()\<rparr> \<in> {ExitStatus 1, Died, NullCall}"
    by (rule accelerant_test_ends)
      (auto simp: ex_test_env_def ex_hook_env_def ex_bitmap_ok ex_preferred ex_target_def Modes.ToHaikuMode_def
        ToHaikuModeTimings_def ex_mode_def)
  obtain ob es where init: "hook ex_world ex_hook_env InitAccelerant \<lparr>sInstance = None, kernel = ()\<rparr> =
      Some (Success, \<lparr>sInstance = Some ob, kernel = ()\<rparr>, [], es)"
    by (rule ex_init)
  let ?s = "\<lparr>sInstance = Some ob, kernel = ()\<rparr>" and ?he = "ex_hook_env\<lparr>he_kms := ex_kms\<rparr>"
  have pref: "hook ex_world ?he GetPreferred ?s = Some (Mode ex_target, ?s, [], [])"
    by (simp add: hook_def answer_of_def ex_preferred)
  obtain r acc' bs where set: "SetDisplayMode ex_kms ex_bitmap_env ex_target (body ob) = (r, acc', bs)" by (metis surj_pair)
  with ex_set_mode [of "body ob"] have ok: "r = Ok ()" by simp
  let ?s3 = "\<lparr>sInstance = Some (ob\<lparr>body := acc'\<rparr>), kernel = ()\<rparr>"
  have env: "he_bitmap ex_hook_env = ex_bitmap_env" by (simp add: ex_hook_env_def)
  have mode: "hook ex_world ?he (SetMode ex_target) ?s = Some (Success, ?s3, bs, [])"
    using set ok env by (simp add: hook_def hook_status_def)
  have "NvKmsBitmap_IsSet (fFramebuffer acc')"
    using SetDisplayMode_framebuffer [OF set [unfolded ok] ex_bitmap_ok] by simp
  then obtain bits rows where "hook ex_world ex_hook_env GetFramebuffer ?s3 = Some (Framebuffer bits rows, ?s3, [], [])"
    by (simp add: hook_def GetFrameBufferConfig_def answer_of_def)
  then show "AccelerantTest ex_world ex_test_env \<lparr>sInstance = None, kernel = ()\<rparr> \<notin> {ExitStatus 1, Died}"
    using init pref mode
    by (auto simp: AccelerantTest_def ex_test_env_def draw_and_show_def split: option.splits)
qed

end
