(* ===== verification/MapContext.thy ===== *)
theory MapContext
  imports BaseControl
begin

text \<open>
  How the resource manager prepares a mapping: \<open>nv_get_file_private\<close> and
  \<open>nv_add_mapping_context_to_file\<close> in \<open>nvidia_gsp/nvidia/os-haiku.cpp\<close>. The context belongs to the
  handle of an open file, which frees its memory when it is deleted.
\<close>

definition sizeof_MemoryRange :: u64 where "sizeof_MemoryRange = 16"

text \<open>What the caller passes for a GPU's memory (\<open>nv_usermap_access_params_t\<close>).\<close>

record usermap_params =
  ua_ranges :: "memory_range list"
  ua_numRanges :: u64
  ua_access_start :: u64
  ua_access_size :: u64
  ua_remap_prot_extra :: u64
  ua_caching :: cache_type

definition nv_get_usermap_access_params :: "usermap_params \<Rightarrow> nv_status \<times> usermap_params" where
  "nv_get_usermap_access_params nvuap = (NV_OK, nvuap\<lparr>ua_remap_prot_extra := 0\<rparr>)"

text \<open>\<open>nv_get_file_private\<close> finds the handle behind a file descriptor; it holds no reference to it, and
  \<open>nv_put_file_private\<close> does nothing. \<open>handles\<close> stands for the handles in memory.\<close>

definition nv_get_file_private :: "(int \<Rightarrow> ptr status) \<Rightarrow> (ptr \<Rightarrow> 'h) \<Rightarrow> int \<Rightarrow> 'h option" where
  "nv_get_file_private fd_ioctl handles fd =
     (let handle = FromFd (fd_ioctl fd) in if handle = nullptr then None else Some (handles handle))"

text \<open>The array that \<open>os_alloc_mem\<close> and \<open>os_mem_copy\<close> make: the size of the allocation is computed
  in 64 bits, the length of the copy is cut to 32 bits, and what is not copied is zero.\<close>

definition copied_ranges :: "u64 \<Rightarrow> memory_range list \<Rightarrow> memory_range list" where
  "copied_ranges numRanges ranges =
     (let bytes = sizeof_MemoryRange * numRanges;
          room = unat bytes div unat sizeof_MemoryRange;
          copied = unat (ucast bytes :: u32) div unat sizeof_MemoryRange
      in take copied ranges @ replicate (room - copied) \<lparr>range_start = 0, range_size = 0\<rparr>)"

text \<open>One request: whether it is for the control device, which \<open>nv\<close> it names, and what
  \<open>os_alloc_mem\<close> answers, 0 for no memory. The result is the status, the new context and the memory
  that was allocated.\<close>

record map_request =
  mr_ctl :: bool
  mr_nv :: ptr
  mr_nvuap :: usermap_params
  mr_prot :: u32
  mr_alloc :: ptr
  mr_pageIndex :: u64
  mr_mem :: ptr

definition add_mapping_context ::
    "map_request \<Rightarrow> ptr \<Rightarrow> mapping_context \<Rightarrow> nv_status \<times> mapping_context \<times> ptr list" where
  "add_mapping_context q device c =
     (let u = mr_nvuap q; finish = (\<lambda>c. c\<lparr>mc_prot := mr_prot q, mc_valid := True, mc_caching := Some (ua_caching u)\<rparr>) in
      if mc_valid c then (NV_ERR_STATE_IN_USE, c, [])
      else let c = mapping_context_zero in
        if mr_ctl q then (NV_OK, finish (c\<lparr>mc_alloc := mr_alloc q, mc_page_index := mr_pageIndex q\<rparr>), [])
        else if device \<noteq> mr_nv q then (NV_ERR_INVALID_ARGUMENT, c, [])
        else if mr_mem q = nullptr then (NV_ERR_NO_MEMORY, c\<lparr>mc_pRanges := None\<rparr>, [])
        else (NV_OK,
              finish (c\<lparr>mc_numRanges := ua_numRanges u,
                        mc_pRanges := Some (mr_mem q, copied_ranges (ua_numRanges u) (ua_ranges u)),
                        mc_access_start := ua_access_start u, mc_access_size := ua_access_size u,
                        mc_remap_prot_extra := ua_remap_prot_extra u\<rparr>),
              [mr_mem q]))"

text \<open>\<open>nv_add_mapping_context_to_file\<close> on the handle of the file descriptor, if there is one.\<close>

definition nv_add_mapping_context_to_file ::
    "map_request \<Rightarrow> 'p base_handle option \<Rightarrow> nv_status \<times> 'p base_handle option \<times> ptr list" where
  "nv_add_mapping_context_to_file q nvfp =
     (case nvfp of
        None \<Rightarrow> (NV_ERR_INVALID_ARGUMENT, None, [])
      | Some h \<Rightarrow> (case add_mapping_context q (bh_device h) (fMmapContext h) of
          (st, c, mem) \<Rightarrow> (st, Some (h\<lparr>fMmapContext := c\<rparr>), mem)))"

section \<open>Requests on one file\<close>

fun add_all :: "map_request list \<Rightarrow> 'p base_handle \<Rightarrow> nv_status list \<times> 'p base_handle \<times> ptr list" where
  "add_all [] h = ([], h, [])"
| "add_all (q # qs) h =
     (case nv_add_mapping_context_to_file q (Some h) of
        (st, Some h', mem) \<Rightarrow>
          (case add_all qs h' of (sts, h'', mem') \<Rightarrow> (st # sts, h'', mem @ mem'))
      | (st, None, mem) \<Rightarrow> ([st], h, mem))"

text \<open>Before the first success the context holds nothing that would have to be freed.\<close>

definition context_clear :: "mapping_context \<Rightarrow> bool" where
  "context_clear c \<longleftrightarrow> \<not> mc_valid c \<and> mc_pRanges c = None \<and> mc_page_array c = nullptr"

lemma add_all_used:
  "mc_valid (fMmapContext h) \<Longrightarrow> add_all qs h = (replicate (length qs) NV_ERR_STATE_IN_USE, h, [])"
  by (induction qs) (simp_all add: nv_add_mapping_context_to_file_def add_mapping_context_def)

lemma add_clear_cases:
  assumes "context_clear (fMmapContext h)" "nv_add_mapping_context_to_file q (Some h) = (st, Some h', mem)"
  shows "st = NV_OK \<and> mc_valid (fMmapContext h') \<and> mem = NvHaikuBaseDeviceHandle_dtor h' \<or>
         st \<noteq> NV_OK \<and> context_clear (fMmapContext h') \<and> mem = []"
  using assms
  by (auto simp: nv_add_mapping_context_to_file_def add_mapping_context_def context_clear_def Let_def
      mapping_context_zero_def NvHaikuBaseDeviceHandle_dtor_def split: if_splits)

lemma add_some: "\<exists>st h' mem. nv_add_mapping_context_to_file q (Some h) = (st, Some h', mem)"
  by (simp add: nv_add_mapping_context_to_file_def split: prod.split)

lemma add_all_clear:
  assumes "context_clear (fMmapContext h)" "add_all qs h = (sts, h', mem)"
  shows "mem = NvHaikuBaseDeviceHandle_dtor h' \<and> (mc_valid (fMmapContext h') \<longleftrightarrow> NV_OK \<in> set sts) \<and>
         (\<exists>failed n. NV_OK \<notin> set failed \<and>
            (sts = failed \<or> sts = failed @ NV_OK # replicate n NV_ERR_STATE_IN_USE))"
  using assms
proof (induction qs arbitrary: h sts mem)
  case Nil
  then show ?case by (auto simp: context_clear_def NvHaikuBaseDeviceHandle_dtor_def)
next
  case (Cons q qs)
  obtain st h1 mem1 where st: "nv_add_mapping_context_to_file q (Some h) = (st, Some h1, mem1)"
    using add_some by blast
  show ?case
  proof (cases "st = NV_OK")
    case True
    then have h1: "mc_valid (fMmapContext h1)" "mem1 = NvHaikuBaseDeviceHandle_dtor h1"
      using add_clear_cases [OF Cons.prems(1) st] by auto
    then show ?thesis using Cons.prems(2) st True add_all_used [OF h1(1), of qs]
      by (auto intro!: exI [of _ "[]"])
  next
    case False
    then have h1: "context_clear (fMmapContext h1)" "mem1 = []"
      using add_clear_cases [OF Cons.prems(1) st] by auto
    obtain sts' mem' where rest: "add_all qs h1 = (sts', h', mem')" "sts = st # sts'" "mem = mem'"
      using Cons.prems(2) st h1(2) by (auto split: prod.splits)
    obtain failed n where f: "NV_OK \<notin> set failed"
        "sts' = failed \<or> sts' = failed @ NV_OK # replicate n NV_ERR_STATE_IN_USE"
      using Cons.IH [OF h1(1) rest(1)] by blast
    have "NV_OK \<notin> set (st # failed)"
      "sts = st # failed \<or> sts = (st # failed) @ NV_OK # replicate n NV_ERR_STATE_IN_USE"
      using f rest(2) False by auto
    then show ?thesis using Cons.IH [OF h1(1) rest(1)] rest False by (metis set_ConsD list.set_intros(2))
  qed
qed

lemma copied_ranges_exact:
  assumes "unat n < 2 ^ 28" "length ranges = unat n"
  shows "copied_ranges n ranges = ranges"
proof -
  have "unat (sizeof_MemoryRange * n) = 16 * unat n"
    using assms(1) by (simp add: sizeof_MemoryRange_def unat_word_ariths)
  moreover have "unat (ucast (sizeof_MemoryRange * n) :: u32) = 16 * unat n"
    using assms(1) calculation by (simp add: unsigned_ucast_eq take_bit_nat_eq_self)
  ultimately show ?thesis using assms(2) by (simp add: copied_ranges_def Let_def sizeof_MemoryRange_def)
qed

text \<open>
  C29: an open file is given a mapping once. Whatever requests come for a new file, in any order and
  with any outcome of the allocations: some fail, then at most one succeeds, and all later ones
  answer \<open>NV_ERR_STATE_IN_USE\<close>; the context is valid exactly when one succeeded; and deleting the
  handle frees exactly the memory that the requests allocated. A GPU's ranges arrive complete when
  there are fewer than \<open>2^28\<close> of them.
\<close>

theorem mapping_context_once:
  assumes "add_all qs (NvHaikuBaseDeviceHandle_new P device ctl) = (sts, h, mem)"
  shows "(\<exists>failed n. NV_OK \<notin> set failed \<and>
            (sts = failed \<or> sts = failed @ NV_OK # replicate n NV_ERR_STATE_IN_USE)) \<and>
         (mc_valid (fMmapContext h) \<longleftrightarrow> NV_OK \<in> set sts) \<and> NvHaikuBaseDeviceHandle_dtor h = mem \<and>
         (\<forall>q c mem'. add_mapping_context q device mapping_context_zero = (NV_OK, c, mem') \<and> \<not> mr_ctl q \<and>
            ua_numRanges (mr_nvuap q) < 2 ^ 28 \<and> length (ua_ranges (mr_nvuap q)) = unat (ua_numRanges (mr_nvuap q)) \<longrightarrow>
            mc_pRanges c = Some (mr_mem q, ua_ranges (mr_nvuap q)) \<and> mc_numRanges c = ua_numRanges (mr_nvuap q))"
proof -
  have "context_clear (fMmapContext (NvHaikuBaseDeviceHandle_new P device ctl))"
    by (simp add: context_clear_def NvHaikuBaseDeviceHandle_new_def mapping_context_zero_def)
  note facts = add_all_clear [OF this assms]
  have "mc_pRanges c = Some (mr_mem q, ua_ranges (mr_nvuap q)) \<and> mc_numRanges c = ua_numRanges (mr_nvuap q)"
    if "add_mapping_context q device mapping_context_zero = (NV_OK, c, mem')" "\<not> mr_ctl q"
      "ua_numRanges (mr_nvuap q) < 2 ^ 28" "length (ua_ranges (mr_nvuap q)) = unat (ua_numRanges (mr_nvuap q))"
    for q c mem'
  proof -
    have "unat (ua_numRanges (mr_nvuap q)) < 2 ^ 28" using that(3) by (simp add: word_less_nat_alt)
    then show ?thesis
      using that copied_ranges_exact
      by (auto simp: add_mapping_context_def mapping_context_zero_def Let_def split: if_splits)
  qed
  then show ?thesis using facts by blast
qed

lemma mapping_context_once_witness:
  "let u = \<lparr>ua_ranges = [\<lparr>range_start = 0x1000, range_size = 0x1000\<rparr>], ua_numRanges = 1, ua_access_start = 0,
            ua_access_size = 0, ua_remap_prot_extra = 0, ua_caching = NV_MEMORY_UNCACHED\<rparr>;
       q = \<lparr>mr_ctl = False, mr_nv = 8, mr_nvuap = u, mr_prot = 1, mr_alloc = 0, mr_pageIndex = 0, mr_mem = 77\<rparr>;
       (sts, h, mem) = add_all [q\<lparr>mr_mem := 0\<rparr>, q, q] (NvHaikuBaseDeviceHandle_new list_pool 8 False)
   in sts = [NV_ERR_NO_MEMORY, NV_OK, NV_ERR_STATE_IN_USE] \<and> NvHaikuBaseDeviceHandle_dtor h = [77]"
proof -
  let ?u = "\<lparr>ua_ranges = [\<lparr>range_start = 0x1000, range_size = 0x1000\<rparr>], ua_numRanges = 1, ua_access_start = 0,
            ua_access_size = 0, ua_remap_prot_extra = 0, ua_caching = NV_MEMORY_UNCACHED\<rparr>"
  let ?q = "\<lparr>mr_ctl = False, mr_nv = 8, mr_nvuap = ?u, mr_prot = 1, mr_alloc = 0, mr_pageIndex = 0, mr_mem = 77\<rparr>"
  obtain sts h mem where run:
      "add_all [?q\<lparr>mr_mem := 0\<rparr>, ?q, ?q] (NvHaikuBaseDeviceHandle_new list_pool 8 False) = (sts, h, mem)"
    by (metis surj_pair)
  then have "sts = [NV_ERR_NO_MEMORY, NV_OK, NV_ERR_STATE_IN_USE]" "mem = [77]"
    by (auto simp: nv_add_mapping_context_to_file_def add_mapping_context_def NvHaikuBaseDeviceHandle_new_def
        mapping_context_zero_def Let_def)
  then show ?thesis using mapping_context_once [OF run] run by (simp add: Let_def)
qed

end
