(* ===== verification/OsServices.thy ===== *)
theory OsServices
  imports OsMemory "HOL-Library.Signed_Division"
begin

text \<open>
  The other services of \<open>nvidia_gsp/nvidia/os-haiku.cpp\<close> that compute something: the firmware of the
  GPU, the configuration space of its PCI function, time, processes and the boot screen, and the
  constant answers of the functions that have nothing to do on Haiku.
\<close>

section \<open>Firmware\<close>

datatype firmware_type = NV_FIRMWARE_TYPE_GSP | NV_FIRMWARE_TYPE_GSP_LOG | NV_FIRMWARE_TYPE_OTHER nat

datatype chip_family =
    NV_FIRMWARE_CHIP_FAMILY_NULL
  | NV_FIRMWARE_CHIP_FAMILY_TU10X
  | NV_FIRMWARE_CHIP_FAMILY_TU11X
  | NV_FIRMWARE_CHIP_FAMILY_GA100
  | NV_FIRMWARE_CHIP_FAMILY_GA10X
  | NV_FIRMWARE_CHIP_FAMILY_AD10X
  | NV_FIRMWARE_CHIP_FAMILY_GH100
  | NV_FIRMWARE_CHIP_FAMILY_END
  | NV_FIRMWARE_CHIP_FAMILY_OTHER nat

definition NV_FIRMWARE_PATH_FOR_FILENAME :: "string \<Rightarrow> string" where
  "NV_FIRMWARE_PATH_FOR_FILENAME name = ''/firmware/nvidia/570.86.16/'' @ name"

definition nv_firmware_path :: "firmware_type \<Rightarrow> chip_family \<Rightarrow> string" where
  "nv_firmware_path fw_type fw_chip_family =
     (if fw_type = NV_FIRMWARE_TYPE_GSP
      then case fw_chip_family of
          NV_FIRMWARE_CHIP_FAMILY_GH100 \<Rightarrow> NV_FIRMWARE_PATH_FOR_FILENAME ''gsp_ga10x.bin''
        | NV_FIRMWARE_CHIP_FAMILY_AD10X \<Rightarrow> NV_FIRMWARE_PATH_FOR_FILENAME ''gsp_ga10x.bin''
        | NV_FIRMWARE_CHIP_FAMILY_GA10X \<Rightarrow> NV_FIRMWARE_PATH_FOR_FILENAME ''gsp_ga10x.bin''
        | NV_FIRMWARE_CHIP_FAMILY_GA100 \<Rightarrow> NV_FIRMWARE_PATH_FOR_FILENAME ''gsp_tu10x.bin''
        | NV_FIRMWARE_CHIP_FAMILY_TU11X \<Rightarrow> NV_FIRMWARE_PATH_FOR_FILENAME ''gsp_tu10x.bin''
        | NV_FIRMWARE_CHIP_FAMILY_TU10X \<Rightarrow> NV_FIRMWARE_PATH_FOR_FILENAME ''gsp_tu10x.bin''
        | _ \<Rightarrow> ''''
      else if fw_type = NV_FIRMWARE_TYPE_GSP_LOG
      then case fw_chip_family of
          NV_FIRMWARE_CHIP_FAMILY_GH100 \<Rightarrow> NV_FIRMWARE_PATH_FOR_FILENAME ''gsp_log_ga10x.bin''
        | NV_FIRMWARE_CHIP_FAMILY_AD10X \<Rightarrow> NV_FIRMWARE_PATH_FOR_FILENAME ''gsp_log_ga10x.bin''
        | NV_FIRMWARE_CHIP_FAMILY_GA10X \<Rightarrow> NV_FIRMWARE_PATH_FOR_FILENAME ''gsp_log_ga10x.bin''
        | NV_FIRMWARE_CHIP_FAMILY_GA100 \<Rightarrow> NV_FIRMWARE_PATH_FOR_FILENAME ''gsp_log_tu10x.bin''
        | NV_FIRMWARE_CHIP_FAMILY_TU11X \<Rightarrow> NV_FIRMWARE_PATH_FOR_FILENAME ''gsp_log_tu10x.bin''
        | NV_FIRMWARE_CHIP_FAMILY_TU10X \<Rightarrow> NV_FIRMWARE_PATH_FOR_FILENAME ''gsp_log_tu10x.bin''
        | _ \<Rightarrow> ''''
      else '''')"

text \<open>What the system answers: the four data directories, in the order they are asked for, what can
  be opened for reading, and whether there is memory. A file is the size that \<open>lseek\<close> reports and
  what \<open>read_pos\<close> gives for a read of that size, \<open>None\<close> for an error.\<close>

record fw_file =
  ff_size :: nat
  ff_read :: "u8 list option"

record fw_env =
  fe_directories :: "string status list"
  fe_open :: "string \<Rightarrow> fw_file option"
  fe_new :: "nat \<Rightarrow> bool"
  B_PATH_NAME_LENGTH :: nat

fun fw_search :: "fw_env \<Rightarrow> string \<Rightarrow> string status list \<Rightarrow> fw_file option" where
  "fw_search E suffix [] = None"
| "fw_search E suffix (Inl e # dirs) = fw_search E suffix dirs"
| "fw_search E suffix (Inr path # dirs) =
     (if length path + length suffix > B_PATH_NAME_LENGTH E - 1 then fw_search E suffix dirs
      else case fe_open E (path @ suffix) of
        Some file \<Rightarrow> Some file
      | None \<Rightarrow> fw_search E suffix dirs)"

text \<open>The result is the buffer, or \<open>Some None\<close> for a null pointer. The buffer is cleared before it is
  checked: without memory the function writes through a null pointer and has no value, unless there
  is nothing to clear.\<close>

definition nv_get_firmware :: "fw_env \<Rightarrow> firmware_type \<Rightarrow> chip_family \<Rightarrow> (u8 list \<times> u32) option option" where
  "nv_get_firmware E fw_type fw_chip_family =
     (case fw_search E (nv_firmware_path fw_type fw_chip_family) (fe_directories E) of
        None \<Rightarrow> Some None
      | Some file \<Rightarrow>
          if \<not> fe_new E (ff_size file) then (if ff_size file = 0 then Some None else None)
          else case ff_read file of
            None \<Rightarrow> Some None
          | Some data \<Rightarrow>
              if length data < ff_size file then Some None
              else Some (Some (data, word_of_nat (ff_size file))))"

text \<open>The files that the search looks at, in order.\<close>

definition fw_candidates :: "fw_env \<Rightarrow> string \<Rightarrow> fw_file list" where
  "fw_candidates E suffix =
     List.map_filter (\<lambda>dir. case dir of
         Inl _ \<Rightarrow> None
       | Inr path \<Rightarrow> if length path + length suffix < B_PATH_NAME_LENGTH E then fe_open E (path @ suffix) else None)
       (fe_directories E)"

lemma fw_search_hd:
  assumes "0 < B_PATH_NAME_LENGTH E"
  shows "fw_search E suffix dirs =
     (case List.map_filter (\<lambda>dir. case dir of
         Inl _ \<Rightarrow> None
       | Inr path \<Rightarrow> if length path + length suffix < B_PATH_NAME_LENGTH E then fe_open E (path @ suffix) else None) dirs of
        [] \<Rightarrow> None | file # _ \<Rightarrow> Some file)"
  using assms
  by (induction E suffix dirs rule: fw_search.induct) (auto simp: map_filter_simps split: option.split list.split)

definition fw_supported :: "firmware_type \<Rightarrow> chip_family \<Rightarrow> bool" where
  "fw_supported fw_type fam \<longleftrightarrow>
     fw_type \<in> {NV_FIRMWARE_TYPE_GSP, NV_FIRMWARE_TYPE_GSP_LOG} \<and>
     fam \<in> {NV_FIRMWARE_CHIP_FAMILY_TU10X, NV_FIRMWARE_CHIP_FAMILY_TU11X, NV_FIRMWARE_CHIP_FAMILY_GA100,
            NV_FIRMWARE_CHIP_FAMILY_GA10X, NV_FIRMWARE_CHIP_FAMILY_AD10X, NV_FIRMWARE_CHIP_FAMILY_GH100}"

lemma firmware_path_empty: "nv_firmware_path fw_type fam = '''' \<longleftrightarrow> \<not> fw_supported fw_type fam"
  by (cases fw_type; cases fam) (simp_all add: nv_firmware_path_def fw_supported_def NV_FIRMWARE_PATH_FOR_FILENAME_def)

text \<open>
  The firmware comes from the first data directory that has it, and from no other: if the file
  found there cannot be read completely the load fails. What is handed out is all of the file, with
  its size, when that fits 32 bits. Without memory for a file that is not empty the driver crashes.
  The check for a kind without firmware never fires: its path is empty, not null, so the data
  directory itself is opened in place of a file.
\<close>

theorem firmware_from_first_directory:
  assumes "0 < B_PATH_NAME_LENGTH E"
    and "\<forall>path ff data. fe_open E path = Some ff \<and> ff_read ff = Some data \<longrightarrow> length data \<le> ff_size ff"
  shows "(case fw_candidates E (nv_firmware_path fw_type fam) of
            [] \<Rightarrow> nv_get_firmware E fw_type fam = Some None
          | ff # _ \<Rightarrow>
              (nv_get_firmware E fw_type fam = None \<longleftrightarrow> \<not> fe_new E (ff_size ff) \<and> ff_size ff \<noteq> 0) \<and>
              (\<forall>data n. nv_get_firmware E fw_type fam = Some (Some (data, n)) \<longrightarrow>
                 ff_read ff = Some data \<and> length data = ff_size ff \<and>
                 (ff_size ff < 2 ^ 32 \<longrightarrow> unat n = length data))) \<and>
         (\<not> fw_supported fw_type fam \<longrightarrow>
            (\<forall>path dirs ff. fe_directories E = Inr path # dirs \<and> length path < B_PATH_NAME_LENGTH E \<and>
               fe_open E path = Some ff \<longrightarrow> hd (fw_candidates E (nv_firmware_path fw_type fam)) = ff))"
proof -
  let ?suffix = "nv_firmware_path fw_type fam"
  have search: "fw_search E ?suffix (fe_directories E) =
      (case fw_candidates E ?suffix of [] \<Rightarrow> None | ff # _ \<Rightarrow> Some ff)"
    unfolding fw_candidates_def by (rule fw_search_hd) (rule assms(1))
  have opened: "\<exists>path. fe_open E path = Some ff" if "ff \<in> set (fw_candidates E ?suffix)" for ff
    using that by (auto simp: fw_candidates_def List.map_filter_def split: sum.splits if_splits)
  have first: "case fw_candidates E ?suffix of
        [] \<Rightarrow> nv_get_firmware E fw_type fam = Some None
      | ff # _ \<Rightarrow>
          (nv_get_firmware E fw_type fam = None \<longleftrightarrow> \<not> fe_new E (ff_size ff) \<and> ff_size ff \<noteq> 0) \<and>
          (\<forall>data n. nv_get_firmware E fw_type fam = Some (Some (data, n)) \<longrightarrow>
             ff_read ff = Some data \<and> length data = ff_size ff \<and>
             (ff_size ff < 2 ^ 32 \<longrightarrow> unat n = length data))"
  proof (cases "fw_candidates E ?suffix")
    case Nil
    then show ?thesis using search by (simp add: nv_get_firmware_def)
  next
    case (Cons ff files)
    then obtain path where "fe_open E path = Some ff" using opened by fastforce
    then have "length data \<le> ff_size ff" if "ff_read ff = Some data" for data using assms(2) that by blast
    then show ?thesis
      using search Cons by (auto simp: nv_get_firmware_def unat_of_nat_lt split: option.splits if_splits)
  qed
  have "hd (fw_candidates E ?suffix) = ff"
    if "\<not> fw_supported fw_type fam" "fe_directories E = Inr path # dirs" "length path < B_PATH_NAME_LENGTH E"
      "fe_open E path = Some ff" for path dirs ff
    using that firmware_path_empty [of fw_type fam] by (simp add: fw_candidates_def map_filter_simps)
  then show ?thesis using first by blast
qed

lemma firmware_from_first_directory_witness:
  "let E = \<lparr>fe_directories = [Inl ENOENT, Inr ''/d'', Inr ''/s''],
            fe_open = (\<lambda>p. if p = ''/s/firmware/nvidia/570.86.16/gsp_tu10x.bin''
                           then Some \<lparr>ff_size = 2, ff_read = Some [7, 8]\<rparr> else None),
            fe_new = (\<lambda>_. True), B_PATH_NAME_LENGTH = 1024\<rparr>
   in nv_get_firmware E NV_FIRMWARE_TYPE_GSP NV_FIRMWARE_CHIP_FAMILY_TU11X = Some (Some ([7, 8], 2)) \<and>
      length [7 :: u8, 8] = unat (2 :: u32)"
proof -
  let ?E = "\<lparr>fe_directories = [Inl ENOENT, Inr ''/d'', Inr ''/s''],
            fe_open = (\<lambda>p. if p = ''/s/firmware/nvidia/570.86.16/gsp_tu10x.bin''
                           then Some \<lparr>ff_size = 2, ff_read = Some [7, 8]\<rparr> else None),
            fe_new = (\<lambda>_. True), B_PATH_NAME_LENGTH = 1024\<rparr>"
  let ?path = "nv_firmware_path NV_FIRMWARE_TYPE_GSP NV_FIRMWARE_CHIP_FAMILY_TU11X"
  have run: "nv_get_firmware ?E NV_FIRMWARE_TYPE_GSP NV_FIRMWARE_CHIP_FAMILY_TU11X = Some (Some ([7, 8], 2))"
    by (simp add: nv_get_firmware_def nv_firmware_path_def NV_FIRMWARE_PATH_FOR_FILENAME_def)
  have cand: "fw_candidates ?E ?path = [\<lparr>ff_size = 2, ff_read = Some [7, 8]\<rparr>]"
    by (simp add: fw_candidates_def map_filter_simps nv_firmware_path_def NV_FIRMWARE_PATH_FOR_FILENAME_def)
  have pre: "0 < B_PATH_NAME_LENGTH ?E"
      "\<forall>path ff data. fe_open ?E path = Some ff \<and> ff_read ff = Some data \<longrightarrow> length data \<le> ff_size ff"
    by (auto split: if_splits)
  note spec = conjunct1 [OF firmware_from_first_directory [where E = ?E
      and fw_type = NV_FIRMWARE_TYPE_GSP and fam = NV_FIRMWARE_CHIP_FAMILY_TU11X, OF pre], unfolded cand list.case]
  have "unat (2 :: u32) = length [7 :: u8, 8]"
    using spec [THEN conjunct2, rule_format, OF run, THEN conjunct2, THEN conjunct2] by simp
  then show ?thesis using run by (simp add: Let_def)
qed

section \<open>The configuration space\<close>

text \<open>A handle is the copy of the function's \<open>pci_info\<close> that \<open>os_pci_init_handle\<close> made: here its bus,
  device and function number. The bus manager reads and writes 1, 2 or 4 bytes of the space \<open>'c\<close>.\<close>

type_synonym pci_handle = "u8 \<times> u8 \<times> u8"

record 'c pci_module =
  read_pci_config :: "pci_handle \<Rightarrow> u32 \<Rightarrow> nat \<Rightarrow> 'c \<Rightarrow> u32"
  write_pci_config :: "pci_handle \<Rightarrow> u32 \<Rightarrow> nat \<Rightarrow> u32 \<Rightarrow> 'c \<Rightarrow> 'c"

definition os_pci_remove :: "ptr \<Rightarrow> ptr list" where
  "os_pci_remove handle = (if handle = nullptr then [] else [handle])"

definition os_pci_read_byte :: "'c pci_module \<Rightarrow> pci_handle \<Rightarrow> u32 \<Rightarrow> 'c \<Rightarrow> nv_status \<times> u8" where
  "os_pci_read_byte M h offset c = (NV_OK, ucast (read_pci_config M h offset 1 c))"

definition os_pci_read_word :: "'c pci_module \<Rightarrow> pci_handle \<Rightarrow> u32 \<Rightarrow> 'c \<Rightarrow> nv_status \<times> u16" where
  "os_pci_read_word M h offset c = (NV_OK, ucast (read_pci_config M h offset 2 c))"

definition os_pci_write_byte :: "'c pci_module \<Rightarrow> pci_handle \<Rightarrow> u32 \<Rightarrow> u8 \<Rightarrow> 'c \<Rightarrow> nv_status \<times> 'c" where
  "os_pci_write_byte M h offset value c = (NV_OK, write_pci_config M h offset 1 (ucast value) c)"

definition os_pci_write_word :: "'c pci_module \<Rightarrow> pci_handle \<Rightarrow> u32 \<Rightarrow> u16 \<Rightarrow> 'c \<Rightarrow> nv_status \<times> 'c" where
  "os_pci_write_word M h offset value c = (NV_OK, write_pci_config M h offset 2 (ucast value) c)"

section \<open>Time\<close>

text \<open>\<open>bigtime_t\<close> is a signed 64-bit count of microseconds; the division truncates, and the results are
  cut to 32 bits.\<close>

definition os_get_current_time :: "int \<Rightarrow> nv_status \<times> u32 \<times> u32" where
  "os_get_current_time time =
     (NV_OK, word_of_int (time sdiv 1000000), word_of_int (time smod 1000000))"

definition os_get_current_tick :: "u64 \<Rightarrow> u64" where "os_get_current_tick system_time = system_time * 1000"
definition os_get_current_tick_hr :: "u64 \<Rightarrow> u64" where "os_get_current_tick_hr system_time = system_time * 1000"
definition os_get_tick_resolution :: u64 where "os_get_tick_resolution = 1000"

text \<open>Until the year 2106 the two parts put together are the time.\<close>

lemma current_time_exact:
  assumes "0 \<le> time" "time < 2 ^ 32 * 1000000" "os_get_current_time time = (st, secs, usecs)"
  shows "int (unat secs) * 1000000 + int (unat usecs) = time \<and> unat usecs < 1000000"
proof -
  have pos: "time sdiv 1000000 = time div 1000000" "time smod 1000000 = time mod 1000000"
    using assms(1)
    by (cases "time = 0"; simp add: signed_divide_int_def signed_modulo_int_def)+
  have "secs = word_of_int (time div 1000000)" "usecs = word_of_int (time mod 1000000)"
    using assms(3) pos by (simp_all add: os_get_current_time_def)
  moreover have "time div 1000000 < 2 ^ 32" "0 \<le> time div 1000000" using assms by simp_all
  moreover have "time mod 1000000 < 1000000" "0 \<le> time mod 1000000" by simp_all
  ultimately have "int (unat secs) = time div 1000000" "int (unat usecs) = time mod 1000000"
    by (simp_all add: uint_word_of_int take_bit_int_eq_self flip: uint_nat)
  moreover have "time mod 1000000 < 1000000" by simp
  ultimately show ?thesis using div_mult_mod_eq [of time 1000000] by linarith
qed

section \<open>Processes and the console\<close>

text \<open>\<open>strncpy(buf, name, len - 1)\<close> pads with zeros, and the last byte becomes zero. For length 0 the
  count wraps and both writes leave the buffer: no value.\<close>

definition os_get_current_process_name :: "string option \<Rightarrow> u32 \<Rightarrow> string option" where
  "os_get_current_process_name team_name len =
     (let name = (case team_name of None \<Rightarrow> [] | Some n \<Rightarrow> n) in
      if len = 0 then None
      else let n = unat (len - 1) in
        Some (take n name @ replicate (n - length name) (CHR 0x00) @ [CHR 0x00]))"

definition os_is_administrator :: "nat \<Rightarrow> nat \<Rightarrow> bool" where
  "os_is_administrator uid euid \<longleftrightarrow> uid = 0 \<or> euid = 0"

datatype access_right = RS_ACCESS_PERFMON | RS_ACCESS_NICE | RS_ACCESS_OTHER nat

definition os_check_access :: "nat \<Rightarrow> nat \<Rightarrow> access_right \<Rightarrow> bool" where
  "os_check_access uid euid accessRight =
     (case accessRight of RS_ACCESS_OTHER _ \<Rightarrow> False | _ \<Rightarrow> os_is_administrator uid euid)"

definition os_find_ns_pid :: "ptr \<Rightarrow> ptr \<Rightarrow> u32 \<Rightarrow> nv_status \<times> u32 option" where
  "os_find_ns_pid pid_info ns_pid pid =
     (if pid_info = nullptr \<or> ns_pid = nullptr then (NV_ERR_INVALID_ARGUMENT, None)
      else if pid = 0 then (NV_ERR_OBJECT_NOT_FOUND, Some pid) else (NV_OK, Some pid))"

text \<open>The frame buffer the boot loader left, if any. All but the address are 32-bit integers, also the
  product that becomes the size.\<close>

record frame_buffer_boot_info =
  physical_frame_buffer :: u64
  fbi_width :: u32
  fbi_height :: u32
  fbi_depth :: u32
  fbi_bytes_per_row :: u32

record screen_info =
  pPhysicalAddress :: u64
  pFbWidth :: u32
  pFbHeight :: u32
  pFbDepth :: u32
  pFbPitch :: u32
  pFbSize :: u64

definition nv_get_screen_info :: "frame_buffer_boot_info option \<Rightarrow> screen_info" where
  "nv_get_screen_info bufferInfo =
     (case bufferInfo of
        None \<Rightarrow> \<lparr>pPhysicalAddress = 0, pFbWidth = 0, pFbHeight = 0, pFbDepth = 0, pFbPitch = 0, pFbSize = 0\<rparr>
      | Some b \<Rightarrow>
          \<lparr>pPhysicalAddress = physical_frame_buffer b, pFbWidth = fbi_width b, pFbHeight = fbi_height b,
           pFbDepth = fbi_depth b, pFbPitch = fbi_bytes_per_row b,
           pFbSize = scast (fbi_width b * fbi_bytes_per_row b)\<rparr>)"

text \<open>The size is computed from the width in place of the height: a full HD screen gets 14 MB where its
  frame buffer has 8 MB.\<close>

lemma screen_size_uses_width:
  "pFbSize (nv_get_screen_info (Some \<lparr>physical_frame_buffer = 0, fbi_width = 1920, fbi_height = 1080,
      fbi_depth = 32, fbi_bytes_per_row = 7680\<rparr>)) = 1920 * 7680"
  by (simp add: nv_get_screen_info_def)

section \<open>Constant answers\<close>

text \<open>What the functions of \<open>os-haiku.cpp\<close> say that have nothing to look at; the first group is the
  one between \<open>os_get_is_openrm\<close> and \<open>nv_get_dev_minor\<close>, in its order, the second is that of ACPI.\<close>

datatype os_answer = Yes | No | Status nv_status | Number u32 | NotSupportedLink

datatype system_query =
    Is_openrm | Is_chassis_notebook | Device_memory_config | Device_vm_present | Is_efi_enabled
  | Acpi_rsdp_from_uefi | Is_nvswitch_present | Nvswitch_registry_binary | Is_vgx_hyper | Pat_supported
  | Dev_minor

fun system_answer :: "system_query \<Rightarrow> os_answer" where
  "system_answer Is_openrm = Yes"
| "system_answer Is_chassis_notebook = No"
| "system_answer Device_memory_config = Status NV_ERR_NOT_SUPPORTED"
| "system_answer Device_vm_present = Status NV_ERR_NOT_SUPPORTED"
| "system_answer Is_efi_enabled = Yes"
| "system_answer Acpi_rsdp_from_uefi = Status NV_ERR_OPERATING_SYSTEM"
| "system_answer Is_nvswitch_present = No"
| "system_answer Nvswitch_registry_binary = NotSupportedLink"
| "system_answer Is_vgx_hyper = No"
| "system_answer Pat_supported = No"
| "system_answer Dev_minor = Number 1"

datatype acpi_query =
    Acpi_method | Acpi_dsm | Acpi_ddc | Acpi_rom | Acpi_dod | Acpi_power_resource | Acpi_powersource
  | Acpi_mux | Acpi_battery

fun acpi_answer :: "acpi_query \<Rightarrow> os_answer" where
  "acpi_answer Acpi_power_resource = No"
| "acpi_answer Acpi_battery = No"
| "acpi_answer _ = Status NV_ERR_NOT_SUPPORTED"

text \<open>The capability files: entries are one byte of memory each, a descriptor is duplicated and the
  duplicate is never closed. The descriptors open after a call.\<close>

definition os_nv_cap_validate_and_dup_fd :: "int status \<Rightarrow> int list \<Rightarrow> int \<times> int list" where
  "os_nv_cap_validate_and_dup_fd dup_result open_fds =
     (case dup_result of Inl e \<Rightarrow> (- 1, open_fds) | Inr fd \<Rightarrow> (fd, fd # open_fds))"

definition os_nv_cap_close_fd :: "int \<Rightarrow> int list \<Rightarrow> int list" where
  "os_nv_cap_close_fd fd open_fds = open_fds"

definition nv_acquire_fabric_mgmt_cap :: "int status \<Rightarrow> int list \<Rightarrow> nv_status \<times> int \<times> int list" where
  "nv_acquire_fabric_mgmt_cap dup_result open_fds =
     (NV_OK, os_nv_cap_validate_and_dup_fd dup_result open_fds)"

lemma cap_fd_leaks:
  "os_nv_cap_validate_and_dup_fd (Inr fd) fds = (fd, fds') \<Longrightarrow> fd \<in> set (os_nv_cap_close_fd fd fds')"
  by (auto simp: os_nv_cap_validate_and_dup_fd_def os_nv_cap_close_fd_def)

end
