(* ===== verification/OsAnswers.thy ===== *)
theory OsAnswers
  imports OsServices OsSync "HOL-Library.Multiset"
begin

unbundle bit_operations_syntax

text \<open>
  What is left of \<open>nvidia_gsp/nvidia/os-haiku.cpp\<close>: the constants of paging, sleeping, the small blocks
  that stand for objects Haiku does not have, the registry, the control device (\<open>ControlDevice.cpp\<close>) as
  the resource manager finds it, and the functions that have one answer on Haiku. With \<open>stubs.c\<close>: the
  functions that the resource manager imports and that only panic.
\<close>

section \<open>Pages\<close>

definition os_page_size :: u32 where "os_page_size = of_nat B_PAGE_SIZE"
definition os_page_mask :: u64 where "os_page_mask = NOT (of_nat (B_PAGE_SIZE - 1))"
definition os_page_shift :: u8 where "os_page_shift = 12"

text \<open>No memory encryption of the processor and no confidential computing.\<close>

definition os_sev_status :: u32 where "os_sev_status = 0"
definition os_sev_enabled :: bool where "os_sev_enabled = False"
definition os_cc_sev_snp_enabled :: bool where "os_cc_sev_snp_enabled = False"
definition os_cc_snp_vtom_enabled :: bool where "os_cc_snp_vtom_enabled = False"
definition os_cc_enabled :: bool where "os_cc_enabled = False"
definition os_cc_tdx_enabled :: bool where "os_cc_tdx_enabled = False"

lemma page_constants_agree:
  "unat os_page_size = 2 ^ unat os_page_shift" "unat (adr AND os_page_mask) = unat adr div 2 ^ unat os_page_shift * 2 ^ unat os_page_shift"
proof -
  show "unat os_page_size = 2 ^ unat os_page_shift" by (simp add: os_page_size_def os_page_shift_def B_PAGE_SIZE_def)
  have "of_nat (B_PAGE_SIZE - 1) = (mask 12 :: u64)" by (simp add: B_PAGE_SIZE_def mask_eq_exp_minus_1)
  then have "adr AND os_page_mask = push_bit 12 (drop_bit 12 adr)"
    by (auto simp: os_page_mask_def bit_eq_iff bit_and_iff bit_not_iff bit_mask_iff bit_push_bit_iff bit_drop_bit_eq)
  then have "unat (adr AND os_page_mask) = take_bit 64 (push_bit 12 (drop_bit 12 (unat adr)))"
    by (simp add: unsigned_drop_bit_eq unsigned_push_bit_eq take_bit_push_bit take_bit_drop_bit)
  moreover have "unat adr < 2 ^ 64" using unsigned_less [of adr, where ?'a = nat] by simp
  then have "push_bit 12 (drop_bit 12 (unat adr)) < 2 ^ 64"
    by (simp add: push_bit_eq_mult drop_bit_eq_div)
  ultimately have "unat (adr AND os_page_mask) = push_bit 12 (drop_bit 12 (unat adr))"
    by (simp add: take_bit_nat_eq_self)
  then show "unat (adr AND os_page_mask) = unat adr div 2 ^ unat os_page_shift * 2 ^ unat os_page_shift"
    by (simp add: os_page_shift_def push_bit_eq_mult drop_bit_eq_div)
qed

text \<open>The number of pages is a constant: of pages of 4 KB, it stands for 4 TB of memory.\<close>

definition os_get_num_phys_pages :: u64 where "os_get_num_phys_pages = 1024 * 1024 * 1024"

lemma num_phys_pages_memory: "unat os_get_num_phys_pages * unat os_page_size = 2 ^ 42"
  by (simp add: os_get_num_phys_pages_def os_page_size_def B_PAGE_SIZE_def)

definition os_get_max_user_va :: u64 where "os_get_max_user_va = 0xa000000000000000"
definition nv_get_dma_start_address :: u64 where "nv_get_dma_start_address = 0"
definition nv_requires_dma_remap :: bool where "nv_requires_dma_remap = False"
definition nv_set_dma_address_size :: "u32 \<Rightarrow> 'nv \<Rightarrow> 'nv" where "nv_set_dma_address_size phys_addr_bits nv = nv"
definition os_flush_cpu_cache_all :: nv_status where "os_flush_cpu_cache_all = NV_ERR_NOT_SUPPORTED"

section \<open>Sleeping\<close>

text \<open>The microseconds given to \<open>snooze\<close>, a signed 64-bit integer.\<close>

definition nvlink_sleep :: "u32 \<Rightarrow> int" where "nvlink_sleep ms = sint ((1000 :: u64) * ucast ms)"
definition os_delay_us :: "u32 \<Rightarrow> nv_status \<times> int" where "os_delay_us MicroSeconds = (NV_OK, sint (ucast MicroSeconds :: u64))"
definition os_delay :: "u32 \<Rightarrow> nv_status \<times> int" where "os_delay MilliSeconds = (NV_OK, sint (ucast MilliSeconds * 1000 :: u64))"
definition os_schedule :: "nv_status \<times> int" where "os_schedule = (NV_OK, 1)"

lemma sint_product_small:
  assumes "k \<le> 1000"
  shows "sint (of_nat k * ucast (w :: u32) :: u64) = int k * int (unat w)"
proof -
  have w: "unat w < 2 ^ 32" using unsigned_less [of w, where ?'a = nat] by simp
  have "k * unat w \<le> 1000 * 2 ^ 32" by (rule mult_le_mono) (use assms w in simp_all)
  then have "int (k * unat w) \<le> int (1000 * 2 ^ 32)" by (simp only: of_nat_le_iff)
  then have bound: "int (k * unat w) < 2 ^ 63" by simp
  have "(ucast w :: u64) = of_nat (unat w)" by simp
  then have "(of_nat k * ucast w :: u64) = word_of_int (int (k * unat w))" by simp
  then have "sint (of_nat k * ucast w :: u64) = signed_take_bit 63 (int (k * unat w))"
    by (simp only: sint_sbintrunc') simp
  also have "\<dots> = int (k * unat w)" using bound by (intro signed_take_bit_int_eq_self) (simp_all add: order_trans [of _ 0])
  finally show ?thesis by simp
qed

text \<open>No delay is cut short or becomes negative.\<close>

lemma delays_exact:
  "nvlink_sleep ms = 1000 * int (unat ms)" "snd (os_delay ms) = 1000 * int (unat ms)" "snd (os_delay_us us) = int (unat us)"
  using sint_product_small [of 1000 ms] sint_product_small [of 1 us]
  by (simp_all add: nvlink_sleep_def os_delay_def os_delay_us_def mult.commute)

section \<open>Small objects\<close>

text \<open>The process information and the capability entries are one byte each; \<open>mem\<close> is what \<open>malloc\<close>
  answers. The state is the blocks in use. Freeing null does nothing.\<close>

definition malloc1 :: "ptr \<Rightarrow> ptr multiset \<Rightarrow> ptr \<times> ptr multiset" where
  "malloc1 mem blocks = (mem, if mem = nullptr then blocks else add_mset mem blocks)"

definition free_block :: "ptr \<Rightarrow> ptr multiset \<Rightarrow> ptr multiset" where
  "free_block p blocks = (if p = nullptr then blocks else blocks - {#p#})"

definition os_get_pid_info :: "ptr \<Rightarrow> ptr multiset \<Rightarrow> ptr \<times> ptr multiset" where
  "os_get_pid_info mem blocks = malloc1 mem blocks"

definition os_put_pid_info :: "ptr \<Rightarrow> ptr multiset \<Rightarrow> ptr multiset" where
  "os_put_pid_info pid_info blocks = free_block pid_info blocks"

definition os_nv_cap_init :: ptr where "os_nv_cap_init = nullptr"

definition os_nv_cap_create_dir_entry :: "ptr \<Rightarrow> ptr multiset \<Rightarrow> ptr \<times> ptr multiset" where
  "os_nv_cap_create_dir_entry mem blocks = malloc1 mem blocks"

definition os_nv_cap_create_file_entry :: "ptr \<Rightarrow> ptr multiset \<Rightarrow> ptr \<times> ptr multiset" where
  "os_nv_cap_create_file_entry mem blocks = malloc1 mem blocks"

definition os_nv_cap_destroy_entry :: "ptr \<Rightarrow> ptr multiset \<Rightarrow> ptr multiset" where
  "os_nv_cap_destroy_entry cap blocks = free_block cap blocks"

text \<open>The buffer of a firmware is an array of \<open>new\<close>.\<close>

definition nv_put_firmware :: "ptr \<Rightarrow> ptr multiset \<Rightarrow> ptr multiset" where
  "nv_put_firmware fw_handle blocks = free_block fw_handle blocks"

lemma free_malloc1: "malloc1 mem blocks = (p, blocks') \<Longrightarrow> free_block p blocks' = blocks"
  by (auto simp: malloc1_def free_block_def split: if_splits)

lemma small_objects_given_back:
  "os_get_pid_info mem blocks = (p, b) \<Longrightarrow> os_put_pid_info p b = blocks"
  "os_nv_cap_create_dir_entry mem blocks = (p, b) \<Longrightarrow> os_nv_cap_destroy_entry p b = blocks"
  "os_nv_cap_create_file_entry mem blocks = (p, b) \<Longrightarrow> os_nv_cap_destroy_entry p b = blocks"
  by (auto simp: os_get_pid_info_def os_put_pid_info_def os_nv_cap_create_dir_entry_def
      os_nv_cap_create_file_entry_def os_nv_cap_destroy_entry_def dest: free_malloc1)

section \<open>The ends of locks\<close>

text \<open>The memory of a lock goes back where \<open>os_alloc_mem\<close> took it from, the objects of \<open>new\<close> to the
  heap. What is destroyed with a lock: the RW lock of the kernel, the kernel's semaphore.\<close>

definition os_free_spinlock :: "ptr \<Rightarrow> ptr multiset \<Rightarrow> ptr multiset" where
  "os_free_spinlock pSpinlock blocks = free_block pSpinlock blocks"

definition os_free_rwlock :: "ptr \<Rightarrow> ptr set \<times> ptr multiset \<Rightarrow> ptr set \<times> ptr multiset" where
  "os_free_rwlock pRwLock st = (case st of (locks, blocks) \<Rightarrow> (locks - {pRwLock}, free_block pRwLock blocks))"

definition os_free_semaphore :: "ptr \<Rightarrow> (ptr \<rightharpoonup> nat) \<Rightarrow> (ptr \<rightharpoonup> nat)" where
  "os_free_semaphore pSema sems = (if pSema = nullptr then sems else sems(pSema := None))"

definition os_free_wait_queue :: "ptr \<Rightarrow> ptr multiset \<Rightarrow> ptr multiset" where
  "os_free_wait_queue wq blocks = free_block wq blocks"

text \<open>Both conditional acquisitions of a RW lock panic.\<close>

definition os_cond_acquire_rwlock_read :: "rw_lock \<Rightarrow> (nv_status \<times> rw_lock) option" where
  "os_cond_acquire_rwlock_read l = None"

definition os_cond_acquire_rwlock_write :: "rw_lock \<Rightarrow> (nv_status \<times> rw_lock) option" where
  "os_cond_acquire_rwlock_write l = None"

section \<open>Processes\<close>

definition os_get_current_process :: "u32 \<Rightarrow> u32" where "os_get_current_process getpid = getpid"
definition os_get_euid :: "u32 \<Rightarrow> nv_status \<times> u32" where "os_get_euid geteuid = (NV_OK, geteuid)"
definition os_get_current_thread :: "u32 \<Rightarrow> nv_status \<times> u64" where
  "os_get_current_thread find_thread = (NV_OK, scast find_thread)"
definition os_is_isr :: "cpu \<Rightarrow> bool" where "os_is_isr c \<longleftrightarrow> \<not> interrupts c"

text \<open>A section under a spinlock counts as an interrupt handler.\<close>

lemma spinlock_is_isr: "os_acquire_spinlock l c = Some (old, c') \<Longrightarrow> os_is_isr c' \<and> \<not> os_semaphore_may_sleep c'"
  by (auto simp: os_acquire_spinlock_def os_is_isr_def os_semaphore_may_sleep_def Let_def split: if_splits)

text \<open>A failed assertion, and a bug check, end in \<open>abort\<close>: no value.\<close>

definition nvlink_assert :: "int \<Rightarrow> unit option" where "nvlink_assert cond = (if cond = 0 then None else Some ())"
definition os_bug_check :: "u32 \<Rightarrow> string \<Rightarrow> unit option" where "os_bug_check bugCode bugCodeStr = None"

section \<open>The registry\<close>

text \<open>The one value that is set; the constants are those of the resource manager.\<close>

definition os_registry_init :: "string \<Rightarrow> u32 \<Rightarrow> (string \<rightharpoonup> u32) \<Rightarrow> nv_status \<times> (string \<rightharpoonup> u32)" where
  "os_registry_init NV_REG_PROCESS_NONSTALL_INTR_IN_LOCKLESS_ISR disable registry =
     (NV_OK, registry(NV_REG_PROCESS_NONSTALL_INTR_IN_LOCKLESS_ISR \<mapsto> disable))"

section \<open>The control device\<close>

text \<open>The pointer \<open>gNvHaikuControlDeviceInst\<close>, the flags in the state of the device, and whether its event
  locks exist.\<close>

record control =
  gNvHaikuControlDeviceInst :: ptr
  cd_flags :: u32
  cd_event_locks :: bool

definition NvHaikuControlDevice_ctor :: "u32 \<Rightarrow> ptr \<Rightarrow> control \<Rightarrow> control" where
  "NvHaikuControlDevice_ctor NV_FLAG_CONTROL this c =
     c\<lparr>cd_flags := cd_flags c OR NV_FLAG_CONTROL, gNvHaikuControlDeviceInst := this, cd_event_locks := True\<rparr>"

definition NvHaikuControlDevice_dtor :: "control \<Rightarrow> control" where
  "NvHaikuControlDevice_dtor c = c\<lparr>cd_event_locks := False, gNvHaikuControlDeviceInst := nullptr\<rparr>"

text \<open>A new handle for the file, with no class of its own; the wrapper of \<open>Drivers_cpp.h\<close> adds it.\<close>

definition NvHaikuControlDevice_Open :: "ptr \<Rightarrow> ptr status" where
  "NvHaikuControlDevice_Open new = (if new = nullptr then Inl B_NO_MEMORY else Inr new)"

text \<open>The pointer is not checked.\<close>

definition nv_get_ctl_state :: "control \<Rightarrow> ptr option" where
  "nv_get_ctl_state c = (if gNvHaikuControlDeviceInst c = nullptr then None else Some (gNvHaikuControlDeviceInst c))"

lemma ctl_state_lifetime:
  "this \<noteq> nullptr \<Longrightarrow> nv_get_ctl_state (NvHaikuControlDevice_ctor fl this c) = Some this"
  "nv_get_ctl_state (NvHaikuControlDevice_dtor c) = None"
  by (simp_all add: nv_get_ctl_state_def NvHaikuControlDevice_ctor_def NvHaikuControlDevice_dtor_def)

section \<open>One answer\<close>

definition os_allow_priority_override :: bool where "os_allow_priority_override = False"
definition os_get_cpu_frequency :: u64 where "os_get_cpu_frequency = 1000000000"
definition os_get_cpu_count :: u32 where "os_get_cpu_count = 1"
definition os_get_cpu_number :: u32 where "os_get_cpu_number = 0"
definition os_is_grid_supported :: bool where "os_is_grid_supported = False"
definition os_get_grid_csp_support :: u32 where "os_get_grid_csp_support = 0"
definition nv_is_gpu_accessible :: bool where "nv_is_gpu_accessible = True"
definition os_is_init_ns :: bool where "os_is_init_ns = False"
definition nv_get_syncpoint_aperture :: nv_status where "nv_get_syncpoint_aperture = NV_ERR_NOT_SUPPORTED"
definition os_is_queue_flush_ongoing :: bool where "os_is_queue_flush_ongoing = False"
definition nv_set_primary_vga_status :: nv_status where "nv_set_primary_vga_status = NV_ERR_NOT_SUPPORTED"
definition nv_start_rc_timer :: int where "nv_start_rc_timer = 0"
definition nv_stop_rc_timer :: int where "nv_stop_rc_timer = 0"
definition nv_acpi_methods_init :: u32 where "nv_acpi_methods_init = 0"
definition nv_i2c_add_adapter :: ptr where "nv_i2c_add_adapter = nullptr"

text \<open>The number of the processor is always below the number of processors.\<close>

lemma cpu_number_below: "os_get_cpu_number < os_get_cpu_count"
  by (simp add: os_get_cpu_number_def os_get_cpu_count_def)

record iommus =
  iommu_dispIsoStreamId :: u32
  iommu_dispNisoStreamId :: u32

definition nv_get_disp_smmu_stream_ids :: "iommus \<Rightarrow> u32 \<times> u32" where
  "nv_get_disp_smmu_stream_ids i = (iommu_dispIsoStreamId i, iommu_dispNisoStreamId i)"

text \<open>Calls that do nothing here: the state they are given is the state they leave.\<close>

datatype quiet_call =
    Dbg_breakpoint | Dbg_init | Add_record_for_crashLog | Delete_record_for_crashLog
  | Flush_cpu_write_combine_buffer | Disable_console_access | Enable_console_access | Put_file_private
  | Audio_dynamic_power | Schedule_uvm_isr | Acpi_methods_uninit | I2c_del_adapter

definition quiet_call :: "quiet_call \<Rightarrow> 's \<Rightarrow> 's" where "quiet_call q s = s"

section \<open>Missing functions\<close>

text \<open>The imports of the resource manager that \<open>stubs.c\<close> defines. Each panics and names itself.\<close>

definition stubs_1 :: "string list" where
  "stubs_1 =
    [''nv_alias_pages'', ''nv_control_soc_irqs'', ''nv_dma_cache_invalidate'', ''nv_dma_enable_nvlink'',
     ''nv_dma_import_dma_buf'', ''nv_dma_import_from_fd'', ''nv_dma_import_sgt'', ''nv_dma_map_alloc'',
     ''nv_dma_map_mmio'', ''nv_dma_map_pages'', ''nv_dma_map_peer'', ''nv_dma_release_dma_buf'',
     ''nv_dma_release_sgt'', ''nv_dma_unmap_alloc'', ''nv_dma_unmap_mmio'', ''nv_dma_unmap_pages'',
     ''nv_dma_unmap_peer'', ''nv_flush_coherent_cpu_cache_range'', ''nv_get_adapter_state'', ''nv_get_event'',
     ''nv_get_ibmnpu_genreg_info'', ''nv_get_ibmnpu_relaxed_ordering_mode'', ''nv_get_num_phys_pages'',
     ''nv_get_phys_pages'', ''nv_parms'', ''nv_pci_trigger_recovery'', ''nv_register_peer_io_mem'',
     ''nv_register_phys_pages'', ''nv_register_sgt'', ''nv_register_user_pages'', ''nv_unregister_peer_io_mem'',
     ''nv_unregister_phys_pages'', ''nv_unregister_sgt'', ''nv_unregister_user_pages'', ''nv_wait_for_ibmnpu_rsync'',
     ''nvidia_caps_root'', ''nvlink_acquire_fabric_mgmt_cap'', ''nvlink_is_admin'', ''nvlink_is_fabric_manager'',
     ''nvswitch_os_acquire_fabric_mgmt_cap'', ''nvswitch_os_add_client_event'', ''nvswitch_os_alloc_contig_memory'',
     ''nvswitch_os_assert_log'', ''nvswitch_os_free'', ''nvswitch_os_free_contig_memory'',
     ''nvswitch_os_get_platform_time'', ''nvswitch_os_get_supported_register_events_params'',
     ''nvswitch_os_is_admin'', ''nvswitch_os_is_fabric_manager'', ''nvswitch_os_is_uuid_in_blacklist'',
     ''nvswitch_os_malloc_trace'', ''nvswitch_os_map_dma_region'', ''nvswitch_os_mem_read32'',
     ''nvswitch_os_mem_write32'', ''nvswitch_os_memcpy'', ''nvswitch_os_memset'',
     ''nvswitch_os_notify_client_event'', ''nvswitch_os_override_platform'', ''nvswitch_os_print'',
     ''nvswitch_os_read_registry_dword'', ''nvswitch_os_remove_client_event'', ''nvswitch_os_set_dma_mask'',
     ''nvswitch_os_sleep'', ''nvswitch_os_snprintf'', ''nvswitch_os_strlen'', ''nvswitch_os_strncmp'',
     ''nvswitch_os_strncpy'', ''nvswitch_os_sync_dma_region_for_cpu'', ''nvswitch_os_sync_dma_region_for_device'',
     ''nvswitch_os_unmap_dma_region'', ''nvswitch_os_vsnprintf'', ''os_alloc_pages_node'', ''os_close_file'',
     ''os_count_tail_pages'', ''os_dbg_set_level'', ''os_dma_buf_enabled'', ''os_dump_stack'']"

definition stubs_2 :: "string list" where
  "stubs_2 =
    [''os_flush_user_cache'', ''os_flush_work_queue'', ''os_get_page'', ''os_get_page_refcount'',
     ''os_get_random_bytes'', ''os_get_smbios_header'', ''os_get_version_info'', ''os_io_read_byte'',
     ''os_io_read_word'', ''os_io_write_byte'', ''os_io_write_word'', ''os_lock_user_pages'',
     ''os_lookup_user_io_memory'', ''os_numa_memblock_size'', ''os_open_temporary_file'',
     ''os_pci_remove_supported'', ''os_put_page'', ''os_queue_work_item'', ''os_read_file'', ''os_string_compare'',
     ''os_string_copy'', ''os_string_length'', ''os_strtoul'', ''os_unlock_user_pages'', ''os_write_file'',
     ''libspdm_aead_aes_gcm_decrypt'', ''libspdm_aead_aes_gcm_decrypt_prealloc'', ''libspdm_aead_aes_gcm_encrypt'',
     ''libspdm_aead_aes_gcm_encrypt_prealloc'', ''libspdm_aead_free'', ''libspdm_aead_gcm_prealloc'',
     ''libspdm_asn1_get_tag'', ''libspdm_ec_compute_key'', ''libspdm_ec_free'', ''libspdm_ec_generate_key'',
     ''libspdm_ec_get_public_key_from_x509'', ''libspdm_ec_new_by_nid'', ''libspdm_ecdsa_verify'',
     ''libspdm_hkdf_sha256_expand'', ''libspdm_hkdf_sha256_extract'', ''libspdm_hkdf_sha384_expand'',
     ''libspdm_hkdf_sha384_extract'', ''libspdm_hmac_sha256_all'', ''libspdm_hmac_sha256_final'',
     ''libspdm_hmac_sha256_free'', ''libspdm_hmac_sha256_new'', ''libspdm_hmac_sha256_set_key'',
     ''libspdm_hmac_sha256_update'', ''libspdm_hmac_sha384_all'', ''libspdm_random_bytes'',
     ''libspdm_sha256_duplicate'', ''libspdm_sha256_final'', ''libspdm_sha256_free'', ''libspdm_sha256_hash_all'',
     ''libspdm_sha256_init'', ''libspdm_sha256_new'', ''libspdm_sha256_update'', ''libspdm_sha384_duplicate'',
     ''libspdm_sha384_final'', ''libspdm_sha384_free'', ''libspdm_sha384_hash_all'', ''libspdm_sha384_init'',
     ''libspdm_sha384_new'', ''libspdm_sha384_update'', ''libspdm_x509_compare_date_time'',
     ''libspdm_x509_get_cert_from_cert_chain'', ''libspdm_x509_get_extended_basic_constraints'',
     ''libspdm_x509_get_extended_key_usage'', ''libspdm_x509_get_extension_data'', ''libspdm_x509_get_issuer_name'',
     ''libspdm_x509_get_key_usage'', ''libspdm_x509_get_serial_number'', ''libspdm_x509_get_subject_name'',
     ''libspdm_x509_get_validity'', ''libspdm_x509_get_version'', ''libspdm_x509_set_date_time'',
     ''libspdm_x509_verify_cert'', ''libspdm_x509_verify_cert_chain'', ''libspdm_ecdsa_sign'',
     ''libspdm_hmac_sha384_new'', ''libspdm_hmac_sha384_free'', ''libspdm_hmac_sha384_set_key'',
     ''libspdm_hmac_sha256_duplicate'', ''libspdm_hmac_sha384_duplicate'', ''libspdm_hmac_sha384_update'',
     ''libspdm_hmac_sha384_final'', ''nv_acquire_mmap_lock'', ''nv_allow_runtime_suspend'']"

definition stubs_3 :: "string list" where
  "stubs_3 =
    [''nv_cancel_nano_timer'', ''nv_create_nano_timer'', ''nv_destroy_nano_timer'', ''nv_disallow_runtime_suspend'',
     ''nv_dynamic_power_available'', ''nv_get_all_mappings_revoked_locked'', ''nv_get_egm_info'',
     ''nv_get_updated_emu_seg'', ''nv_idle_holdoff'', ''nv_indicate_idle'', ''nv_indicate_not_idle'',
     ''nv_match_gpu_os_info'', ''nv_platform_supports_s0ix'', ''nv_release_mmap_lock'', ''nv_revoke_gpu_mappings'',
     ''nv_s2idle_pm_configured'', ''nv_set_safe_to_mmap_locked'', ''nv_start_nano_timer'',
     ''nvlink_get_platform_time'', ''nvswitch_os_get_os_version'', ''nvswitch_os_get_platform_time_epoch'',
     ''os_call_vgpu_vfio'', ''os_enable_pci_req_atomics'', ''os_get_numa_node_memory_usage'', ''os_inject_vgx_msi'',
     ''os_io_read_dword'', ''os_io_write_dword'', ''os_numa_add_gpu_memory'', ''os_numa_remove_gpu_memory'',
     ''os_offline_page_at_address'', ''libspdm_check_crypto_backend'', ''libspdm_rsa_free'',
     ''libspdm_rsa_get_public_key_from_x509'', ''libspdm_rsa_new'', ''libspdm_rsa_pss_sign'',
     ''libspdm_rsa_pss_verify'', ''libspdm_rsa_set_key'', ''nvswitch_os_get_pid'', ''os_imex_channel_count'',
     ''os_imex_channel_get'', ''os_imex_channel_is_supported'', ''nv_schedule_uvm_drain_p2p'',
     ''nv_schedule_uvm_resume_p2p'']"

definition stubs :: "string list" where "stubs = stubs_1 @ stubs_2 @ stubs_3"

definition stub_panic :: "string \<Rightarrow> string" where
  "stub_panic name = ''[!!!] '' @ name @ '': not implemented'' @ [CHR 10]"

text \<open>A call of an import by its name: the panic message of a stub, or the function that is there.\<close>

definition call_import :: "(string \<Rightarrow> 'a) \<Rightarrow> string \<Rightarrow> string + 'a" where
  "call_import function name = (if name \<in> set stubs then Inl (stub_panic name) else Inr (function name))"

text \<open>The panic tells which function was missing.\<close>

lemma stub_panic_inj: "stub_panic a = stub_panic b \<Longrightarrow> a = b"
  by (simp add: stub_panic_def)

lemma call_import_panic: "call_import f name = Inl msg \<Longrightarrow> name \<in> set stubs \<and> msg = stub_panic name"
  by (auto simp: call_import_def split: if_splits)

end
