(* ===== verification/Printing.thy ===== *)
theory Printing
  imports DeviceNames
begin

text \<open>
  What the kernel driver prints: \<open>nv_printf\<close>, \<open>nv_log_error\<close>, \<open>os_snprintf\<close>, \<open>nvlink_print\<close>, \<open>out_string\<close> and
  \<open>HexDump\<close> of \<open>nvidia_gsp/nvidia/os-haiku.cpp\<close>. The format language is that of the C library; how it
  prints one argument is a parameter, what it does with the format string is written out: a conversion
  takes an argument, and one without an argument has no defined result.
\<close>

section \<open>Formats\<close>

text \<open>Flags, width, precision and length of a conversion.\<close>

definition format_modifier :: "char \<Rightarrow> bool" where
  "format_modifier c \<longleftrightarrow> c \<in> set ''#0- +123456789.hljztL''"

lemma dropWhile_shorter: "dropWhile P f = k # rest \<Longrightarrow> length rest < length f"
  by (metis length_Cons length_dropWhile_le Suc_le_eq)

text \<open>\<open>conv\<close> prints one argument by a conversion.\<close>

function format :: "(string \<Rightarrow> 'a \<Rightarrow> string) \<Rightarrow> string \<Rightarrow> 'a list \<Rightarrow> string option" where
  "format conv [] args = Some []"
| "format conv (c # f) args =
     (if c \<noteq> CHR ''%'' then map_option ((#) c) (format conv f args)
      else case dropWhile format_modifier f of
             [] \<Rightarrow> None
           | k # rest \<Rightarrow>
               if k = CHR ''%'' then map_option ((#) (CHR ''%'')) (format conv rest args)
               else case args of
                      [] \<Rightarrow> None
                    | x # xs \<Rightarrow> map_option ((@) (conv (takeWhile format_modifier f @ [k]) x)) (format conv rest xs))"
  by pat_completeness auto

termination by (relation "measure (\<lambda>(_, f, _). length f)") (auto dest: dropWhile_shorter)

text \<open>A format without conversions prints itself, and only such a format does so with no argument.\<close>

lemma format_plain: "CHR ''%'' \<notin> set f \<Longrightarrow> format conv f args = Some f"
  by (induction f) auto

lemma format_shorter:
  "format conv f [] = Some out \<Longrightarrow> length out \<le> length f \<and> (CHR ''%'' \<in> set f \<longrightarrow> length out < length f)"
proof (induction "length f" arbitrary: f out rule: less_induct)
  case less
  show ?case
  proof (cases f)
    case (Cons c f')
    show ?thesis
    proof (cases "c = CHR ''%''")
      case False
      then obtain out' where "out = c # out'" "format conv f' [] = Some out'" using less.prems Cons by auto
      then show ?thesis using less.hyps [of f' out'] Cons False by auto
    next
      case True
      then obtain rest out' where "dropWhile format_modifier f' = CHR ''%'' # rest" "out = CHR ''%'' # out'"
        "format conv rest [] = Some out'"
        using less.prems Cons by (auto split: list.splits if_splits)
      then show ?thesis using less.hyps [of rest out'] dropWhile_shorter Cons by fastforce
    qed
  qed (use less.prems in simp)
qed

lemma format_self_iff: "format conv f [] = Some f \<longleftrightarrow> CHR ''%'' \<notin> set f"
  using format_plain [of f conv "[]"] format_shorter [of conv f f] by auto

section \<open>The log\<close>

definition MAX_ERROR_STRING :: nat where "MAX_ERROR_STRING = 528"

text \<open>\<open>vsnprintf\<close> cuts the text to the buffer, the last byte of which is the terminator; the text after the
  cut is what is in \<open>nv_error_string\<close>. \<open>None\<close> is a missing argument.\<close>

definition vsnprintf :: "(string \<Rightarrow> 'a \<Rightarrow> string) \<Rightarrow> nat \<Rightarrow> string \<Rightarrow> 'a list \<Rightarrow> string option" where
  "vsnprintf conv len fmt args = map_option (take (len - 1)) (format conv fmt args)"

text \<open>\<open>dprintf\<close> gets the string as its format.\<close>

definition nv_printf :: "(string \<Rightarrow> 'a \<Rightarrow> string) \<Rightarrow> string \<Rightarrow> 'a list \<Rightarrow> string option" where
  "nv_printf conv printf_format args =
     Option.bind (vsnprintf conv MAX_ERROR_STRING printf_format args) (\<lambda>nv_error_string. format conv nv_error_string [])"

text \<open>\<open>str\<close> makes a string an argument.\<close>

definition nv_log_error :: "(string \<Rightarrow> 'a \<Rightarrow> string) \<Rightarrow> (string \<Rightarrow> 'a) \<Rightarrow> string \<Rightarrow> 'a list \<Rightarrow> string option" where
  "nv_log_error conv str fmt ap =
     Option.bind (vsnprintf conv MAX_ERROR_STRING fmt ap) (\<lambda>nv_error_string. format conv ''%s\<newline>'' [str nv_error_string])"

text \<open>The result is the number of characters that the whole text has.\<close>

definition os_snprintf :: "(string \<Rightarrow> 'a \<Rightarrow> string) \<Rightarrow> nat \<Rightarrow> string \<Rightarrow> 'a list \<Rightarrow> (string \<times> int) option" where
  "os_snprintf conv len fmt args = map_option (\<lambda>msg. (take (len - 1) msg, int (length msg))) (format conv fmt args)"

definition nvkms_snprintf :: "(string \<Rightarrow> 'a \<Rightarrow> string) \<Rightarrow> nat \<Rightarrow> string \<Rightarrow> 'a list \<Rightarrow> (string \<times> int) option" where
  "nvkms_snprintf conv len fmt args = os_snprintf conv len fmt args"

definition nvkms_vsnprintf :: "(string \<Rightarrow> 'a \<Rightarrow> string) \<Rightarrow> nat \<Rightarrow> string \<Rightarrow> 'a list \<Rightarrow> (string \<times> int) option" where
  "nvkms_vsnprintf conv len fmt ap = os_snprintf conv len fmt ap"

text \<open>What fits is printed in full, and the result says whether it did.\<close>

lemma snprintf_fits:
  "os_snprintf conv len fmt args = Some (buf, n) \<Longrightarrow> n < int len \<Longrightarrow> format conv fmt args = Some buf \<and> n = int (length buf)"
  by (auto simp: os_snprintf_def)

definition out_string :: "(string \<Rightarrow> 'a \<Rightarrow> string) \<Rightarrow> (string \<Rightarrow> 'a) \<Rightarrow> string \<Rightarrow> string option" where
  "out_string conv str s = format conv ''%s'' [str s]"

datatype nvlink_level = LevelInfo | LevelSetup | LevelUserErrors | LevelWarnings | LevelErrors | LevelOther

fun sys_log_level :: "nvlink_level \<Rightarrow> string" where
  "sys_log_level LevelInfo = ''[INFO] ''"
| "sys_log_level LevelSetup = ''[DEBUG] ''"
| "sys_log_level LevelUserErrors = ''[NOTICE] ''"
| "sys_log_level LevelWarnings = ''[WARNING] ''"
| "sys_log_level LevelErrors = ''[ERROR] ''"
| "sys_log_level LevelOther = ''[INFO] ''"

definition nvlink_print :: "(string \<Rightarrow> 'a \<Rightarrow> string) \<Rightarrow> (string \<Rightarrow> 'a) \<Rightarrow> nvlink_level \<Rightarrow> string \<Rightarrow> 'a list \<Rightarrow> string option" where
  "nvlink_print conv str log_level fmt args =
     Option.bind (vsnprintf conv 1024 fmt args)
       (\<lambda>nv_string. format conv ''%snvidia-nvlink: %s'' [str (sys_log_level log_level), str nv_string])"

text \<open>The other printers hand their text over as an argument.\<close>

lemma format_string:
  assumes "\<And>s. conv ''s'' (str s) = s"
  shows "format conv (CHR ''%'' # CHR ''s'' # f) (str s # args) = map_option ((@) s) (format conv f args)"
  using assms by (simp add: format_modifier_def)

lemma nv_log_error_prints:
  assumes "\<And>s. conv ''s'' (str s) = s" "format conv fmt ap = Some msg"
  shows "nv_log_error conv str fmt ap = Some (take 527 msg @ ''\<newline>'')"
  using format_string [of conv str, OF assms(1)] assms(2)
  by (simp add: nv_log_error_def vsnprintf_def MAX_ERROR_STRING_def format_plain)

lemma nvlink_print_prints:
  assumes "\<And>s. conv ''s'' (str s) = s" "format conv fmt args = Some msg"
  shows "nvlink_print conv str level fmt args = Some (sys_log_level level @ ''nvidia-nvlink: '' @ take 1023 msg)"
  using format_string [of conv str, OF assms(1)] assms(2)
  by (simp add: nvlink_print_def vsnprintf_def format_modifier_def)

text \<open>
  \<open>nv_printf\<close> formats its text twice. Whatever message it is asked to print, the text that it comes to,
  cut to the buffer, is printed if and only if it contains no percent sign: otherwise \<open>dprintf\<close> takes the
  text for a format, drops a character or reads an argument that does not exist. \<open>nv_log_error\<close>, which
  hands the same text over as an argument, prints it always.
\<close>

theorem nv_printf_formats_twice:
  assumes "format conv printf_format args = Some msg"
  shows "(nv_printf conv printf_format args = Some (take 527 msg) \<longleftrightarrow> CHR ''%'' \<notin> set (take 527 msg)) \<and>
    ((\<forall>s. conv ''s'' (str s) = s) \<longrightarrow> nv_log_error conv str printf_format args = Some (take 527 msg @ ''\<newline>''))"
  using assms nv_log_error_prints [of conv str printf_format args msg]
  by (simp add: nv_printf_def vsnprintf_def MAX_ERROR_STRING_def format_self_iff)

text \<open>A file name with a percent sign.\<close>

lemma nv_printf_formats_twice_witness:
  "nv_printf (\<lambda>_ s. s) ''loading %s'' [''fw%d.bin''] \<noteq> Some ''loading fw%d.bin'' \<and>
   nv_log_error (\<lambda>_ s. s) (\<lambda>s. s) ''loading %s'' [''fw%d.bin''] = Some ''loading fw%d.bin\<newline>''"
proof -
  have "format (\<lambda>_ s. s) ''loading %s'' [''fw%d.bin''] = Some ''loading fw%d.bin''"
    by (simp add: format_modifier_def)
  from nv_printf_formats_twice [OF this, of "\<lambda>s. s"] show ?thesis by simp
qed

section \<open>HexDump\<close>

definition hex_digit :: "nat \<Rightarrow> char" where "hex_digit d = ''0123456789abcdef'' ! d"

text \<open>\<open>%08x\<close> and \<open>%02x\<close>.\<close>

definition hex :: "nat \<Rightarrow> nat \<Rightarrow> string" where
  "hex digits n = map (\<lambda>i. hex_digit (n div 16 ^ i mod 16)) (rev [0..<digits])"

lemma length_hex [simp]: "length (hex digits n) = digits"
  by (simp add: hex_def)

text \<open>\<open>sprintf\<close> at the end of the line; no value when it or its terminator leaves the 256 bytes.\<close>

definition put_line :: "string \<Rightarrow> string \<Rightarrow> string option" where
  "put_line line s = (if length line + length s + 1 \<le> 256 then Some (line @ s) else None)"

text \<open>The buffer is \<open>None\<close> before anything is written to it. The result are the lines that are printed.\<close>

fun hex_loop :: "u8 list \<Rightarrow> nat \<Rightarrow> string option \<Rightarrow> string list option" where
  "hex_loop [] offset line = map_option (\<lambda>l. [l]) line"
| "hex_loop (b # data) offset line =
     (let new_line = (offset \<noteq> 0 \<and> offset mod 16 = 0);
          begun = (if new_line then put_line [] (hex 8 offset @ '' '') else Some (case line of None \<Rightarrow> [] | Some l \<Rightarrow> l))
      in case (new_line, line, Option.bind begun (\<lambda>l. put_line l ('' '' @ hex 2 (unat b)))) of
           (True, Some printed, Some l) \<Rightarrow> map_option ((#) printed) (hex_loop data (offset + 1) (Some l))
         | (False, _, Some l) \<Rightarrow> hex_loop data (offset + 1) (Some l)
         | _ \<Rightarrow> None)"

definition HexDump :: "u8 list \<Rightarrow> string list option" where
  "HexDump data = hex_loop data 0 None"

lemma div16_step: "Suc n div 16 = n div 16 + of_bool (Suc n mod 16 = 0)"
  by (simp add: div_Suc)

lemma hex_loop_lines:
  assumes "0 < offset" "length line \<le> 9 + 3 * ((offset - 1) mod 16 + 1)"
  shows "\<exists>lines. hex_loop data offset (Some line) = Some lines \<and>
    length lines = 1 + (offset + length data - 1) div 16 - (offset - 1) div 16 \<and> (\<forall>l \<in> set lines. length l \<le> 57)"
  using assms
proof (induction data arbitrary: offset line)
  case Nil
  then show ?case by simp
next
  case (Cons b data)
  obtain n where n: "offset = Suc n" using Cons.prems(1) by (cases offset) auto
  have le: "length line \<le> 57" using Cons.prems(2) mod_less_divisor [of 16 n] by (simp add: n)
  define new_line where "new_line \<longleftrightarrow> offset mod 16 = 0"
  define l where "l = (if new_line then hex 8 offset @ '' '' else line) @ '' '' @ hex 2 (unat b)"
  have len: "length l \<le> 9 + 3 * (offset mod 16 + 1)"
  proof (cases new_line)
    case False
    then have "offset mod 16 = n mod 16 + 1" by (simp add: n new_line_def mod_Suc split: if_splits)
    then show ?thesis using Cons.prems(2) False by (simp add: l_def n)
  qed (simp add: l_def)
  obtain lines where lines: "hex_loop data (offset + 1) (Some l) = Some lines"
    "length lines = 1 + (offset + length data) div 16 - offset div 16" "\<forall>l \<in> set lines. length l \<le> 57"
    using Cons.IH [of "offset + 1" l] len by auto
  have step: "hex_loop (b # data) offset (Some line) = Some (if new_line then line # lines else lines)"
    using lines(1) le by (auto simp: new_line_def l_def put_line_def n)
  have "offset div 16 = n div 16 + of_bool new_line" using div16_step [of n] by (simp add: n new_line_def)
  moreover have "offset div 16 \<le> (offset + length data) div 16" by (simp add: div_le_mono)
  ultimately have "length (if new_line then line # lines else lines) = 1 + (offset + length (b # data) - 1) div 16 - (offset - 1) div 16"
    using lines(2) by (cases new_line) (simp_all add: n Suc_diff_le le_SucI)
  then show ?case unfolding step using lines(3) le by (intro exI conjI) (rule refl, assumption, auto)
qed

text \<open>
  The dump of data that is not empty stays inside its buffer: it prints one line for every sixteen bytes,
  none longer than 57 characters. Of no data it prints the buffer that nothing was written to; and the
  first line has no offset.\<close>

lemma HexDump_fits:
  assumes "data \<noteq> []"
  shows "\<exists>lines. HexDump data = Some lines \<and> length lines = (length data + 15) div 16 \<and> (\<forall>l \<in> set lines. length l \<le> 57)"
proof -
  obtain b rest where data: "data = b # rest" using assms by (cases data) auto
  have "HexDump data = hex_loop rest 1 (Some ('' '' @ hex 2 (unat b)))" by (simp add: HexDump_def data put_line_def)
  then show ?thesis using hex_loop_lines [of 1 "'' '' @ hex 2 (unat b)" rest] by (auto simp: data)
qed

lemma HexDump_empty: "HexDump [] = None"
  by (simp add: HexDump_def)

end
